theory Spec2Isabelle
  imports Complex_Main "HOL-Library.Product_Lexorder" "HOL-Library.List_Lexorder"
begin

section \<open>Rank-based evaluation of pykeen: metric keys, weighted statistics, accumulators\<close>

text \<open>
  The development follows \<^verbatim>\<open>pykeen/evaluation/metrics.py\<close> and
  \<^verbatim>\<open>pykeen/evaluation/rank_based_evaluator.py\<close>. Python exceptions are values of
  the type \<open>error\<close>; a function that may raise returns \<open>error + 'a\<close>. Floating-point
  numbers are modelled by exact reals. Metric specification strings are ASCII text.
\<close>

datatype error =
    ValueError string
  | AssertionError
  | IndexError
  | KeyError
  | ZeroDivisionError
  | RuntimeError
  | TypeError

text \<open>Sequencing of steps that may raise: the first exception ends the computation.\<close>

definition bind_err :: "error + 'a \<Rightarrow> ('a \<Rightarrow> error + 'b) \<Rightarrow> error + 'b" where
  "bind_err m f = (case m of Inl e \<Rightarrow> Inl e | Inr x \<Rightarrow> f x)"

text \<open>A \<^verbatim>\<open>for\<close> loop whose body may raise, over the list of its iterations.\<close>

fun for_each :: "('b \<Rightarrow> 'a \<Rightarrow> error + 'a) \<Rightarrow> 'b list \<Rightarrow> 'a \<Rightarrow> error + 'a" where
  "for_each body [] acc = Inr acc"
| "for_each body (x # xs) acc = bind_err (body x acc) (for_each body xs)"

subsection \<open>Characters and strings\<close>

definition is_digit :: "char \<Rightarrow> bool" where
  "is_digit c \<longleftrightarrow> 48 \<le> (of_char c :: nat) \<and> (of_char c :: nat) \<le> 57"

definition is_upper :: "char \<Rightarrow> bool" where
  "is_upper c \<longleftrightarrow> 65 \<le> (of_char c :: nat) \<and> (of_char c :: nat) \<le> 90"

definition is_lower :: "char \<Rightarrow> bool" where
  "is_lower c \<longleftrightarrow> 97 \<le> (of_char c :: nat) \<and> (of_char c :: nat) \<le> 122"

text \<open>The character class \<^verbatim>\<open>[\w@]\<close> of the metric pattern.\<close>

definition is_name_char :: "char \<Rightarrow> bool" where
  "is_name_char c \<longleftrightarrow> is_digit c \<or> is_upper c \<or> is_lower c \<or> c = CHR ''_'' \<or> c = CHR ''@''"

definition lower_char :: "char \<Rightarrow> char" where
  "lower_char c = (if is_upper c then char_of ((of_char c :: nat) + 32) else c)"

text \<open>\<^verbatim>\<open>str.lower()\<close> and \<^verbatim>\<open>str.replace(" ", "_")\<close>.\<close>

definition lower :: "string \<Rightarrow> string" where
  "lower s = map lower_char s"

definition replace_space :: "string \<Rightarrow> string" where
  "replace_space s = map (\<lambda>c. if c = CHR '' '' then CHR ''_'' else c) s"

text \<open>\<^verbatim>\<open>s.startswith(p)\<close>.\<close>

definition startswith :: "string \<Rightarrow> string \<Rightarrow> bool" where
  "startswith s p \<longleftrightarrow> take (length p) s = p"

text \<open>\<^verbatim>\<open>"sep".join(components)\<close>.\<close>

fun join :: "string \<Rightarrow> string list \<Rightarrow> string" where
  "join sep [] = []"
| "join sep [x] = x"
| "join sep (x # y # ys) = x @ sep @ join sep (y # ys)"

text \<open>
  \<^verbatim>\<open>int(k)\<close> on a string: the strings that reach it are runs of decimal digits
  captured by \<^verbatim>\<open>\d+\<close>; anything else is the \<^verbatim>\<open>ValueError\<close> branch (\<open>None\<close>).
\<close>

definition digit_val :: "char \<Rightarrow> int" where
  "digit_val c = int (of_char c) - 48"

definition py_int :: "string \<Rightarrow> int option" where
  "py_int s = (if s \<noteq> [] \<and> list_all is_digit s
               then Some (foldl (\<lambda>acc c. 10 * acc + digit_val c) 0 s) else None)"

text \<open>\<^verbatim>\<open>str(k)\<close> for an integer: its decimal digits, with a sign when negative.\<close>

definition digit_char :: "nat \<Rightarrow> char" where
  "digit_char d = char_of (48 + d)"

function str_nat :: "nat \<Rightarrow> string" where
  "str_nat n = (if n < 10 then [digit_char n] else str_nat (n div 10) @ [digit_char (n mod 10)])"
  by pat_completeness auto
termination
  by (relation "measure id") auto

declare str_nat.simps [simp del]

definition str_int :: "int \<Rightarrow> string" where
  "str_int i = (if i < 0 then CHR ''-'' # str_nat (nat (- i)) else str_nat (nat i))"

subsection \<open>Metric keys (\<^verbatim>\<open>metrics.py\<close>)\<close>

definition ARITHMETIC_MEAN_RANK :: string where
  "ARITHMETIC_MEAN_RANK = ''arithmetic_mean_rank''"
definition GEOMETRIC_MEAN_RANK :: string where
  "GEOMETRIC_MEAN_RANK = ''geometric_mean_rank''"
definition HARMONIC_MEAN_RANK :: string where
  "HARMONIC_MEAN_RANK = ''harmonic_mean_rank''"
definition MEDIAN_RANK :: string where
  "MEDIAN_RANK = ''median_rank''"
definition INVERSE_ARITHMETIC_MEAN_RANK :: string where
  "INVERSE_ARITHMETIC_MEAN_RANK = ''inverse_arithmetic_mean_rank''"
definition INVERSE_GEOMETRIC_MEAN_RANK :: string where
  "INVERSE_GEOMETRIC_MEAN_RANK = ''inverse_geometric_mean_rank''"
definition INVERSE_HARMONIC_MEAN_RANK :: string where
  "INVERSE_HARMONIC_MEAN_RANK = ''inverse_harmonic_mean_rank''"
definition INVERSE_MEDIAN_RANK :: string where
  "INVERSE_MEDIAN_RANK = ''inverse_median_rank''"
definition ADJUSTED_ARITHMETIC_MEAN_RANK :: string where
  "ADJUSTED_ARITHMETIC_MEAN_RANK = ''adjusted_arithmetic_mean_rank''"
definition ADJUSTED_ARITHMETIC_MEAN_RANK_INDEX :: string where
  "ADJUSTED_ARITHMETIC_MEAN_RANK_INDEX = ''adjusted_arithmetic_mean_rank_index''"
definition RANK_STD :: string where
  "RANK_STD = ''rank_std''"
definition RANK_VARIANCE :: string where
  "RANK_VARIANCE = ''rank_var''"
definition RANK_MAD :: string where
  "RANK_MAD = ''rank_mad''"
definition RANK_COUNT :: string where
  "RANK_COUNT = ''rank_count''"

definition TYPES_REALISTIC_ONLY :: "string list" where
  "TYPES_REALISTIC_ONLY = [ADJUSTED_ARITHMETIC_MEAN_RANK, ADJUSTED_ARITHMETIC_MEAN_RANK_INDEX]"

definition METRIC_SYNONYMS :: "(string \<times> string) list" where
  "METRIC_SYNONYMS =
    [(''adjusted_mean_rank'', ADJUSTED_ARITHMETIC_MEAN_RANK),
     (''adjusted_mean_rank_index'', ADJUSTED_ARITHMETIC_MEAN_RANK_INDEX),
     (''amr'', ADJUSTED_ARITHMETIC_MEAN_RANK),
     (''aamr'', ADJUSTED_ARITHMETIC_MEAN_RANK),
     (''amri'', ADJUSTED_ARITHMETIC_MEAN_RANK_INDEX),
     (''aamri'', ADJUSTED_ARITHMETIC_MEAN_RANK_INDEX),
     (''igmr'', INVERSE_GEOMETRIC_MEAN_RANK),
     (''iamr'', INVERSE_ARITHMETIC_MEAN_RANK),
     (''mr'', ARITHMETIC_MEAN_RANK),
     (''mean_rank'', ARITHMETIC_MEAN_RANK),
     (''mrr'', INVERSE_HARMONIC_MEAN_RANK),
     (''mean_reciprocal_rank'', INVERSE_HARMONIC_MEAN_RANK)]"

text \<open>\<^verbatim>\<open>d.get(key, key)\<close> on a dictionary given as its list of items.\<close>

definition get_or_self :: "(string \<times> string) list \<Rightarrow> string \<Rightarrow> string" where
  "get_or_self d key = (case map_of d key of None \<Rightarrow> key | Some v \<Rightarrow> v)"

text \<open>
  Modelled from the spec: the constants of \<^verbatim>\<open>pykeen/typing.py\<close>, which is not among the
  sources. Section 4.1 gives the sides \<open>head\<close>, \<open>tail\<close>, \<open>both\<close>, the rank types
  \<open>optimistic\<close>, \<open>pessimistic\<close>, \<open>realistic\<close>, and the defaults \<open>both\<close> and
  \<open>realistic\<close>. The spec does not list the rank-type synonyms, so every function that
  reads \<^verbatim>\<open>RANK_TYPE_SYNONYMS\<close> takes the table as its first argument \<open>syn\<close> (the
  dictionary's items, in order); \<open>RANK_TYPE_SYNONYMS\<close> below is the table used where a
  concrete one is needed.
\<close>

definition LABEL_HEAD :: string where "LABEL_HEAD = ''head''"
definition LABEL_TAIL :: string where "LABEL_TAIL = ''tail''"
definition SIDE_BOTH :: string where "SIDE_BOTH = ''both''"
definition SIDES :: "string list" where "SIDES = [LABEL_HEAD, LABEL_TAIL, SIDE_BOTH]"

definition RANK_OPTIMISTIC :: string where "RANK_OPTIMISTIC = ''optimistic''"
definition RANK_PESSIMISTIC :: string where "RANK_PESSIMISTIC = ''pessimistic''"
definition RANK_REALISTIC :: string where "RANK_REALISTIC = ''realistic''"
definition RANK_EXPECTED_REALISTIC :: string where
  "RANK_EXPECTED_REALISTIC = ''expected_realistic''"
definition RANK_TYPES :: "string list" where
  "RANK_TYPES = [RANK_OPTIMISTIC, RANK_REALISTIC, RANK_PESSIMISTIC]"

definition RANK_TYPE_SYNONYMS :: "(string \<times> string) list" where
  "RANK_TYPE_SYNONYMS =
    [(''best'', RANK_OPTIMISTIC), (''worst'', RANK_PESSIMISTIC),
     (''avg'', RANK_REALISTIC), (''average'', RANK_REALISTIC)]"

text \<open>
  An optional group \<^verbatim>\<open>(\.(alt1|alt2|...))?\<close> of the pattern, tried at the text \<open>s\<close>:
  the first alternative that follows a dot is captured; the result is the capture and
  the text left. Everything after such a group in \<^verbatim>\<open>METRIC_PATTERN\<close> is optional and
  \<^verbatim>\<open>match\<close> does not anchor at the end, so the first choice is never undone.
\<close>

definition opt_group :: "string list \<Rightarrow> string \<Rightarrow> string option \<times> string" where
  "opt_group alts s =
    (case s of
       [] \<Rightarrow> (None, s)
     | c # t \<Rightarrow>
        (if c = CHR ''.'' then
           (case find (startswith t) alts of
              None \<Rightarrow> (None, s)
            | Some a \<Rightarrow> (Some a, drop (length a) t))
         else (None, s)))"

text \<open>The optional group \<^verbatim>\<open>(\.(?P<k>\d+))?\<close>.\<close>

definition opt_digits :: "string \<Rightarrow> string option \<times> string" where
  "opt_digits s =
    (case s of
       [] \<Rightarrow> (None, s)
     | c # t \<Rightarrow>
        (if c = CHR ''.'' \<and> takeWhile is_digit t \<noteq> []
         then (Some (takeWhile is_digit t), dropWhile is_digit t)
         else (None, s)))"

text \<open>
  \<^verbatim>\<open>METRIC_PATTERN.match(s)\<close>: \<open>None\<close> when there is no match, otherwise the groups
  \<open>name\<close>, \<open>side\<close>, \<open>type\<close>, \<open>k\<close> and the part of \<open>s\<close> after the match, which
  \<^verbatim>\<open>match\<close> leaves unread.
\<close>

definition METRIC_PATTERN_match ::
  "(string \<times> string) list \<Rightarrow> string
    \<Rightarrow> (string \<times> string option \<times> string option \<times> string option \<times> string) option" where
  "METRIC_PATTERN_match syn s =
    (let name = takeWhile is_name_char s; r0 = dropWhile is_name_char s in
     if name = [] then None
     else
       (let (side, r1) = opt_group SIDES r0;
            (type, r2) = opt_group (RANK_TYPES @ map fst syn) r1;
            (k, r3) = opt_digits r2
        in Some (name, side, type, k, r3)))"

text \<open>
  \<^verbatim>\<open>HITS_PATTERN.match(name)\<close>, the pattern \<^verbatim>\<open>(hits_at_|hits@|h@)(?P<k>\d+)\<close>:
  the group \<open>k\<close> when the name begins with one of the three prefixes and a digit.
\<close>

definition HITS_PATTERN_match :: "string \<Rightarrow> string option" where
  "HITS_PATTERN_match name =
    (case find (\<lambda>p. startswith name p \<and> takeWhile is_digit (drop (length p) name) \<noteq> [])
            [''hits_at_'', ''hits@'', ''h@''] of
       None \<Rightarrow> None
     | Some p \<Rightarrow> Some (takeWhile is_digit (drop (length p) name)))"

text \<open>
  The named tuple \<^verbatim>\<open>MetricKey(name, side, rank_type, k)\<close>; the field names carry
  the prefix \<open>key_\<close>.
\<close>

record MetricKey =
  key_name :: string
  key_side :: string
  key_rank_type :: string
  key_k :: "int option"

text \<open>The variable \<^verbatim>\<open>k\<close> of \<^verbatim>\<open>lookup\<close> is \<^verbatim>\<open>None\<close>, a string or an integer.\<close>

datatype kvalue = KStr string | KInt int

text \<open>\<^verbatim>\<open>MetricKey.__str__\<close>: the test \<^verbatim>\<open>if self.k\<close> is false for \<^verbatim>\<open>None\<close> and for 0.\<close>

definition str_MetricKey :: "MetricKey \<Rightarrow> string" where
  "str_MetricKey key =
    (let components = [key_name key, key_side key, key_rank_type key];
         components = (case key_k key of
                         None \<Rightarrow> components
                       | Some n \<Rightarrow> if n \<noteq> 0 then components @ [str_int n] else components)
     in join ''.'' components)"

text \<open>
  \<^verbatim>\<open>MetricKey.lookup\<close> is written in blocks; each block below is one of them, in the
  order of the source. First the block \<^verbatim>\<open>if name == "hits_at_k"\<close>: the default 10,
  \<^verbatim>\<open>int(k)\<close>, and the test \<^verbatim>\<open>k < 0\<close>.
\<close>

definition hits_k :: "kvalue option \<Rightarrow> error + int" where
  "hits_k kv =
    (let k1 = (case kv of None \<Rightarrow> KInt 10 | Some v \<Rightarrow> v) in
     case (case k1 of KInt n \<Rightarrow> Some n | KStr t \<Rightarrow> py_int t) of
       None \<Rightarrow> Inl (ValueError (''Invalid k='' @ (case k1 of KStr t \<Rightarrow> t | KInt n \<Rightarrow> str_int n)
                                  @ '' for hits_at_k''))
     | Some n \<Rightarrow>
         if n < 0 then
           Inl (ValueError (''For hits_at_k, you must provide a positive value of k, but found ''
                              @ str_int n @ ''.''))
         else Inr n)"

text \<open>
  The normalisation of the name: case and spaces, the special case for hits at k, the
  assertion \<^verbatim>\<open>k is None or isinstance(k, int)\<close>, and the metric synonyms. The result
  is the name and \<open>k\<close>.
\<close>

definition normalize_name :: "string \<Rightarrow> string option \<Rightarrow> error + string \<times> int option" where
  "normalize_name name0 k0 =
    (let name1 = replace_space (lower name0);
         m = HITS_PATTERN_match name1;
         name2 = (if m \<noteq> None then ''hits_at_k'' else name1);
         k1 = (case m of None \<Rightarrow> map_option KStr k0 | Some d \<Rightarrow> Some (KStr d))
     in
     bind_err (if name2 = ''hits_at_k'' then bind_err (hits_k k1) (\<lambda>n. Inr (Some (KInt n)))
               else Inr k1) (\<lambda>k2.
       case k2 of
         Some (KStr t) \<Rightarrow> Inl AssertionError
       | Some (KInt n) \<Rightarrow> Inr (get_or_self METRIC_SYNONYMS name2, Some n)
       | None \<Rightarrow> Inr (get_or_self METRIC_SYNONYMS name2, None)))"

text \<open>The block \<^verbatim>\<open># normalize side\<close>.\<close>

definition normalize_side :: "string option \<Rightarrow> error + string" where
  "normalize_side side0 =
    (let side1 = lower (case side0 of None \<Rightarrow> SIDE_BOTH | Some x \<Rightarrow> x) in
     if side1 \<notin> set SIDES then Inl (ValueError (''Invalid side: '' @ side1))
     else Inr side1)"

text \<open>The block \<^verbatim>\<open># normalize rank type\<close>; \<open>name3\<close> is the normalised name.\<close>

definition normalize_rank_type :: "(string \<times> string) list \<Rightarrow> string \<Rightarrow> string option \<Rightarrow> error + string" where
  "normalize_rank_type syn name3 type0 =
    (let rank_type1 = get_or_self syn (lower (case type0 of None \<Rightarrow> RANK_REALISTIC | Some x \<Rightarrow> x)) in
     if rank_type1 \<notin> set RANK_TYPES then
       Inl (ValueError (''Invalid rank type: '' @ rank_type1))
     else if rank_type1 \<noteq> RANK_REALISTIC \<and> name3 \<in> set TYPES_REALISTIC_ONLY then
       Inl (ValueError (''Invalid rank type for '' @ name3 @ '': '' @ rank_type1
                          @ ''. Allowed type: '' @ RANK_REALISTIC))
     else Inr rank_type1)"

text \<open>\<^verbatim>\<open>MetricKey.lookup\<close>.\<close>

definition lookup :: "(string \<times> string) list \<Rightarrow> string \<Rightarrow> error + MetricKey" where
  "lookup syn s =
    (case METRIC_PATTERN_match syn s of
       None \<Rightarrow> Inl (ValueError (''Invalid metric name: '' @ s))
     | Some (name0, side0, type0, k0, rest) \<Rightarrow>
        if name0 = [] then Inl (ValueError ''A metric name must be provided.'')
        else
          bind_err (normalize_name name0 k0) (\<lambda>(name3, k2).
          bind_err (normalize_side side0) (\<lambda>side1.
          bind_err (normalize_rank_type syn name3 type0) (\<lambda>rank_type1.
            Inr \<lparr>key_name = name3, key_side = side1, key_rank_type = rank_type1, key_k = k2\<rparr>))))"

text \<open>\<^verbatim>\<open>MetricKey.normalize\<close>.\<close>

definition normalize :: "(string \<times> string) list \<Rightarrow> string \<Rightarrow> error + string" where
  "normalize syn s = map_sum id str_MetricKey (lookup syn s)"

subsection \<open>The metric function registry (\<^verbatim>\<open>metrics.py\<close>)\<close>

text \<open>
  The reductions of numpy and scipy over an array of ranks, on exact reals. Rank
  observations are at least 1, so the means and medians that are inverted are positive;
  numpy's \<^verbatim>\<open>inf\<close> for the reciprocal of zero is not modelled.
\<close>

definition np_mean :: "real list \<Rightarrow> real" where
  "np_mean xs = sum_list xs / real (length xs)"

definition stats_hmean :: "real list \<Rightarrow> real" where
  "stats_hmean xs = real (length xs) / sum_list (map inverse xs)"

definition stats_gmean :: "real list \<Rightarrow> real" where
  "stats_gmean xs = exp (np_mean (map ln xs))"

definition np_median :: "real list \<Rightarrow> real" where
  "np_median xs =
    (let s = sort xs; n = length xs in
     if even n then (s ! (n div 2 - 1) + s ! (n div 2)) / 2 else s ! (n div 2))"

definition np_var :: "real list \<Rightarrow> real" where
  "np_var xs = np_mean (map (\<lambda>x. (x - np_mean xs)\<^sup>2) xs)"

definition np_std :: "real list \<Rightarrow> real" where
  "np_std xs = sqrt (np_var xs)"

definition stats_median_abs_deviation :: "real list \<Rightarrow> real" where
  "stats_median_abs_deviation xs = np_median (map (\<lambda>x. \<bar>x - np_median xs\<bar>) xs)"

definition ALL_TYPE_FUNCS :: "(string \<times> (real list \<Rightarrow> real)) list" where
  "ALL_TYPE_FUNCS =
    [(ARITHMETIC_MEAN_RANK, np_mean),
     (HARMONIC_MEAN_RANK, stats_hmean),
     (GEOMETRIC_MEAN_RANK, stats_gmean),
     (MEDIAN_RANK, np_median),
     (INVERSE_ARITHMETIC_MEAN_RANK, \<lambda>x. inverse (np_mean x)),
     (INVERSE_GEOMETRIC_MEAN_RANK, \<lambda>x. inverse (stats_gmean x)),
     (INVERSE_HARMONIC_MEAN_RANK, \<lambda>x. inverse (stats_hmean x)),
     (INVERSE_MEDIAN_RANK, \<lambda>x. inverse (np_median x)),
     (RANK_STD, np_std),
     (RANK_VARIANCE, np_var),
     (RANK_MAD, stats_median_abs_deviation),
     (RANK_COUNT, \<lambda>x. real (length x))]"

text \<open>\<^verbatim>\<open>get_ranking_metrics\<close>: the dictionary it returns, as its list of items.\<close>

definition get_ranking_metrics :: "real list \<Rightarrow> (string \<times> real) list" where
  "get_ranking_metrics ranks = map (\<lambda>(metric_name, metric_func). (metric_name, metric_func ranks)) ALL_TYPE_FUNCS"

subsection \<open>Weighted statistics (\<^verbatim>\<open>metrics.py\<close>)\<close>

text \<open>\<^verbatim>\<open>np.argsort(a)\<close>: the indices of \<open>a\<close> in ascending order of their values.\<close>

definition np_argsort :: "real list \<Rightarrow> nat list" where
  "np_argsort a = sort_key (\<lambda>i. a ! i) [0..<length a]"

text \<open>\<^verbatim>\<open>np.cumsum\<close>, with the running total as an argument.\<close>

fun cumsum_from :: "real \<Rightarrow> real list \<Rightarrow> real list" where
  "cumsum_from acc [] = []"
| "cumsum_from acc (x # xs) = (acc + x) # cumsum_from (acc + x) xs"

definition np_cumsum :: "real list \<Rightarrow> real list" where
  "np_cumsum xs = cumsum_from 0 xs"

text \<open>
  \<^verbatim>\<open>np.searchsorted(c, v)\<close> (left side) on an ascending array: the first index whose
  entry is at least \<open>v\<close>, the length when there is none.
\<close>

definition np_searchsorted :: "real list \<Rightarrow> real \<Rightarrow> nat" where
  "np_searchsorted c v = length (takeWhile (\<lambda>x. x < v) c)"

text \<open>
  \<^verbatim>\<open>weighted_median\<close>. The weights are floats and not negative, so the cumulative sums
  ascend. When they sum to zero the division gives an array of NaN, which
  \<^verbatim>\<open>searchsorted\<close> orders after every number: the index is 0. Indexing raises
  \<^verbatim>\<open>IndexError\<close>: \<^verbatim>\<open>weights[indices]\<close> when there are fewer weights than values, and
  the last line, \<^verbatim>\<open>s_ranks[idx]\<close>, when \<open>idx\<close> is the length of the array. On equal
  values \<open>np_argsort\<close> keeps the order of the input.
\<close>

definition weighted_median :: "real list \<Rightarrow> real list \<Rightarrow> error + real" where
  "weighted_median a weights =
    (if length weights < length a then Inl IndexError
     else
       (let indices = np_argsort a;
            s_ranks = map (\<lambda>i. a ! i) indices;
            s_weights = map (\<lambda>i. weights ! i) indices;
            cum_sum = np_cumsum (0 # s_weights);
            total = last cum_sum;
            idx = (if total = 0 then 0 else np_searchsorted (map (\<lambda>c. c / total) cum_sum) (1 / 2))
        in if idx < length s_ranks then Inr (s_ranks ! idx) else Inl IndexError))"

text \<open>
  \<^verbatim>\<open>np.average(x, weights=w)\<close>; numpy raises \<^verbatim>\<open>TypeError\<close> when the two arrays
  differ in shape and \<^verbatim>\<open>ZeroDivisionError\<close> when the weights sum to zero.
\<close>

definition np_average :: "real list \<Rightarrow> real list \<Rightarrow> error + real" where
  "np_average xs ws =
    (if length xs \<noteq> length ws then Inl TypeError
     else if sum_list ws = 0 then Inl ZeroDivisionError
     else Inr (sum_list (map2 (*) xs ws) / sum_list ws))"

text \<open>A Python float that may be the \<^verbatim>\<open>nan\<close> sentinel.\<close>

datatype pyfloat = Float real | NaN

text \<open>\<^verbatim>\<open>get_macro_ranking_metrics\<close>: the pairs the generator yields, in order.\<close>

definition get_macro_ranking_metrics :: "real list \<Rightarrow> real list \<Rightarrow> error + (string \<times> pyfloat) list" where
  "get_macro_ranking_metrics ranks weights =
    bind_err (np_average ranks weights) (\<lambda>mean.
    bind_err (np_average (map ln ranks) weights) (\<lambda>log_mean.
    bind_err (weighted_median ranks weights) (\<lambda>median.
    bind_err (np_average (map (\<lambda>x. (x - mean)\<^sup>2) ranks) weights) (\<lambda>variance.
      Inr [(ARITHMETIC_MEAN_RANK, Float mean),
           (GEOMETRIC_MEAN_RANK, Float (exp log_mean)),
           (HARMONIC_MEAN_RANK, NaN),
           (MEDIAN_RANK, Float median),
           (INVERSE_ARITHMETIC_MEAN_RANK, Float (inverse mean)),
           (INVERSE_GEOMETRIC_MEAN_RANK, Float (inverse (exp log_mean))),
           (INVERSE_HARMONIC_MEAN_RANK, NaN),
           (INVERSE_MEDIAN_RANK, Float (inverse median)),
           (RANK_STD, Float (sqrt variance)),
           (RANK_VARIANCE, Float variance),
           (RANK_MAD, NaN),
           (RANK_COUNT, Float (real (length ranks)))]))))"

subsection \<open>The rank accumulator (\<^verbatim>\<open>RankBasedEvaluator\<close>)\<close>

text \<open>An entry of \<^verbatim>\<open>ks\<close> is an integer or a float.\<close>

datatype knum = IntK int | FloatK real

text \<open>
  The fields of the evaluator carry the prefix \<open>self_\<close>. \<^verbatim>\<open>self.ranks\<close> is a dictionary
  from (target, rank type) to the list of ranks.
\<close>

record RankBasedEvaluator =
  self_ks :: "knum list"
  self_num_entities :: "nat option"
  self_ranks :: "string \<times> string \<rightharpoonup> real list"

text \<open>
  \<^verbatim>\<open>RankBasedEvaluator.__init__\<close>. The base class \<^verbatim>\<open>Evaluator\<close> is outside the sources;
  it stores its arguments.
\<close>

definition RankBasedEvaluator_init :: "knum list option \<Rightarrow> error + RankBasedEvaluator" where
  "RankBasedEvaluator_init ks =
    (let ks1 = (case ks of None \<Rightarrow> [IntK 1, IntK 3, IntK 5, IntK 10] | Some l \<Rightarrow> l) in
     if list_ex (\<lambda>k. case k of FloatK x \<Rightarrow> \<not> (0 < x \<and> x < 1) | IntK i \<Rightarrow> False) ks1 then
       Inl (ValueError ''If k is a float, it should represent a relative rank, i.e. a value between 0 and 1 (excl.)'')
     else Inr \<lparr>self_ks = ks1, self_num_entities = None, self_ranks = Map.empty\<rparr>)"

text \<open>\<^verbatim>\<open>self.ranks[key].extend(v)\<close> on a \<^verbatim>\<open>defaultdict(list)\<close>.\<close>

definition extend_at :: "('k \<rightharpoonup> 'v list) \<Rightarrow> 'k \<Rightarrow> 'v list \<Rightarrow> ('k \<rightharpoonup> 'v list)" where
  "extend_at d key v = d(key \<mapsto> (case d key of None \<Rightarrow> [] | Some old \<Rightarrow> old) @ v)"

text \<open>
  \<^verbatim>\<open>RankBasedEvaluator.process_scores_\<close>. The rank computation \<^verbatim>\<open>Ranks.from_scores\<close> is
  an external collaborator: the argument \<open>batch_ranks\<close> is the dictionary it returns (rank
  type to the ranks of the batch), and \<open>shape1\<close> is \<^verbatim>\<open>scores.shape[1]\<close>. The argument
  \<open>true_scores\<close> only matters by being present; \<open>class_name\<close> is
  \<^verbatim>\<open>self.__class__.__name__\<close>.
\<close>

definition process_scores ::
  "string \<Rightarrow> string \<Rightarrow> nat \<Rightarrow> (string \<times> real list) list \<Rightarrow> 'ts option
    \<Rightarrow> 'a RankBasedEvaluator_scheme \<Rightarrow> error + 'a RankBasedEvaluator_scheme" where
  "process_scores class_name target shape1 batch_ranks true_scores self =
    (if true_scores = None then Inl (ValueError (class_name @ '' needs the true scores!''))
     else Inr (self\<lparr>self_num_entities := Some shape1,
                    self_ranks := foldl (\<lambda>d (rank_type, v). extend_at d (target, rank_type) v)
                                        (self_ranks self) batch_ranks\<rparr>))"

text \<open>\<^verbatim>\<open>RankBasedEvaluator._get_ranks\<close>.\<close>

definition ranks_get :: "'a RankBasedEvaluator_scheme \<Rightarrow> string \<times> string \<Rightarrow> real list" where
  "ranks_get self key = (case self_ranks self key of None \<Rightarrow> [] | Some v \<Rightarrow> v)"

definition get_ranks :: "'a RankBasedEvaluator_scheme \<Rightarrow> string \<Rightarrow> string \<Rightarrow> real list" where
  "get_ranks self side rank_type =
    (if side = SIDE_BOTH then
       concat (map (\<lambda>side1. ranks_get self (side1, rank_type)) [LABEL_HEAD, LABEL_TAIL])
     else ranks_get self (side, rank_type))"

text \<open>
  Modelled from the spec: \<^verbatim>\<open>EXPECTED_RANKS\<close> of \<^verbatim>\<open>pykeen/typing.py\<close>, which is not among
  the sources. Section 4.3: only the realistic rank type has an expected counterpart, the
  expected-realistic buffer.
\<close>

definition EXPECTED_RANKS :: "string \<Rightarrow> string option" where
  "EXPECTED_RANKS rank_type =
    (if rank_type = RANK_REALISTIC then Some RANK_EXPECTED_REALISTIC else None)"

text \<open>
  The results: \<open>data\<close> is the nested dictionary metric name, side, rank type to value;
  \<open>hits_at_k\<close> maps side and rank type to the dictionary from \<open>k\<close> to value (its items).
\<close>

record RankBasedMetricResults =
  data :: "string \<times> string \<times> string \<rightharpoonup> pyfloat"
  hits_at_k :: "string \<times> string \<rightharpoonup> (knum \<times> real) list"

text \<open>\<^verbatim>\<open>int(x)\<close> on a float truncates towards zero.\<close>

definition py_trunc :: "real \<Rightarrow> int" where
  "py_trunc x = (if 0 \<le> x then \<lfloor>x\<rfloor> else \<lceil>x\<rceil>)"

text \<open>The threshold of \<open>k\<close>: \<^verbatim>\<open>k if isinstance(k, int) else int(self.num_entities * k)\<close>.\<close>

definition threshold :: "nat \<Rightarrow> knum \<Rightarrow> real" where
  "threshold num_entities k =
    (case k of IntK i \<Rightarrow> real_of_int i | FloatK x \<Rightarrow> real_of_int (py_trunc (real num_entities * x)))"

text \<open>The array \<^verbatim>\<open>ranks <= t\<close>, as zeros and ones.\<close>

definition le_indicator :: "real list \<Rightarrow> real \<Rightarrow> real list" where
  "le_indicator ranks t = map (\<lambda>r. if r \<le> t then 1 else 0) ranks"

text \<open>Division and subtraction of Python floats; division by zero raises.\<close>

definition py_truediv :: "pyfloat \<Rightarrow> pyfloat \<Rightarrow> error + pyfloat" where
  "py_truediv a b =
    (case b of
       Float y \<Rightarrow> if y = 0 then Inl ZeroDivisionError
                  else (case a of Float x \<Rightarrow> Inr (Float (x / y)) | NaN \<Rightarrow> Inr NaN)
     | NaN \<Rightarrow> Inr NaN)"

definition py_sub :: "pyfloat \<Rightarrow> pyfloat \<Rightarrow> pyfloat" where
  "py_sub a b = (case (a, b) of (Float x, Float y) \<Rightarrow> Float (x - y) | _ \<Rightarrow> NaN)"

text \<open>
  The loop \<^verbatim>\<open>for metric_name, metric_value in ...: asr[metric_name][side][rank_type] = metric_value\<close>
  of both finalize methods.
\<close>

definition write_metrics ::
  "string \<Rightarrow> string \<Rightarrow> (string \<times> pyfloat) list \<Rightarrow> RankBasedMetricResults \<Rightarrow> RankBasedMetricResults" where
  "write_metrics side rank_type metrics res =
    foldl (\<lambda>r (metric_name, metric_value).
             r\<lparr>data := (data r)((metric_name, side, rank_type) \<mapsto> metric_value)\<rparr>) res metrics"

text \<open>
  The body of the loop of \<^verbatim>\<open>RankBasedEvaluator.finalize\<close> for one pair of side and rank
  type; \<open>res\<close> holds \<^verbatim>\<open>asr\<close> and \<^verbatim>\<open>hits_at_k\<close>.
\<close>

definition finalize_pair ::
  "'a RankBasedEvaluator_scheme \<Rightarrow> nat \<Rightarrow> string \<times> string
    \<Rightarrow> RankBasedMetricResults \<Rightarrow> error + RankBasedMetricResults" where
  "finalize_pair self num_entities pair res =
    (let side = fst pair; rank_type = snd pair; ranks = get_ranks self side rank_type in
     if length ranks < 1 then Inr res
     else
       (let res1 = res\<lparr>hits_at_k := (hits_at_k res)((side, rank_type) \<mapsto>
                         map (\<lambda>k. (k, np_mean (le_indicator ranks (threshold num_entities k))))
                             (self_ks self))\<rparr>;
            res2 = write_metrics side rank_type
                     (map (\<lambda>(metric_name, metric_value). (metric_name, Float metric_value))
                          (get_ranking_metrics ranks)) res1
        in
        case EXPECTED_RANKS rank_type of
          None \<Rightarrow> Inr res2
        | Some expected_rank_type \<Rightarrow>
           (let expected_ranks = get_ranks self side expected_rank_type in
            if 0 < length expected_ranks then
              (let expected_mean_rank = Float (np_mean expected_ranks) in
               case data res2 (ARITHMETIC_MEAN_RANK, side, rank_type) of
                 None \<Rightarrow> Inl KeyError
               | Some amr \<Rightarrow>
                  bind_err (py_truediv amr expected_mean_rank) (\<lambda>aamr.
                  bind_err (py_truediv (py_sub amr (Float 1)) (py_sub expected_mean_rank (Float 1))) (\<lambda>q.
                    Inr (res2\<lparr>data := (data res2)
                          ((ADJUSTED_ARITHMETIC_MEAN_RANK, side, rank_type) \<mapsto> aamr,
                           (ADJUSTED_ARITHMETIC_MEAN_RANK_INDEX, side, rank_type) \<mapsto> py_sub (Float 1) q)\<rparr>))))
            else Inr res2)))"

text \<open>The metric names that \<^verbatim>\<open>finalize\<close> passes to \<^verbatim>\<open>from_dict\<close>.\<close>

definition RESULT_METRICS :: "string list" where
  "RESULT_METRICS =
    [ARITHMETIC_MEAN_RANK, GEOMETRIC_MEAN_RANK, HARMONIC_MEAN_RANK, MEDIAN_RANK,
     INVERSE_ARITHMETIC_MEAN_RANK, INVERSE_GEOMETRIC_MEAN_RANK, INVERSE_HARMONIC_MEAN_RANK,
     INVERSE_MEDIAN_RANK, RANK_COUNT, RANK_STD, RANK_MAD, RANK_VARIANCE,
     ADJUSTED_ARITHMETIC_MEAN_RANK, ADJUSTED_ARITHMETIC_MEAN_RANK_INDEX]"

definition empty_results :: RankBasedMetricResults where
  "empty_results = \<lparr>data = Map.empty, hits_at_k = Map.empty\<rparr>"

text \<open>
  \<^verbatim>\<open>RankBasedEvaluator.finalize\<close>: the results and the evaluator after the call. The
  sampled evaluator inherits it.
\<close>

definition finalize ::
  "'a RankBasedEvaluator_scheme \<Rightarrow> error + RankBasedMetricResults \<times> 'a RankBasedEvaluator_scheme" where
  "finalize self =
    (case self_num_entities self of
       None \<Rightarrow> Inl (ValueError [])
     | Some num_entities \<Rightarrow>
        bind_err (for_each (finalize_pair self num_entities) (List.product SIDES RANK_TYPES) empty_results)
          (\<lambda>res. Inr (res\<lparr>data := (\<lambda>(metric_name, key).
                                      if metric_name \<in> set RESULT_METRICS
                                      then data res (metric_name, key) else None)\<rparr>,
                      self\<lparr>self_ranks := Map.empty\<rparr>)))"

subsection \<open>The macro accumulator (\<^verbatim>\<open>MacroRankBasedEvaluator\<close>)\<close>

type_synonym triple = "nat \<times> nat \<times> nat"

record MacroRankBasedEvaluator = RankBasedEvaluator +
  self_keys :: "string \<rightharpoonup> (nat \<times> nat) list"

definition MacroRankBasedEvaluator_init :: "knum list option \<Rightarrow> error + MacroRankBasedEvaluator" where
  "MacroRankBasedEvaluator_init ks =
    bind_err (RankBasedEvaluator_init ks)
      (\<lambda>base. Inr (RankBasedEvaluator.extend base \<lparr>self_keys = Map.empty\<rparr>))"

text \<open>
  Modelled from the spec: \<^verbatim>\<open>TARGET_TO_INDEX\<close> of \<^verbatim>\<open>pykeen/constants.py\<close>, which is not
  among the sources. Section 3: the grouping key is the ordered pair of the two positions
  of the triple that are not predicted.
\<close>

definition LABEL_RELATION :: string where "LABEL_RELATION = ''relation''"

definition TARGET_TO_INDEX :: "string \<rightharpoonup> nat" where
  "TARGET_TO_INDEX = [LABEL_HEAD \<mapsto> 0, LABEL_RELATION \<mapsto> 1, LABEL_TAIL \<mapsto> 2]"

text \<open>\<^verbatim>\<open>hrt_batch[:, key_ids]\<close> for one row, with \<open>key_ids\<close> the columns other than \<open>idx\<close>.\<close>

definition key_columns :: "nat \<Rightarrow> triple \<Rightarrow> nat \<times> nat" where
  "key_columns idx hrt =
    (case hrt of (h, r, t) \<Rightarrow> if idx = 0 then (r, t) else if idx = 1 then (h, t) else (h, r))"

text \<open>\<^verbatim>\<open>MacroRankBasedEvaluator.process_scores_\<close>.\<close>

definition macro_process_scores ::
  "triple list \<Rightarrow> string \<Rightarrow> nat \<Rightarrow> (string \<times> real list) list \<Rightarrow> 'ts option
    \<Rightarrow> 'a MacroRankBasedEvaluator_scheme \<Rightarrow> error + 'a MacroRankBasedEvaluator_scheme" where
  "macro_process_scores hrt_batch target shape1 batch_ranks true_scores self =
    bind_err (process_scores ''MacroRankBasedEvaluator'' target shape1 batch_ranks true_scores self) (\<lambda>self1.
      case TARGET_TO_INDEX target of
        None \<Rightarrow> Inl KeyError
      | Some idx \<Rightarrow>
          Inr (self1\<lparr>self_keys := extend_at (self_keys self1) target (map (key_columns idx) hrt_batch)\<rparr>))"

text \<open>
  \<^verbatim>\<open>MacroRankBasedEvaluator._get_keys\<close>. It reads \<^verbatim>\<open>self.keys[side]\<close>, and reading a
  missing key of a \<^verbatim>\<open>defaultdict(list)\<close> stores the empty list under it: \<open>touch\<close> is
  the dictionary after the read.
\<close>

definition touch :: "('k \<rightharpoonup> 'v list) \<Rightarrow> 'k \<Rightarrow> ('k \<rightharpoonup> 'v list)" where
  "touch d key = (case d key of None \<Rightarrow> d(key \<mapsto> []) | Some v \<Rightarrow> d)"

definition keys_of :: "'a MacroRankBasedEvaluator_scheme \<Rightarrow> string \<Rightarrow> error + (nat \<times> nat) list" where
  "keys_of self side =
    (if side \<in> set [LABEL_HEAD, LABEL_TAIL] then
       Inr (case self_keys self side of None \<Rightarrow> [] | Some ks \<Rightarrow> ks)
     else Inl AssertionError)"

definition get_keys :: "'a MacroRankBasedEvaluator_scheme \<Rightarrow> string \<Rightarrow> error + (nat \<times> nat) list" where
  "get_keys self side =
    (if side = SIDE_BOTH then
       bind_err (keys_of self LABEL_HEAD) (\<lambda>hk. bind_err (keys_of self LABEL_TAIL) (\<lambda>tk. Inr (hk @ tk)))
     else keys_of self side)"

text \<open>
  The weights of \<^verbatim>\<open>MacroRankBasedEvaluator.finalize\<close>: \<^verbatim>\<open>np.unique\<close> gives the sorted
  distinct rows, for every row its index among them, and the number of occurrences of
  every distinct row; the weight of a row is the reciprocal of the count of its key.
\<close>

definition np_unique :: "(nat \<times> nat) list \<Rightarrow> (nat \<times> nat) list" where
  "np_unique keys = sort (remdups keys)"

definition index_of :: "'a list \<Rightarrow> 'a \<Rightarrow> nat" where
  "index_of xs x = length (takeWhile (\<lambda>y. y \<noteq> x) xs)"

definition unique_inverse :: "(nat \<times> nat) list \<Rightarrow> nat list" where
  "unique_inverse keys = map (index_of (np_unique keys)) keys"

definition unique_counts :: "(nat \<times> nat) list \<Rightarrow> nat list" where
  "unique_counts keys = map (count_list keys) (np_unique keys)"

definition macro_weights :: "(nat \<times> nat) list \<Rightarrow> real list" where
  "macro_weights keys =
    (let unique_weights = map (\<lambda>c. inverse (real c)) (unique_counts keys)
     in map (\<lambda>j. unique_weights ! j) (unique_inverse keys))"

text \<open>The inner loop body of \<^verbatim>\<open>MacroRankBasedEvaluator.finalize\<close>, for one rank type.\<close>

definition macro_finalize_rank_type ::
  "'a MacroRankBasedEvaluator_scheme \<Rightarrow> nat \<Rightarrow> string \<Rightarrow> real list \<Rightarrow> string
    \<Rightarrow> RankBasedMetricResults \<Rightarrow> error + RankBasedMetricResults" where
  "macro_finalize_rank_type self num_entities side weights rank_type res =
    (let ranks = get_ranks self side rank_type in
     if length ranks \<noteq> length weights then Inl AssertionError
     else if length ranks < 1 then Inr res
     else
       bind_err (for_each (\<lambda>k acc. bind_err (np_average (le_indicator ranks (threshold num_entities k)) weights)
                                       (\<lambda>v. Inr (acc @ [(k, v)])))
                          (self_ks self) []) (\<lambda>hits.
       bind_err (get_macro_ranking_metrics ranks weights) (\<lambda>metrics.
         Inr (write_metrics side rank_type metrics
                (res\<lparr>hits_at_k := (hits_at_k res)((side, rank_type) \<mapsto> hits)\<rparr>)))))"

text \<open>The outer loop body, for one side.\<close>

definition macro_finalize_side ::
  "'a MacroRankBasedEvaluator_scheme \<Rightarrow> nat \<Rightarrow> string
    \<Rightarrow> RankBasedMetricResults \<Rightarrow> error + RankBasedMetricResults" where
  "macro_finalize_side self num_entities side res =
    bind_err (get_keys self side) (\<lambda>keys.
      for_each (macro_finalize_rank_type self num_entities side (macro_weights keys)) RANK_TYPES res)"

text \<open>
  \<^verbatim>\<open>MacroRankBasedEvaluator.finalize\<close>: the results and the evaluator after the call. The
  method assigns to no field of the evaluator; its reads of \<^verbatim>\<open>self.keys\<close> for the sides
  \<open>head\<close> and \<open>tail\<close> leave an entry for each.
\<close>

definition macro_finalize ::
  "'a MacroRankBasedEvaluator_scheme
    \<Rightarrow> error + RankBasedMetricResults \<times> 'a MacroRankBasedEvaluator_scheme" where
  "macro_finalize self =
    (case self_num_entities self of
       None \<Rightarrow> Inl (ValueError [])
     | Some num_entities \<Rightarrow>
        bind_err (for_each (macro_finalize_side self num_entities) SIDES empty_results)
          (\<lambda>res. Inr (res, self\<lparr>self_keys := touch (touch (self_keys self) LABEL_HEAD) LABEL_TAIL\<rparr>)))"

subsection \<open>Sampled negatives (\<^verbatim>\<open>sample_negatives\<close>, \<^verbatim>\<open>SampledRankBasedEvaluator\<close>)\<close>

text \<open>
  Modelled from the spec: \<^verbatim>\<open>prepare_filter_triples\<close> of \<^verbatim>\<open>pykeen/evaluation/evaluator.py\<close>,
  which is not among the sources. Sections 3 and 4.6: the known-triples universe against
  which candidates are filtered is the evaluation triples together with the triples the
  caller supplies (a list of arrays, or none), without duplicates.
\<close>

definition prepare_filter_triples :: "triple list \<Rightarrow> triple list list option \<Rightarrow> triple list" where
  "prepare_filter_triples mapped_triples additional_filter_triples =
    (case additional_filter_triples of
       None \<Rightarrow> mapped_triples
     | Some ts \<Rightarrow> sort (remdups (concat ts @ mapped_triples)))"

definition columns :: "string list" where
  "columns = [LABEL_HEAD, LABEL_RELATION, LABEL_TAIL]"

text \<open>The entry of a row in the column \<open>c\<close>.\<close>

definition column :: "string \<Rightarrow> triple \<Rightarrow> nat" where
  "column c hrt =
    (case hrt of (h, r, t) \<Rightarrow> if c = LABEL_HEAD then h else if c = LABEL_RELATION then r else t)"

text \<open>The entries of a row in the columns \<^verbatim>\<open>other = [c for c in columns if c != side]\<close>.\<close>

definition other_key :: "string \<Rightarrow> triple \<Rightarrow> nat list" where
  "other_key side hrt = map (\<lambda>c. column c hrt) (filter (\<lambda>c. c \<noteq> side) columns)"

text \<open>
  \<^verbatim>\<open>pd.merge(id_df, all_df, on=other)\<close>: one row for every evaluation triple (with its
  index) and every known triple that agree on the columns \<open>other\<close>.
\<close>

definition merge_on_other :: "string \<Rightarrow> triple list \<Rightarrow> triple list \<Rightarrow> (nat \<times> triple \<times> triple) list" where
  "merge_on_other side evaluation_triples all_triples =
    concat (map (\<lambda>(i, e). map (\<lambda>a. (i, e, a)) (filter (\<lambda>a. other_key side a = other_key side e) all_triples))
                (enumerate 0 evaluation_triples))"

text \<open>
  \<^verbatim>\<open>random.sample(population, k)\<close>: the random source is the argument \<open>positions\<close>, the
  positions of the population that the call selects.
\<close>

definition random_sample :: "nat list \<Rightarrow> nat \<Rightarrow> nat list \<Rightarrow> error + nat list" where
  "random_sample population k positions =
    (if length population < k then Inl (ValueError ''Sample larger than population or is negative'')
     else Inr (map (\<lambda>p. population ! p) positions))"

text \<open>
  A random source \<open>rng side i n\<close> gives the positions selected for the row \<open>i\<close> of the
  table of \<open>side\<close> from a population of \<open>n\<close> entries: \<open>k\<close> distinct positions below
  \<open>n\<close>.
\<close>

definition valid_rng :: "nat \<Rightarrow> (string \<Rightarrow> nat \<Rightarrow> nat \<Rightarrow> nat list) \<Rightarrow> bool" where
  "valid_rng k rng \<longleftrightarrow>
    (\<forall>side i n. k \<le> n \<longrightarrow> length (rng side i n) = k \<and> distinct (rng side i n)
                        \<and> (\<forall>p\<in>set (rng side i n). p < n))"

text \<open>The pool of a group, repeated when it is smaller than the number of samples.\<close>

definition tile_pool :: "nat list \<Rightarrow> nat \<Rightarrow> error + nat list" where
  "tile_pool pool num_samples =
    (if length pool < num_samples then
       (if length pool = 0 then Inl ZeroDivisionError
        else Inr (concat (replicate (nat \<lceil>real num_samples / real (length pool)\<rceil>) pool)))
     else Inr pool)"

text \<open>
  The body of the loop over the groups of the merged table, for the group of the key \<open>g\<close>;
  a row of the table \<open>this_negatives\<close> is \<open>None\<close> until it is written
  (\<^verbatim>\<open>torch.empty\<close> leaves it uninitialised).
\<close>

definition sample_group ::
  "(string \<Rightarrow> nat \<Rightarrow> nat \<Rightarrow> nat list) \<Rightarrow> string \<Rightarrow> nat \<Rightarrow> nat
    \<Rightarrow> (nat \<times> triple \<times> triple) list \<Rightarrow> nat list
    \<Rightarrow> nat list option list \<Rightarrow> error + nat list option list" where
  "sample_group rng side num_samples num_entities merged g this_negatives =
    (let group = filter (\<lambda>row. other_key side (fst (snd row)) = g) merged;
         pool = filter (\<lambda>x. x \<notin> set (map (\<lambda>row. column side (snd (snd row))) group)) [0..<num_entities]
     in
     bind_err (tile_pool pool num_samples) (\<lambda>pool1.
       for_each (\<lambda>i tbl. bind_err (random_sample pool1 num_samples (rng side i (length pool1)))
                            (\<lambda>row. Inr (tbl[i := Some row])))
                (remdups (map fst group)) this_negatives))"

text \<open>
  \<^verbatim>\<open>sample_negatives\<close>: the tables of the sides \<open>head\<close> and \<open>tail\<close>, as the items of
  the dictionary returned. The number of samples is a natural number.
\<close>

definition sample_negatives ::
  "(string \<Rightarrow> nat \<Rightarrow> nat \<Rightarrow> nat list) \<Rightarrow> triple list \<Rightarrow> triple list list option \<Rightarrow> nat \<Rightarrow> nat option
    \<Rightarrow> error + (string \<times> nat list option list) list" where
  "sample_negatives rng evaluation_triples additional_filter_triples num_samples num_entities =
    (let all_triples = prepare_filter_triples evaluation_triples additional_filter_triples;
         num_triples = length evaluation_triples
     in
     bind_err (if num_entities \<noteq> None \<and> num_entities \<noteq> Some 0 then Inr (the num_entities)
               else if all_triples = [] then Inl RuntimeError
               else Inr (foldl max 0 (concat (map (\<lambda>hrt. [column LABEL_HEAD hrt, column LABEL_TAIL hrt]) all_triples)) + 1))
       (\<lambda>num_entities1.
         for_each (\<lambda>side negatives.
             (let merged = merge_on_other side evaluation_triples all_triples in
              bind_err (for_each (sample_group rng side num_samples num_entities1 merged)
                                 (sort (remdups (map (\<lambda>row. other_key side (fst (snd row))) merged)))
                                 (replicate num_triples None))
                (\<lambda>this_negatives. Inr (negatives @ [(side, this_negatives)]))))
           [LABEL_HEAD, LABEL_TAIL] []))"

text \<open>
  The triples factory is an external collaborator; the evaluator reads its triples and its
  number of entities, and \<^verbatim>\<open>num_triples\<close> is the number of its triples.
\<close>

record CoreTriplesFactory =
  tf_mapped_triples :: "triple list"
  tf_num_entities :: nat

definition num_triples :: "CoreTriplesFactory \<Rightarrow> nat" where
  "num_triples evaluation_factory = length (tf_mapped_triples evaluation_factory)"

record SampledRankBasedEvaluator = RankBasedEvaluator +
  self_triple_to_index :: "triple \<rightharpoonup> nat"
  self_negative_samples :: "(string \<times> nat list option list) list"

text \<open>
  \<^verbatim>\<open>SampledRankBasedEvaluator.__init__\<close>; \<open>ks\<close> is the keyword argument that
  \<^verbatim>\<open>RankBasedEvaluator.__init__\<close> reads, the tables supplied are lists of rows.
\<close>

definition SampledRankBasedEvaluator_init ::
  "(string \<Rightarrow> nat \<Rightarrow> nat \<Rightarrow> nat list) \<Rightarrow> knum list option \<Rightarrow> CoreTriplesFactory \<Rightarrow> triple list list option
    \<Rightarrow> nat option \<Rightarrow> nat list list option \<Rightarrow> nat list list option
    \<Rightarrow> error + SampledRankBasedEvaluator" where
  "SampledRankBasedEvaluator_init rng ks evaluation_factory additional_filter_triples num_negatives
      head_negatives tail_negatives =
    bind_err (RankBasedEvaluator_init ks) (\<lambda>base.
    bind_err
      (if head_negatives = None \<and> tail_negatives = None then
         (let num_negatives1 = (if num_negatives = None \<or> num_negatives = Some 0 then 50 else the num_negatives) in
          if num_negatives1 > tf_num_entities evaluation_factory then
            Inl (ValueError ''Cannot use more negative samples than there are entities.'')
          else sample_negatives rng (tf_mapped_triples evaluation_factory) additional_filter_triples
                 num_negatives1 (Some (tf_num_entities evaluation_factory)))
       else if head_negatives = None \<or> tail_negatives = None then
         Inl (ValueError ''Either both, head and tail negatives must be provided, or none.'')
       else Inr [(LABEL_HEAD, map Some (the head_negatives)), (LABEL_TAIL, map Some (the tail_negatives))])
      (\<lambda>negatives.
    bind_err
      (for_each (\<lambda>item u. if length (snd item) \<noteq> num_triples evaluation_factory
                           then Inl (ValueError (''Negatives for '' @ fst item @ '' are in wrong shape''))
                           else Inr u)
                negatives ())
      (\<lambda>u. Inr (RankBasedEvaluator.extend
                  (base\<lparr>self_num_entities := Some (tf_num_entities evaluation_factory)\<rparr>)
                  \<lparr>self_triple_to_index =
                     foldl (\<lambda>m (i, hrt). m(hrt \<mapsto> i)) Map.empty
                           (enumerate 0 (tf_mapped_triples evaluation_factory)),
                   self_negative_samples = negatives\<rparr>))))"

subsection \<open>Example inputs\<close>

text \<open>A random source that always selects the first \<open>k\<close> positions of the population.\<close>

definition first_positions :: "nat \<Rightarrow> string \<Rightarrow> nat \<Rightarrow> nat \<Rightarrow> nat list" where
  "first_positions k side i n = [0..<k]"

text \<open>
  A sampled evaluator for one evaluation triple and three entities, with the tables of
  negatives supplied, and the state its constructor returns.
\<close>

definition sampled_example :: "error + SampledRankBasedEvaluator" where
  "sampled_example =
    SampledRankBasedEvaluator_init (first_positions 1) None
      \<lparr>tf_mapped_triples = [(0, 0, 1)], tf_num_entities = 3\<rparr> None None (Some [[2]]) (Some [[0]])"

definition sampled_state :: SampledRankBasedEvaluator where
  "sampled_state = \<lparr>self_ks = [IntK 1, IntK 3, IntK 5, IntK 10], self_num_entities = Some 3,
      self_ranks = Map.empty, self_triple_to_index = [(0, 0, 1) \<mapsto> 0],
      self_negative_samples = [(''head'', [Some [2]]), (''tail'', [Some [0]])]\<rparr>"

definition micro_fresh :: RankBasedEvaluator where
  "micro_fresh = \<lparr>self_ks = [IntK 1, IntK 3, IntK 5, IntK 10], self_num_entities = None,
      self_ranks = Map.empty\<rparr>"

definition macro_fresh :: MacroRankBasedEvaluator where
  "macro_fresh = \<lparr>self_ks = [IntK 1, IntK 3, IntK 5, IntK 10], self_num_entities = None,
      self_ranks = Map.empty, self_keys = Map.empty\<rparr>"

text \<open>
  A macro evaluator that has processed one batch of two head predictions among five
  candidates, with ranks 1 and 2 for every rank type, and its state after the batch.
\<close>

definition uniform_batch :: "(string \<times> real list) list" where
  "uniform_batch = [(RANK_OPTIMISTIC, [1, 2]), (RANK_PESSIMISTIC, [1, 2]), (RANK_REALISTIC, [1, 2]),
      (RANK_EXPECTED_REALISTIC, [3, 3])]"

definition macro_example :: "error + MacroRankBasedEvaluator" where
  "macro_example =
    bind_err (MacroRankBasedEvaluator_init None)
      (macro_process_scores [(0, 0, 1), (2, 0, 3)] LABEL_HEAD 5 uniform_batch (Some ()))"

definition macro_state :: MacroRankBasedEvaluator where
  "macro_state = \<lparr>self_ks = [IntK 1, IntK 3, IntK 5, IntK 10], self_num_entities = Some 5,
      self_ranks = [(''head'', ''optimistic'') \<mapsto> [1, 2], (''head'', ''pessimistic'') \<mapsto> [1, 2],
                    (''head'', ''realistic'') \<mapsto> [1, 2], (''head'', ''expected_realistic'') \<mapsto> [3, 3]],
      self_keys = [''head'' \<mapsto> [(0, 1), (0, 3)]]\<rparr>"

text \<open>
  A micro evaluator after one batch of a single head prediction with a single candidate
  (every rank is 1, and so is the expected rank), and one after a batch of two head
  predictions among seven candidates (realistic ranks 1 and 3, expected rank 4).
\<close>

definition single_batch :: "(string \<times> real list) list" where
  "single_batch = [(RANK_OPTIMISTIC, [1]), (RANK_PESSIMISTIC, [1]), (RANK_REALISTIC, [1]),
      (RANK_EXPECTED_REALISTIC, [1])]"

definition micro_single_state :: RankBasedEvaluator where
  "micro_single_state = \<lparr>self_ks = [IntK 1, IntK 3, IntK 5, IntK 10], self_num_entities = Some 1,
      self_ranks = [(''head'', ''optimistic'') \<mapsto> [1], (''head'', ''pessimistic'') \<mapsto> [1],
                    (''head'', ''realistic'') \<mapsto> [1], (''head'', ''expected_realistic'') \<mapsto> [1]]\<rparr>"

definition adjusted_batch :: "(string \<times> real list) list" where
  "adjusted_batch = [(RANK_OPTIMISTIC, [1, 3]), (RANK_PESSIMISTIC, [1, 3]), (RANK_REALISTIC, [1, 3]),
      (RANK_EXPECTED_REALISTIC, [4, 4])]"

definition micro_adjusted_state :: RankBasedEvaluator where
  "micro_adjusted_state = \<lparr>self_ks = [IntK 1, IntK 3, IntK 5, IntK 10], self_num_entities = Some 7,
      self_ranks = [(''head'', ''optimistic'') \<mapsto> [1, 3], (''head'', ''pessimistic'') \<mapsto> [1, 3],
                    (''head'', ''realistic'') \<mapsto> [1, 3], (''head'', ''expected_realistic'') \<mapsto> [4, 4]]\<rparr>"

text \<open>
  A macro evaluator after a batch of four head predictions and a batch of two tail
  predictions among twelve candidates, and its state after the two batches. On the side
  \<open>head\<close> three observations share the key \<open>(5, 2)\<close> (relation 5, tail 2) and one has
  the key \<open>(3, 4)\<close>; on the side \<open>tail\<close> the first key is \<open>(5, 2)\<close> too (head 5,
  relation 2).
\<close>

definition skewed_head_batch :: "(string \<times> real list) list" where
  "skewed_head_batch = [(RANK_OPTIMISTIC, [1, 2, 3, 10]), (RANK_PESSIMISTIC, [1, 2, 3, 10]),
      (RANK_REALISTIC, [1, 2, 3, 10]), (RANK_EXPECTED_REALISTIC, [6, 6, 6, 6])]"

definition skewed_tail_batch :: "(string \<times> real list) list" where
  "skewed_tail_batch = [(RANK_OPTIMISTIC, [4, 6]), (RANK_PESSIMISTIC, [4, 6]),
      (RANK_REALISTIC, [4, 6]), (RANK_EXPECTED_REALISTIC, [6, 6])]"

definition macro_skewed_example :: "error + MacroRankBasedEvaluator" where
  "macro_skewed_example =
    bind_err (MacroRankBasedEvaluator_init None) (\<lambda>ev.
    bind_err (macro_process_scores [(6, 5, 2), (7, 5, 2), (8, 5, 2), (6, 3, 4)] LABEL_HEAD 12
                skewed_head_batch (Some ()) ev)
      (macro_process_scores [(5, 2, 7), (8, 9, 7)] LABEL_TAIL 12 skewed_tail_batch (Some ())))"

definition macro_skewed_state :: MacroRankBasedEvaluator where
  "macro_skewed_state = \<lparr>self_ks = [IntK 1, IntK 3, IntK 5, IntK 10], self_num_entities = Some 12,
      self_ranks = [(''head'', ''optimistic'') \<mapsto> [1, 2, 3, 10], (''head'', ''pessimistic'') \<mapsto> [1, 2, 3, 10],
                    (''head'', ''realistic'') \<mapsto> [1, 2, 3, 10],
                    (''head'', ''expected_realistic'') \<mapsto> [6, 6, 6, 6],
                    (''tail'', ''optimistic'') \<mapsto> [4, 6], (''tail'', ''pessimistic'') \<mapsto> [4, 6],
                    (''tail'', ''realistic'') \<mapsto> [4, 6], (''tail'', ''expected_realistic'') \<mapsto> [6, 6]],
      self_keys = [''head'' \<mapsto> [(5, 2), (5, 2), (5, 2), (3, 4)], ''tail'' \<mapsto> [(5, 2), (8, 9)]]\<rparr>"

subsection \<open>Notions used in the statements\<close>

text \<open>
  The pattern of \<^verbatim>\<open>METRIC_PATTERN\<close> matches the whole of \<open>s\<close>: the match leaves no text
  unread, so \<open>s\<close> is a name followed by the optional side, rank type and \<open>k\<close>.
\<close>

definition matches_grammar :: "(string \<times> string) list \<Rightarrow> string \<Rightarrow> bool" where
  "matches_grammar syn s \<longleftrightarrow>
    (case METRIC_PATTERN_match syn s of
       None \<Rightarrow> False
     | Some (name0, side0, type0, k0, rest) \<Rightarrow> rest = [])"

text \<open>The result is a raised \<^verbatim>\<open>ValueError\<close>.\<close>

definition is_ValueError :: "error + 'a \<Rightarrow> bool" where
  "is_ValueError r \<longleftrightarrow> (case r of Inl (ValueError msg) \<Rightarrow> True | _ \<Rightarrow> False)"

text \<open>
  A table of rank-type synonyms is well formed when its keys are in lower case and its
  values are rank types.
\<close>

definition wf_synonyms :: "(string \<times> string) list \<Rightarrow> bool" where
  "wf_synonyms syn \<longleftrightarrow> list_all (\<lambda>item. lower (fst item) = fst item \<and> snd item \<in> set RANK_TYPES) syn"

text \<open>
  The name, in lower case, is a name of the hits-at-k metric: it matches
  \<^verbatim>\<open>HITS_PATTERN\<close> or is \<open>hits_at_k\<close> itself.
\<close>

definition is_hits_name :: "string \<Rightarrow> bool" where
  "is_hits_name name1 \<longleftrightarrow> HITS_PATTERN_match name1 \<noteq> None \<or> name1 = ''hits_at_k''"

text \<open>The name after the metric synonyms, computed as \<^verbatim>\<open>lookup\<close> does.\<close>

definition canonical_name :: "string \<Rightarrow> string" where
  "canonical_name name0 =
    (let name1 = replace_space (lower name0)
     in get_or_self METRIC_SYNONYMS (if HITS_PATTERN_match name1 \<noteq> None then ''hits_at_k'' else name1))"

text \<open>The rank type after the rank-type synonyms, computed as \<^verbatim>\<open>lookup\<close> does.\<close>

definition resolved_rank_type :: "(string \<times> string) list \<Rightarrow> string option \<Rightarrow> string" where
  "resolved_rank_type syn type0 =
    get_or_self syn (lower (case type0 of None \<Rightarrow> RANK_REALISTIC | Some x \<Rightarrow> x))"

text \<open>Three evaluation triples; the first two share the relation and the tail.\<close>

definition three_triples :: "triple list" where
  "three_triples = [(0, 0, 1), (2, 0, 1), (0, 1, 3)]"

text \<open>
  Some entry of \<^verbatim>\<open>ks\<close> is a float outside the open interval from 0 to 1, and the number
  of negatives that the sampled evaluator asks for (50 when none or zero is given).
\<close>

definition invalid_float_k :: "knum list option \<Rightarrow> bool" where
  "invalid_float_k ks \<longleftrightarrow>
    (case ks of
       None \<Rightarrow> False
     | Some l \<Rightarrow> list_ex (\<lambda>k. case k of FloatK x \<Rightarrow> x \<le> 0 \<or> 1 \<le> x | IntK i \<Rightarrow> False) l)"

definition requested_negatives :: "nat option \<Rightarrow> nat" where
  "requested_negatives num_negatives =
    (case num_negatives of None \<Rightarrow> 50 | Some n \<Rightarrow> if n = 0 then 50 else n)"

text \<open>A factory with one evaluation triple and three entities.\<close>

definition one_triple_factory :: CoreTriplesFactory where
  "one_triple_factory = \<lparr>tf_mapped_triples = [(0, 0, 1)], tf_num_entities = 3\<rparr>"

section \<open>Properties\<close>

subsection \<open>Unfolding rules\<close>

lemmas char_defs = is_digit_def is_upper_def is_lower_def is_name_char_def lower_char_def

lemmas name_defs = ARITHMETIC_MEAN_RANK_def GEOMETRIC_MEAN_RANK_def HARMONIC_MEAN_RANK_def
  MEDIAN_RANK_def INVERSE_ARITHMETIC_MEAN_RANK_def INVERSE_GEOMETRIC_MEAN_RANK_def
  INVERSE_HARMONIC_MEAN_RANK_def INVERSE_MEDIAN_RANK_def ADJUSTED_ARITHMETIC_MEAN_RANK_def
  ADJUSTED_ARITHMETIC_MEAN_RANK_INDEX_def RANK_STD_def RANK_VARIANCE_def RANK_MAD_def
  RANK_COUNT_def

lemmas typing_defs = LABEL_HEAD_def LABEL_TAIL_def LABEL_RELATION_def SIDE_BOTH_def SIDES_def
  RANK_OPTIMISTIC_def RANK_PESSIMISTIC_def RANK_REALISTIC_def RANK_EXPECTED_REALISTIC_def
  RANK_TYPES_def

lemmas median_defs = weighted_median_def np_argsort_def np_cumsum_def np_searchsorted_def

subsection \<open>Normalisation of metric keys\<close>

text \<open>
  C2. The claim: for every valid specification \<open>s\<close>, \<open>normalize (normalize s) = normalize s\<close>.
  The code breaks it at \<open>k = 0\<close>: \<^verbatim>\<open>lookup\<close> accepts \<open>hits@0\<close> with \<open>k = 0\<close>
  (only negative values are refused), \<^verbatim>\<open>__str__\<close> tests \<^verbatim>\<open>if self.k\<close> and leaves the
  zero out, and the string without \<open>k\<close> is read back with the default \<open>k = 10\<close>. The
  theorem evaluates the three steps.
\<close>

theorem normalize_hits_at_zero:
  "normalize RANK_TYPE_SYNONYMS ''hits@0'' = Inr ''hits_at_k.both.realistic''
   \<and> normalize RANK_TYPE_SYNONYMS ''hits_at_k.both.realistic'' = Inr ''hits_at_k.both.realistic.10''
   \<and> lookup RANK_TYPE_SYNONYMS ''hits@0''
       = Inr \<lparr>key_name = ''hits_at_k'', key_side = ''both'', key_rank_type = ''realistic'', key_k = Some 0\<rparr>"
  by code_simp

subsection \<open>The weighted median\<close>

text \<open>
  C3. The claim: with uniform weights \<^verbatim>\<open>weighted_median\<close> is the unweighted median, and
  \<^verbatim>\<open>weighted_median([1,2,3,4], [1,1,1,1]) == 2.5\<close>. The cumulative sums start with an
  extra 0, so the index found is one past the first position whose cumulative fraction
  reaches one half: the code returns 3 on \<open>[1,2,3,4]\<close> (the median is 5/2), 3 on
  \<open>[1,2,3]\<close> (the median is 2), and raises \<^verbatim>\<open>IndexError\<close> on a single value.
\<close>

theorem weighted_median_uniform_off_by_one:
  "weighted_median [1, 2, 3, 4] [1, 1, 1, 1] = Inr 3 \<and> np_median [1, 2, 3, 4] = 5 / 2
   \<and> weighted_median [1, 2, 3] [1, 1, 1] = Inr 3 \<and> np_median [1, 2, 3] = 2
   \<and> weighted_median [5] [1] = Inl IndexError"
  by (simp add: median_defs np_median_def upt_rec)

subsection \<open>The invariant of metric keys\<close>

lemma metric_synonym_hits:
  "get_or_self METRIC_SYNONYMS x = ''hits_at_k'' \<longleftrightarrow> x = ''hits_at_k''"
  by (simp add: get_or_self_def METRIC_SYNONYMS_def name_defs)

lemma normalize_name_k:
  assumes "normalize_name name0 k0 = Inr (name3, k2)"
  shows "k2 \<noteq> None \<longleftrightarrow> name3 = ''hits_at_k''"
  using assms
  by (auto simp: normalize_name_def bind_err_def Let_def metric_synonym_hits
      split: sum.splits option.splits kvalue.splits if_splits)

lemma normalize_side_in:
  "normalize_side side0 = Inr side1 \<Longrightarrow> side1 \<in> set SIDES"
  by (auto simp: normalize_side_def Let_def split: if_splits)

lemma normalize_rank_type_in:
  "normalize_rank_type syn name3 type0 = Inr rank_type1 \<Longrightarrow> rank_type1 \<in> set RANK_TYPES"
  by (auto simp: normalize_rank_type_def Let_def split: if_splits)

lemma lookup_InrE:
  assumes "lookup syn s = Inr key"
  obtains name0 side0 type0 k0 name3 k2 side1 rank_type1 where
    "normalize_name name0 k0 = Inr (name3, k2)"
    "normalize_side side0 = Inr side1"
    "normalize_rank_type syn name3 type0 = Inr rank_type1"
    "key = \<lparr>key_name = name3, key_side = side1, key_rank_type = rank_type1, key_k = k2\<rparr>"
  using assms
  by (auto simp: lookup_def bind_err_def split: option.splits sum.splits if_splits prod.splits)

text \<open>
  C9. Every key that \<^verbatim>\<open>lookup\<close> returns, for any table of rank-type synonyms, has a
  \<open>k\<close> exactly when its name is \<open>hits_at_k\<close>, a side among \<open>head\<close>, \<open>tail\<close>,
  \<open>both\<close>, and a rank type in the closed set (\<open>expected_realistic\<close> is in the set but
  is never returned: the rank type is one of the other three).
\<close>

theorem lookup_key_invariant:
  assumes "lookup syn s = Inr key"
  shows "(key_k key \<noteq> None \<longleftrightarrow> key_name key = ''hits_at_k'')
         \<and> key_side key \<in> {''head'', ''tail'', ''both''}
         \<and> key_rank_type key \<in> {''optimistic'', ''pessimistic'', ''realistic'', ''expected_realistic''}"
proof -
  from assms obtain name0 side0 type0 k0 name3 k2 side1 rank_type1 where
    n: "normalize_name name0 k0 = Inr (name3, k2)" and
    sd: "normalize_side side0 = Inr side1" and
    rt: "normalize_rank_type syn name3 type0 = Inr rank_type1" and
    key: "key = \<lparr>key_name = name3, key_side = side1, key_rank_type = rank_type1, key_k = k2\<rparr>"
    by (rule lookup_InrE)
  from normalize_name_k [OF n] have "key_k key \<noteq> None \<longleftrightarrow> key_name key = ''hits_at_k''"
    by (simp add: key)
  moreover from normalize_side_in [OF sd] have "key_side key \<in> {''head'', ''tail'', ''both''}"
    by (simp add: key typing_defs)
  moreover from normalize_rank_type_in [OF rt]
  have "key_rank_type key \<in> {''optimistic'', ''pessimistic'', ''realistic'', ''expected_realistic''}"
    by (auto simp: key typing_defs)
  ultimately show ?thesis by blast
qed

lemma lookup_hits_at_5:
  "lookup RANK_TYPE_SYNONYMS ''hits@5.tail.worst'' =
     Inr \<lparr>key_name = ''hits_at_k'', key_side = ''tail'', key_rank_type = ''pessimistic'', key_k = Some 5\<rparr>"
  by code_simp

theorem lookup_key_invariant_witness:
  "lookup RANK_TYPE_SYNONYMS ''hits@5.tail.worst'' =
     Inr \<lparr>key_name = ''hits_at_k'', key_side = ''tail'', key_rank_type = ''pessimistic'', key_k = Some 5\<rparr>
   \<and> (Some (5::int) \<noteq> None \<longleftrightarrow> ''hits_at_k'' = ''hits_at_k'')
   \<and> ''tail'' \<in> {''head'', ''tail'', ''both''}
   \<and> ''pessimistic'' \<in> {''optimistic'', ''pessimistic'', ''realistic'', ''expected_realistic''}"
  using lookup_key_invariant [OF lookup_hits_at_5] lookup_hits_at_5 by simp

subsection \<open>Loops that may raise\<close>

lemma for_each_id:
  "(\<And>x acc. x \<in> set xs \<Longrightarrow> body x acc = Inr acc) \<Longrightarrow> for_each body xs acc = Inr acc"
  by (induction xs) (simp_all add: bind_err_def)

lemma for_each_ok:
  "(\<And>x acc. x \<in> set xs \<Longrightarrow> \<exists>acc'. body x acc = Inr acc') \<Longrightarrow> \<exists>acc'. for_each body xs acc = Inr acc'"
proof (induction xs arbitrary: acc)
  case Nil
  then show ?case by simp
next
  case (Cons x xs)
  from Cons.prems [of x acc] obtain a where a: "body x acc = Inr a" by auto
  from Cons.IH [of a] Cons.prems obtain b where "for_each body xs a = Inr b" by auto
  with a show ?case by (simp add: bind_err_def)
qed

subsection \<open>Finalize before any batch\<close>

lemma micro_init_fields:
  "RankBasedEvaluator_init ks = Inr ev \<Longrightarrow> self_num_entities ev = None \<and> self_ranks ev = Map.empty"
  by (auto simp: RankBasedEvaluator_init_def Let_def split: if_splits)

lemma macro_init_fields:
  "MacroRankBasedEvaluator_init ks = Inr ev \<Longrightarrow> self_num_entities ev = None"
  by (auto simp: MacroRankBasedEvaluator_init_def bind_err_def RankBasedEvaluator.extend_def
      dest!: micro_init_fields split: sum.splits)

lemma sampled_init_fields:
  "SampledRankBasedEvaluator_init rng ks f add nn hn tn = Inr ev
    \<Longrightarrow> self_num_entities ev = Some (tf_num_entities f) \<and> self_ranks ev = Map.empty"
  by (auto simp: SampledRankBasedEvaluator_init_def bind_err_def RankBasedEvaluator.extend_def
      dest!: micro_init_fields split: sum.splits)

lemma finalize_pair_empty:
  "self_ranks self = Map.empty \<Longrightarrow> finalize_pair self n pair res = Inr res"
  by (simp add: finalize_pair_def get_ranks_def ranks_get_def Let_def)

lemma finalize_no_observations:
  assumes "self_num_entities self = Some n" and "self_ranks self = Map.empty"
  shows "finalize self = Inr (empty_results, self)"
proof -
  have "for_each (finalize_pair self n) (List.product SIDES RANK_TYPES) empty_results = Inr empty_results"
    by (rule for_each_id) (simp add: finalize_pair_empty assms)
  moreover have "empty_results\<lparr>data := (\<lambda>(metric_name, key).
                                      if metric_name \<in> set RESULT_METRICS
                                      then data empty_results (metric_name, key) else None)\<rparr> = empty_results"
    by (simp add: empty_results_def fun_eq_iff)
  moreover have "self\<lparr>self_ranks := Map.empty\<rparr> = self"
    using assms(2) by simp
  ultimately show ?thesis
    using assms(1) by (simp add: finalize_def bind_err_def)
qed

lemma sampled_example_eq: "sampled_example = Inr sampled_state"
  by (simp add: sampled_example_def sampled_state_def SampledRankBasedEvaluator_init_def
      RankBasedEvaluator_init_def bind_err_def num_triples_def typing_defs RankBasedEvaluator.extend_def)

text \<open>
  C6, as stated: \<^verbatim>\<open>finalize\<close> on an accumulator of any variant that received no batch
  fails with a state error. It does not for the sampled variant: its constructor assigns
  the entity count of the factory to \<^verbatim>\<open>self.num_entities\<close>, so \<^verbatim>\<open>finalize\<close> on the
  freshly constructed evaluator returns results without entries.
\<close>

theorem sampled_finalize_without_batches:
  "sampled_example = Inr sampled_state \<and> finalize sampled_state = Inr (empty_results, sampled_state)"
  by (simp add: sampled_example_eq finalize_no_observations [where n = 3] sampled_state_def)

text \<open>
  C6, amended: on a freshly constructed micro or macro accumulator \<^verbatim>\<open>finalize\<close> fails
  with the bare \<^verbatim>\<open>ValueError\<close>; on a freshly constructed sampled accumulator it returns
  the empty results and leaves the accumulator as it is.
\<close>

theorem finalize_without_batches:
  "(RankBasedEvaluator_init ks = Inr ev1 \<longrightarrow> finalize ev1 = Inl (ValueError []))
   \<and> (MacroRankBasedEvaluator_init ks = Inr ev2 \<longrightarrow> macro_finalize ev2 = Inl (ValueError []))
   \<and> (SampledRankBasedEvaluator_init rng ks f add nn hn tn = Inr ev3
        \<longrightarrow> finalize ev3 = Inr (empty_results, ev3))"
proof (intro conjI impI)
  assume "RankBasedEvaluator_init ks = Inr ev1"
  then show "finalize ev1 = Inl (ValueError [])"
    by (simp add: finalize_def micro_init_fields)
next
  assume "MacroRankBasedEvaluator_init ks = Inr ev2"
  then show "macro_finalize ev2 = Inl (ValueError [])"
    by (simp add: macro_finalize_def macro_init_fields)
next
  assume "SampledRankBasedEvaluator_init rng ks f add nn hn tn = Inr ev3"
  then show "finalize ev3 = Inr (empty_results, ev3)"
    by (intro finalize_no_observations [where n = "tf_num_entities f"]) (simp_all add: sampled_init_fields)
qed

lemma micro_fresh_eq: "RankBasedEvaluator_init None = Inr micro_fresh"
  by (simp add: RankBasedEvaluator_init_def micro_fresh_def)

lemma macro_fresh_eq: "MacroRankBasedEvaluator_init None = Inr macro_fresh"
  by (simp add: MacroRankBasedEvaluator_init_def RankBasedEvaluator_init_def macro_fresh_def
      bind_err_def RankBasedEvaluator.extend_def)

theorem finalize_without_batches_witness:
  "RankBasedEvaluator_init None = Inr micro_fresh \<and> finalize micro_fresh = Inl (ValueError [])
   \<and> MacroRankBasedEvaluator_init None = Inr macro_fresh \<and> macro_finalize macro_fresh = Inl (ValueError [])
   \<and> SampledRankBasedEvaluator_init (first_positions 1) None
        \<lparr>tf_mapped_triples = [(0, 0, 1)], tf_num_entities = 3\<rparr> None None (Some [[2]]) (Some [[0]])
       = Inr sampled_state
   \<and> finalize sampled_state = Inr (empty_results, sampled_state)"
  using finalize_without_batches [of None micro_fresh macro_fresh "first_positions 1"
      "\<lparr>tf_mapped_triples = [(0, 0, 1)], tf_num_entities = 3\<rparr>" None None "Some [[2]]" "Some [[0]]"
      sampled_state]
    micro_fresh_eq macro_fresh_eq sampled_example_eq
  by (simp add: sampled_example_def)

subsection \<open>Buffers after finalize\<close>

text \<open>
  The finalize of the micro accumulator, which the sampled one inherits, returns the
  accumulator with an empty dictionary of ranks; the finalize of the macro accumulator
  returns it with the ranks and the keys it had.
\<close>

lemma finalize_clears_ranks:
  "finalize ev = Inr (res, ev') \<Longrightarrow> self_ranks ev' = Map.empty"
  by (auto simp: finalize_def bind_err_def split: option.splits sum.splits)

lemma macro_finalize_same_state:
  "macro_finalize ev = Inr (res, ev')
    \<Longrightarrow> ev' = ev\<lparr>self_keys := touch (touch (self_keys ev) LABEL_HEAD) LABEL_TAIL\<rparr>"
  by (auto simp: macro_finalize_def bind_err_def split: option.splits sum.splits)

lemma macro_finalize_same_buffers:
  assumes "macro_finalize ev = Inr (res, ev')"
  shows "get_ranks ev' side rank_type = get_ranks ev side rank_type"
    and "get_keys ev' side = get_keys ev side"
  unfolding macro_finalize_same_state [OF assms]
  by (auto simp: get_ranks_def ranks_get_def get_keys_def keys_of_def touch_def typing_defs
      split: option.splits)

lemma macro_example_eq: "macro_example = Inr macro_state"
  by (simp add: macro_example_def macro_state_def MacroRankBasedEvaluator_init_def RankBasedEvaluator_init_def
      macro_process_scores_def process_scores_def bind_err_def RankBasedEvaluator.extend_def
      uniform_batch_def extend_at_def TARGET_TO_INDEX_def key_columns_def typing_defs)

lemma macro_weights_two_keys: "macro_weights [(0, 1), (0, 3)] = [1, 1]"
  by (simp add: macro_weights_def unique_counts_def unique_inverse_def np_unique_def index_of_def)

lemma macro_weights_Nil: "macro_weights [] = []"
  by (simp add: macro_weights_def unique_counts_def unique_inverse_def np_unique_def)

lemma macro_metrics_example: "\<exists>ms. get_macro_ranking_metrics [1, 2] [1, 1] = Inr ms"
  by (simp add: get_macro_ranking_metrics_def np_average_def bind_err_def median_defs upt_rec)

lemma np_average_ok: "length xs = length ws \<Longrightarrow> sum_list ws \<noteq> 0 \<Longrightarrow> \<exists>v. np_average xs ws = Inr v"
  by (simp add: np_average_def)

lemma macro_rank_type_ok:
  assumes "length (get_ranks self s t) = length ws" and "sum_list ws \<noteq> 0"
    and "get_macro_ranking_metrics (get_ranks self s t) ws = Inr ms"
  shows "\<exists>res'. macro_finalize_rank_type self n s ws t res = Inr res'"
proof -
  have "\<exists>hits. for_each (\<lambda>k acc. bind_err (np_average (le_indicator (get_ranks self s t) (threshold n k)) ws)
                                       (\<lambda>v. Inr (acc @ [(k, v)]))) (self_ks self) [] = Inr hits"
  proof (rule for_each_ok)
    fix k acc
    from np_average_ok [OF _ assms(2), of "le_indicator (get_ranks self s t) (threshold n k)"] assms(1)
    obtain v where "np_average (le_indicator (get_ranks self s t) (threshold n k)) ws = Inr v"
      by (auto simp: le_indicator_def)
    then show "\<exists>acc'. bind_err (np_average (le_indicator (get_ranks self s t) (threshold n k)) ws)
                                       (\<lambda>v. Inr (acc @ [(k, v)])) = Inr acc'"
      by (simp add: bind_err_def)
  qed
  then obtain hits where "for_each (\<lambda>k acc. bind_err (np_average (le_indicator (get_ranks self s t) (threshold n k)) ws)
                                       (\<lambda>v. Inr (acc @ [(k, v)]))) (self_ks self) [] = Inr hits"
    by blast
  then show ?thesis
    using assms(1,3) by (simp add: macro_finalize_rank_type_def Let_def bind_err_def)
qed

lemma macro_state_ranks:
  "t \<in> set RANK_TYPES \<Longrightarrow> s \<in> {''head'', ''both''} \<Longrightarrow> get_ranks macro_state s t = [1, 2]"
  by (auto simp add: macro_state_def get_ranks_def ranks_get_def typing_defs)

lemma macro_state_rank_type:
  assumes "t \<in> set RANK_TYPES" and "s \<in> {''head'', ''both''}"
  shows "\<exists>res'. macro_finalize_rank_type macro_state 5 s [1, 1] t res = Inr res'"
proof -
  from macro_metrics_example obtain ms where "get_macro_ranking_metrics [1, 2] [1, 1] = Inr ms"
    by blast
  then show ?thesis
    by (intro macro_rank_type_ok [where ms = ms]) (simp_all add: macro_state_ranks [OF assms])
qed

lemma macro_state_rank_type_tail:
  "macro_finalize_rank_type macro_state 5 ''tail'' [] t res = Inr res"
  by (auto simp add: macro_finalize_rank_type_def macro_state_def get_ranks_def ranks_get_def typing_defs)

lemma macro_state_keys:
  "get_keys macro_state ''head'' = Inr [(0, 1), (0, 3)]"
  "get_keys macro_state ''tail'' = Inr []"
  "get_keys macro_state ''both'' = Inr [(0, 1), (0, 3)]"
  by (simp_all add: get_keys_def keys_of_def macro_state_def typing_defs bind_err_def)

lemma macro_state_side:
  assumes "s \<in> set SIDES"
  shows "\<exists>res'. macro_finalize_side macro_state 5 s res = Inr res'"
proof (cases "s = ''tail''")
  case True
  have "for_each (macro_finalize_rank_type macro_state 5 ''tail'' []) RANK_TYPES res = Inr res"
    by (rule for_each_id) (rule macro_state_rank_type_tail)
  then show ?thesis
    by (simp add: True macro_finalize_side_def macro_state_keys bind_err_def macro_weights_Nil)
next
  case False
  with assms have s: "s \<in> {''head'', ''both''}"
    by (auto simp: typing_defs)
  then have k: "get_keys macro_state s = Inr [(0, 1), (0, 3)]"
    by (auto simp: macro_state_keys)
  have "\<exists>res'. for_each (macro_finalize_rank_type macro_state 5 s [1, 1]) RANK_TYPES res = Inr res'"
    by (rule for_each_ok) (rule macro_state_rank_type [OF _ s])
  moreover have "macro_weights [(0, Suc 0), (0, 3)] = [1, 1]"
    using macro_weights_two_keys by simp
  ultimately show ?thesis
    by (simp add: macro_finalize_side_def k bind_err_def)
qed

text \<open>
  C1. The claim: the finalize of every variant clears the rank buffers (and the key
  buffers of the macro variant) when it completes. \<^verbatim>\<open>MacroRankBasedEvaluator.finalize\<close>
  overrides the finalize of the micro accumulator without its last step
  \<^verbatim>\<open>self.ranks.clear()\<close>: after a batch of two head predictions, finalize completes and
  the accumulator it leaves still holds the two realistic ranks and the two keys of the
  side \<open>head\<close>.
\<close>

theorem macro_finalize_keeps_buffers:
  "macro_example = Inr macro_state
   \<and> map_sum id (\<lambda>r. (get_ranks (snd r) ''head'' ''realistic'', get_keys (snd r) ''head''))
        (macro_finalize macro_state)
       = Inr ([1, 2], Inr [(0, 1), (0, 3)])"
proof -
  have "\<exists>res. for_each (macro_finalize_side macro_state 5) SIDES empty_results = Inr res"
    by (rule for_each_ok) (rule macro_state_side)
  then obtain res ev where r: "macro_finalize macro_state = Inr (res, ev)"
    by (auto simp: macro_finalize_def bind_err_def macro_state_def)
  have "get_ranks ev ''head'' ''realistic'' = [1, 2]"
    unfolding macro_finalize_same_buffers(1) [OF r]
    by (simp add: macro_state_ranks typing_defs)
  moreover have "get_keys ev ''head'' = Inr [(0, 1), (0, 3)]"
    unfolding macro_finalize_same_buffers(2) [OF r] by (rule macro_state_keys)
  ultimately show ?thesis
    by (simp add: macro_example_eq r)
qed

subsection \<open>The adjusted mean rank\<close>

lemma bind_err_Inr_iff:
  "bind_err m f = Inr y \<longleftrightarrow> (\<exists>x. m = Inr x \<and> f x = Inr y)"
  by (cases m) (simp_all add: bind_err_def)

lemma for_each_invariant:
  assumes "for_each body xs acc = Inr acc'" and "P acc"
    and "\<And>x a b. x \<in> set xs \<Longrightarrow> body x a = Inr b \<Longrightarrow> P a \<Longrightarrow> P b"
  shows "P acc'"
  using assms
proof (induction xs arbitrary: acc)
  case Nil
  then show ?case by simp
next
  case (Cons x xs)
  from Cons.prems(1) obtain a where a: "body x acc = Inr a" and r: "for_each body xs a = Inr acc'"
    by (auto simp: bind_err_Inr_iff)
  have "P a"
    by (rule Cons.prems(3) [OF _ a Cons.prems(2)]) simp
  moreover have "\<And>y a b. y \<in> set xs \<Longrightarrow> body y a = Inr b \<Longrightarrow> P a \<Longrightarrow> P b"
    by (rule Cons.prems(3)) simp_all
  ultimately show ?case
    using Cons.IH [OF r] by blast
qed

lemma write_metrics_simps:
  "write_metrics side rank_type [] res = res"
  "write_metrics side rank_type ((n, v) # ms) res =
     write_metrics side rank_type ms (res\<lparr>data := (data res)((n, side, rank_type) \<mapsto> v)\<rparr>)"
  by (simp_all add: write_metrics_def)

lemma data_write_metrics_other:
  "(s, t) \<noteq> (side, rank_type) \<or> m \<notin> fst ` set ms
    \<Longrightarrow> data (write_metrics side rank_type ms res) (m, s, t) = data res (m, s, t)"
proof (induction ms arbitrary: res)
  case Nil
  then show ?case by (simp add: write_metrics_simps)
next
  case (Cons a ms)
  obtain n v where a: "a = (n, v)" by (cases a)
  from Cons.prems have "(s, t) \<noteq> (side, rank_type) \<or> m \<notin> fst ` set ms"
    by auto
  from Cons.IH [OF this] Cons.prems show ?case
    by (auto simp: a write_metrics_simps)
qed

lemma data_write_metrics_first:
  assumes "distinct (map fst ms)" and "(m, v) \<in> set ms"
  shows "data (write_metrics side rank_type ms res) (m, side, rank_type) = Some v"
  using assms
proof (induction ms arbitrary: res)
  case Nil
  then show ?case by simp
next
  case (Cons a ms)
  obtain n w where a: "a = (n, w)" by (cases a)
  show ?case
  proof (cases "(m, v) \<in> set ms")
    case True
    with Cons.prems Cons.IH show ?thesis
      by (simp add: a write_metrics_simps)
  next
    case False
    with Cons.prems have eq: "n = m" "w = v" and "m \<notin> fst ` set ms"
      by (auto simp: a)
    then show ?thesis
      by (simp add: a write_metrics_simps data_write_metrics_other)
  qed
qed

lemma registry_distinct: "distinct (map fst ALL_TYPE_FUNCS)"
  by (simp add: ALL_TYPE_FUNCS_def name_defs)

lemma registry_not_adjusted:
  "ADJUSTED_ARITHMETIC_MEAN_RANK \<notin> fst ` set ALL_TYPE_FUNCS"
  "ADJUSTED_ARITHMETIC_MEAN_RANK_INDEX \<notin> fst ` set ALL_TYPE_FUNCS"
  by (simp_all add: ALL_TYPE_FUNCS_def name_defs)

lemma bind_err_simps [simp]:
  "bind_err (Inr x) f = f x"
  "bind_err (Inl e) f = Inl e"
  by (simp_all add: bind_err_def)

lemma registry_mean:
  "(ARITHMETIC_MEAN_RANK, Float (np_mean ranks))
    \<in> set (map (\<lambda>(metric_name, metric_value). (metric_name, Float metric_value)) (get_ranking_metrics ranks))"
  by (simp add: get_ranking_metrics_def ALL_TYPE_FUNCS_def)

lemma registry_names_Float:
  "map fst (map (\<lambda>(metric_name, metric_value). (metric_name, Float metric_value)) (get_ranking_metrics ranks))
    = map fst ALL_TYPE_FUNCS"
  by (simp add: get_ranking_metrics_def ALL_TYPE_FUNCS_def)

lemma registry_names_set:
  "fst ` set (map (\<lambda>(metric_name, metric_value). (metric_name, Float metric_value)) (get_ranking_metrics ranks))
    = fst ` set ALL_TYPE_FUNCS"
  using registry_names_Float [of ranks] by (metis list.set_map)

lemma finalize_pair_skip:
  "get_ranks self s t = [] \<Longrightarrow> finalize_pair self n (s, t) res = Inr res"
  by (simp add: finalize_pair_def)

lemma finalize_pair_plain:
  assumes "get_ranks self s t \<noteq> []" and "t \<noteq> RANK_REALISTIC \<or> get_ranks self s RANK_EXPECTED_REALISTIC = []"
  shows "finalize_pair self n (s, t) res =
     Inr (write_metrics s t
            (map (\<lambda>(metric_name, metric_value). (metric_name, Float metric_value))
                 (get_ranking_metrics (get_ranks self s t)))
            (res\<lparr>hits_at_k := (hits_at_k res)((s, t) \<mapsto>
                         map (\<lambda>k. (k, np_mean (le_indicator (get_ranks self s t) (threshold n k))))
                             (self_ks self))\<rparr>))"
  using assms by (auto simp: finalize_pair_def Let_def EXPECTED_RANKS_def)

lemma finalize_pair_adjusted:
  assumes "get_ranks self s RANK_REALISTIC \<noteq> []" and "get_ranks self s RANK_EXPECTED_REALISTIC \<noteq> []"
  shows "finalize_pair self n (s, RANK_REALISTIC) res =
     (if np_mean (get_ranks self s RANK_EXPECTED_REALISTIC) = 0
         \<or> np_mean (get_ranks self s RANK_EXPECTED_REALISTIC) = 1 then Inl ZeroDivisionError
      else
        (let res2 = write_metrics s RANK_REALISTIC
            (map (\<lambda>(metric_name, metric_value). (metric_name, Float metric_value))
                 (get_ranking_metrics (get_ranks self s RANK_REALISTIC)))
            (res\<lparr>hits_at_k := (hits_at_k res)((s, RANK_REALISTIC) \<mapsto>
                         map (\<lambda>k. (k, np_mean (le_indicator (get_ranks self s RANK_REALISTIC) (threshold n k))))
                             (self_ks self))\<rparr>)
         in Inr (res2\<lparr>data := (data res2)
              ((ADJUSTED_ARITHMETIC_MEAN_RANK, s, RANK_REALISTIC) \<mapsto>
                  Float (np_mean (get_ranks self s RANK_REALISTIC)
                           / np_mean (get_ranks self s RANK_EXPECTED_REALISTIC)),
               (ADJUSTED_ARITHMETIC_MEAN_RANK_INDEX, s, RANK_REALISTIC) \<mapsto>
                  Float (1 - (np_mean (get_ranks self s RANK_REALISTIC) - 1)
                           / (np_mean (get_ranks self s RANK_EXPECTED_REALISTIC) - 1)))\<rparr>)))"
proof -
  have "data (write_metrics s RANK_REALISTIC
            (map (\<lambda>(metric_name, metric_value). (metric_name, Float metric_value))
                 (get_ranking_metrics (get_ranks self s RANK_REALISTIC))) r)
          (ARITHMETIC_MEAN_RANK, s, RANK_REALISTIC) = Some (Float (np_mean (get_ranks self s RANK_REALISTIC)))" for r
    by (rule data_write_metrics_first) (simp_all only: registry_names_Float registry_distinct registry_mean)
  then show ?thesis
    using assms
    by (simp add: finalize_pair_def Let_def EXPECTED_RANKS_def py_truediv_def py_sub_def)
qed

lemma finalize_pair_frame:
  assumes "finalize_pair self n p res = Inr res'" and "(s', t') \<noteq> p"
  shows "data res' (m, s', t') = data res (m, s', t')"
proof -
  obtain s t where p: "p = (s, t)" by (cases p)
  show ?thesis
  proof (cases "get_ranks self s t = []")
    case True
    with assms show ?thesis by (simp add: p finalize_pair_skip)
  next
    case False
    show ?thesis
    proof (cases "t \<noteq> RANK_REALISTIC \<or> get_ranks self s RANK_EXPECTED_REALISTIC = []")
      case True
      from assms show ?thesis
        unfolding p finalize_pair_plain [OF False True]
        by (auto simp: data_write_metrics_other)
    next
      case False2: False
      with False have a: "get_ranks self s RANK_REALISTIC \<noteq> []"
        "get_ranks self s RANK_EXPECTED_REALISTIC \<noteq> []" and t: "t = RANK_REALISTIC"
        by auto
      from assms show ?thesis
        unfolding p t finalize_pair_adjusted [OF a]
        by (auto simp: Let_def data_write_metrics_other split: if_splits)
    qed
  qed
qed

lemma data_registry_adjusted:
  assumes "m = ADJUSTED_ARITHMETIC_MEAN_RANK \<or> m = ADJUSTED_ARITHMETIC_MEAN_RANK_INDEX"
  shows "data (write_metrics s t
            (map (\<lambda>(metric_name, metric_value). (metric_name, Float metric_value))
                 (get_ranking_metrics ranks)) res0) (m, s', t') = data res0 (m, s', t')"
proof (rule data_write_metrics_other)
  from assms have "m \<notin> fst ` set ALL_TYPE_FUNCS"
    by (elim disjE) (simp_all only: registry_not_adjusted not_False_eq_True)
  then show "(s', t') \<noteq> (s, t) \<or> m \<notin> fst ` set (map (\<lambda>(metric_name, metric_value). (metric_name, Float metric_value))
                 (get_ranking_metrics ranks))"
    by (simp only: registry_names_set) simp
qed

lemma finalize_pair_not_adjusted:
  assumes "finalize_pair self n (s, t) res = Inr res'" and "t \<noteq> RANK_REALISTIC"
    and "m = ADJUSTED_ARITHMETIC_MEAN_RANK \<or> m = ADJUSTED_ARITHMETIC_MEAN_RANK_INDEX"
  shows "data res' (m, s', t') = data res (m, s', t')"
proof (cases "get_ranks self s t = []")
  case True
  with assms show ?thesis by (simp add: finalize_pair_skip)
next
  case False
  from assms(2) have "t \<noteq> RANK_REALISTIC \<or> get_ranks self s RANK_EXPECTED_REALISTIC = []"
    by simp
  from assms(1) [unfolded finalize_pair_plain [OF False this]]
  have "res' = write_metrics s t
            (map (\<lambda>(metric_name, metric_value). (metric_name, Float metric_value))
                 (get_ranking_metrics (get_ranks self s t)))
            (res\<lparr>hits_at_k := (hits_at_k res)((s, t) \<mapsto>
                         map (\<lambda>k. (k, np_mean (le_indicator (get_ranks self s t) (threshold n k))))
                             (self_ks self))\<rparr>)"
    by simp
  then show ?thesis
    by (simp add: data_registry_adjusted [OF assms(3)])
qed

lemma finalize_pair_ok:
  assumes "t = RANK_REALISTIC \<and> get_ranks self s RANK_REALISTIC \<noteq> []
            \<and> get_ranks self s RANK_EXPECTED_REALISTIC \<noteq> []
        \<longrightarrow> np_mean (get_ranks self s RANK_EXPECTED_REALISTIC) \<noteq> 0
            \<and> np_mean (get_ranks self s RANK_EXPECTED_REALISTIC) \<noteq> 1"
  shows "\<exists>res'. finalize_pair self n (s, t) res = Inr res'"
proof (cases "get_ranks self s t = []")
  case True
  then show ?thesis by (simp add: finalize_pair_skip)
next
  case False
  show ?thesis
  proof (cases "t \<noteq> RANK_REALISTIC \<or> get_ranks self s RANK_EXPECTED_REALISTIC = []")
    case True
    show ?thesis by (simp add: finalize_pair_plain [OF False True])
  next
    case False2: False
    with False have a: "get_ranks self s RANK_REALISTIC \<noteq> []"
      "get_ranks self s RANK_EXPECTED_REALISTIC \<noteq> []" and t: "t = RANK_REALISTIC"
      by auto
    with assms show ?thesis
      by (simp add: finalize_pair_adjusted [OF a] Let_def)
  qed
qed

lemma for_each_last_write:
  assumes "for_each body xs acc = Inr acc'" and "p \<in> set xs" and "distinct xs"
    and "\<And>a b. body p a = Inr b \<Longrightarrow> Q b"
    and "\<And>x a b. x \<noteq> p \<Longrightarrow> body x a = Inr b \<Longrightarrow> Q a \<Longrightarrow> Q b"
  shows "Q acc'"
  using assms(1-3)
proof (induction xs arbitrary: acc)
  case Nil
  then show ?case by simp
next
  case (Cons x xs)
  from Cons.prems(1) obtain a where a: "body x acc = Inr a" and r: "for_each body xs a = Inr acc'"
    by (auto simp: bind_err_Inr_iff)
  show ?case
  proof (cases "x = p")
    case True
    with a have "Q a" by (auto intro: assms(4))
    moreover from True Cons.prems(3) have "\<And>y. y \<in> set xs \<Longrightarrow> y \<noteq> p" by auto
    ultimately show ?thesis
      using for_each_invariant [OF r, of Q] assms(5) by blast
  next
    case False
    with Cons.prems have "p \<in> set xs" "distinct xs" by auto
    from Cons.IH [OF r this] show ?thesis .
  qed
qed

lemma product_distinct: "distinct (List.product SIDES RANK_TYPES)"
  by (simp add: typing_defs)

text \<open>
  C7, amended: when the candidate count is known, the mean of the expected-realistic buffer
  is neither 0 nor 1 on every side where both buffers hold observations, and a side has
  observations in its realistic and in its expected-realistic buffer, then \<^verbatim>\<open>finalize\<close>
  returns results in which, for that side and the realistic rank type, the adjusted
  arithmetic mean rank is the mean rank divided by the expected mean, and the index is
  \<open>1 - (mean - 1) / (expected mean - 1)\<close>; the two metrics have no entry for any other
  rank type.
\<close>

theorem adjusted_metrics:
  assumes n: "self_num_entities self = Some n"
    and ok: "\<forall>s\<in>set SIDES. get_ranks self s RANK_REALISTIC \<noteq> []
                  \<and> get_ranks self s RANK_EXPECTED_REALISTIC \<noteq> []
              \<longrightarrow> np_mean (get_ranks self s RANK_EXPECTED_REALISTIC) \<noteq> 0
                  \<and> np_mean (get_ranks self s RANK_EXPECTED_REALISTIC) \<noteq> 1"
    and side: "side \<in> set SIDES"
    and r: "get_ranks self side RANK_REALISTIC \<noteq> []"
    and e: "get_ranks self side RANK_EXPECTED_REALISTIC \<noteq> []"
  shows "\<exists>res. finalize self = Inr (res, self\<lparr>self_ranks := Map.empty\<rparr>)
          \<and> data res (ADJUSTED_ARITHMETIC_MEAN_RANK, side, RANK_REALISTIC)
              = Some (Float (np_mean (get_ranks self side RANK_REALISTIC)
                               / np_mean (get_ranks self side RANK_EXPECTED_REALISTIC)))
          \<and> data res (ADJUSTED_ARITHMETIC_MEAN_RANK_INDEX, side, RANK_REALISTIC)
              = Some (Float (1 - (np_mean (get_ranks self side RANK_REALISTIC) - 1)
                               / (np_mean (get_ranks self side RANK_EXPECTED_REALISTIC) - 1)))
          \<and> (\<forall>s t. t \<noteq> RANK_REALISTIC \<longrightarrow>
                data res (ADJUSTED_ARITHMETIC_MEAN_RANK, s, t) = None
                \<and> data res (ADJUSTED_ARITHMETIC_MEAN_RANK_INDEX, s, t) = None)"
proof -
  let ?pairs = "List.product SIDES RANK_TYPES"
  let ?p = "(side, RANK_REALISTIC)"
  let ?a = "Float (np_mean (get_ranks self side RANK_REALISTIC)
                     / np_mean (get_ranks self side RANK_EXPECTED_REALISTIC))"
  let ?b = "Float (1 - (np_mean (get_ranks self side RANK_REALISTIC) - 1)
                     / (np_mean (get_ranks self side RANK_EXPECTED_REALISTIC) - 1))"
  have "\<exists>res0. for_each (finalize_pair self n) ?pairs empty_results = Inr res0"
  proof (rule for_each_ok)
    fix x :: "string \<times> string" and acc
    assume "x \<in> set ?pairs"
    then obtain s t where x: "x = (s, t)" and s: "s \<in> set SIDES"
      by auto
    from ok s show "\<exists>acc'. finalize_pair self n x acc = Inr acc'"
      unfolding x by (intro finalize_pair_ok) blast
  qed
  then obtain res0 where res0: "for_each (finalize_pair self n) ?pairs empty_results = Inr res0"
    by blast
  from ok side r e have ne: "np_mean (get_ranks self side RANK_EXPECTED_REALISTIC) \<noteq> 0"
    "np_mean (get_ranks self side RANK_EXPECTED_REALISTIC) \<noteq> 1"
    by blast+
  have p_in: "?p \<in> set ?pairs"
    using side by (simp add: RANK_TYPES_def)
  have written: "data res0 (ADJUSTED_ARITHMETIC_MEAN_RANK, side, RANK_REALISTIC) = Some ?a
      \<and> data res0 (ADJUSTED_ARITHMETIC_MEAN_RANK_INDEX, side, RANK_REALISTIC) = Some ?b"
  proof (rule for_each_last_write [OF res0 p_in product_distinct])
    fix a b
    assume "finalize_pair self n ?p a = Inr b"
    then show "data b (ADJUSTED_ARITHMETIC_MEAN_RANK, side, RANK_REALISTIC) = Some ?a
      \<and> data b (ADJUSTED_ARITHMETIC_MEAN_RANK_INDEX, side, RANK_REALISTIC) = Some ?b"
      unfolding finalize_pair_adjusted [OF r e]
      by (auto simp: ne Let_def name_defs)
  next
    fix x a b
    assume "x \<noteq> ?p" and "finalize_pair self n x a = Inr b"
      and "data a (ADJUSTED_ARITHMETIC_MEAN_RANK, side, RANK_REALISTIC) = Some ?a
      \<and> data a (ADJUSTED_ARITHMETIC_MEAN_RANK_INDEX, side, RANK_REALISTIC) = Some ?b"
    then show "data b (ADJUSTED_ARITHMETIC_MEAN_RANK, side, RANK_REALISTIC) = Some ?a
      \<and> data b (ADJUSTED_ARITHMETIC_MEAN_RANK_INDEX, side, RANK_REALISTIC) = Some ?b"
      using finalize_pair_frame [of self n x a b side RANK_REALISTIC] by auto
  qed
  have none: "\<forall>s t. t \<noteq> RANK_REALISTIC \<longrightarrow>
                data res0 (ADJUSTED_ARITHMETIC_MEAN_RANK, s, t) = None
                \<and> data res0 (ADJUSTED_ARITHMETIC_MEAN_RANK_INDEX, s, t) = None"
  proof (rule for_each_invariant [OF res0])
    show "\<forall>s t. t \<noteq> RANK_REALISTIC \<longrightarrow>
                data empty_results (ADJUSTED_ARITHMETIC_MEAN_RANK, s, t) = None
                \<and> data empty_results (ADJUSTED_ARITHMETIC_MEAN_RANK_INDEX, s, t) = None"
      by (simp add: empty_results_def)
  next
    fix x a b
    assume step: "finalize_pair self n x a = Inr b"
      and inv: "\<forall>s t. t \<noteq> RANK_REALISTIC \<longrightarrow>
                data a (ADJUSTED_ARITHMETIC_MEAN_RANK, s, t) = None
                \<and> data a (ADJUSTED_ARITHMETIC_MEAN_RANK_INDEX, s, t) = None"
    obtain s0 t0 where x: "x = (s0, t0)" by (cases x)
    show "\<forall>s t. t \<noteq> RANK_REALISTIC \<longrightarrow>
                data b (ADJUSTED_ARITHMETIC_MEAN_RANK, s, t) = None
                \<and> data b (ADJUSTED_ARITHMETIC_MEAN_RANK_INDEX, s, t) = None"
    proof (intro allI impI)
      fix s t :: string
      assume t: "t \<noteq> RANK_REALISTIC"
      show "data b (ADJUSTED_ARITHMETIC_MEAN_RANK, s, t) = None
                \<and> data b (ADJUSTED_ARITHMETIC_MEAN_RANK_INDEX, s, t) = None"
      proof (cases "t0 = RANK_REALISTIC")
        case True
        with t have "(s, t) \<noteq> x" by (auto simp: x)
        from finalize_pair_frame [OF step this] inv t show ?thesis by simp
      next
        case False
        from finalize_pair_not_adjusted [OF step [unfolded x] False] inv t show ?thesis by simp
      qed
    qed
  qed
  let ?res = "res0\<lparr>data := (\<lambda>(metric_name, key).
                                      if metric_name \<in> set RESULT_METRICS
                                      then data res0 (metric_name, key) else None)\<rparr>"
  have "finalize self = Inr (?res, self\<lparr>self_ranks := Map.empty\<rparr>)"
    by (simp add: finalize_def n res0)
  moreover have "data ?res (ADJUSTED_ARITHMETIC_MEAN_RANK, side, RANK_REALISTIC) = Some ?a"
    "data ?res (ADJUSTED_ARITHMETIC_MEAN_RANK_INDEX, side, RANK_REALISTIC) = Some ?b"
    using written by (simp_all add: RESULT_METRICS_def)
  moreover have "\<forall>s t. t \<noteq> RANK_REALISTIC \<longrightarrow>
                data ?res (ADJUSTED_ARITHMETIC_MEAN_RANK, s, t) = None
                \<and> data ?res (ADJUSTED_ARITHMETIC_MEAN_RANK_INDEX, s, t) = None"
    using none by simp
  ultimately show ?thesis by blast
qed

lemma micro_adjusted_ranks:
  "get_ranks micro_adjusted_state LABEL_HEAD RANK_REALISTIC = [1, 3]"
  "get_ranks micro_adjusted_state LABEL_HEAD RANK_EXPECTED_REALISTIC = [4, 4]"
  "get_ranks micro_adjusted_state LABEL_TAIL RANK_REALISTIC = []"
  "get_ranks micro_adjusted_state SIDE_BOTH RANK_REALISTIC = [1, 3]"
  "get_ranks micro_adjusted_state SIDE_BOTH RANK_EXPECTED_REALISTIC = [4, 4]"
  by (simp_all add: micro_adjusted_state_def get_ranks_def ranks_get_def typing_defs)

lemma micro_adjusted_reached:
  "bind_err (RankBasedEvaluator_init None)
     (process_scores ''RankBasedEvaluator'' LABEL_HEAD 7 adjusted_batch (Some ())) = Inr micro_adjusted_state"
  by (simp add: RankBasedEvaluator_init_def process_scores_def adjusted_batch_def micro_adjusted_state_def
      extend_at_def typing_defs)

theorem adjusted_metrics_witness:
  "self_num_entities micro_adjusted_state = Some 7
   \<and> get_ranks micro_adjusted_state LABEL_HEAD RANK_REALISTIC = [1, 3]
   \<and> get_ranks micro_adjusted_state LABEL_HEAD RANK_EXPECTED_REALISTIC = [4, 4]
   \<and> (\<exists>res. finalize micro_adjusted_state = Inr (res, micro_adjusted_state\<lparr>self_ranks := Map.empty\<rparr>)
          \<and> data res (ADJUSTED_ARITHMETIC_MEAN_RANK, LABEL_HEAD, RANK_REALISTIC) = Some (Float (1 / 2))
          \<and> data res (ADJUSTED_ARITHMETIC_MEAN_RANK_INDEX, LABEL_HEAD, RANK_REALISTIC) = Some (Float (2 / 3))
          \<and> data res (ADJUSTED_ARITHMETIC_MEAN_RANK, LABEL_HEAD, RANK_OPTIMISTIC) = None)"
proof -
  have n: "self_num_entities micro_adjusted_state = Some 7"
    by (simp add: micro_adjusted_state_def)
  have ok: "\<forall>s\<in>set SIDES. get_ranks micro_adjusted_state s RANK_REALISTIC \<noteq> []
                  \<and> get_ranks micro_adjusted_state s RANK_EXPECTED_REALISTIC \<noteq> []
              \<longrightarrow> np_mean (get_ranks micro_adjusted_state s RANK_EXPECTED_REALISTIC) \<noteq> 0
                  \<and> np_mean (get_ranks micro_adjusted_state s RANK_EXPECTED_REALISTIC) \<noteq> 1"
    by (simp add: SIDES_def micro_adjusted_ranks np_mean_def)
  have "RANK_OPTIMISTIC \<noteq> RANK_REALISTIC"
    by (simp add: typing_defs)
  with adjusted_metrics [OF n ok, of LABEL_HEAD] show ?thesis
    by (simp add: n micro_adjusted_ranks SIDES_def np_mean_def) blast
qed

lemma micro_single_reached:
  "bind_err (RankBasedEvaluator_init None)
     (process_scores ''RankBasedEvaluator'' LABEL_HEAD 1 single_batch (Some ())) = Inr micro_single_state"
  by (simp add: RankBasedEvaluator_init_def process_scores_def single_batch_def micro_single_state_def
      extend_at_def typing_defs)

lemma micro_single_ranks:
  "get_ranks micro_single_state LABEL_HEAD RANK_OPTIMISTIC = [1]"
  "get_ranks micro_single_state LABEL_HEAD RANK_REALISTIC = [1]"
  "get_ranks micro_single_state LABEL_HEAD RANK_EXPECTED_REALISTIC = [1]"
  by (simp_all add: micro_single_state_def get_ranks_def ranks_get_def typing_defs)

text \<open>
  C7, as stated: whenever both buffers of a side hold observations, the results contain
  the two adjusted metrics. With a single candidate every expected rank is 1: both buffers
  hold an observation, the divisor \<open>expected mean - 1\<close> is zero, the division of Python
  floats raises, and \<^verbatim>\<open>finalize\<close> returns no results.
\<close>

theorem adjusted_metrics_single_candidate:
  "bind_err (RankBasedEvaluator_init None)
     (process_scores ''RankBasedEvaluator'' LABEL_HEAD 1 single_batch (Some ())) = Inr micro_single_state
   \<and> get_ranks micro_single_state LABEL_HEAD RANK_REALISTIC = [1]
   \<and> get_ranks micro_single_state LABEL_HEAD RANK_EXPECTED_REALISTIC = [1]
   \<and> finalize micro_single_state = Inl ZeroDivisionError"
proof -
  have "RANK_OPTIMISTIC \<noteq> RANK_REALISTIC"
    by (simp add: typing_defs)
  then have "\<exists>r. finalize_pair micro_single_state (Suc 0) (LABEL_HEAD, RANK_OPTIMISTIC) empty_results = Inr r"
    by (intro finalize_pair_ok) simp
  then obtain r where 1: "finalize_pair micro_single_state (Suc 0) (LABEL_HEAD, RANK_OPTIMISTIC) empty_results = Inr r"
    by blast
  have 2: "finalize_pair micro_single_state (Suc 0) (LABEL_HEAD, RANK_REALISTIC) r = Inl ZeroDivisionError"
    by (subst finalize_pair_adjusted) (simp_all add: micro_single_ranks np_mean_def)
  have "for_each (finalize_pair micro_single_state 1) (List.product SIDES RANK_TYPES) empty_results
          = Inl ZeroDivisionError"
    by (simp add: SIDES_def RANK_TYPES_def 1 2)
  moreover have "self_num_entities micro_single_state = Some 1"
    by (simp add: micro_single_state_def)
  ultimately have "finalize micro_single_state = Inl ZeroDivisionError"
    by (simp add: finalize_def)
  with micro_single_reached micro_single_ranks show ?thesis
    by blast
qed

text \<open>
  The failure in general: when the candidate count is known and, on some side, the
  realistic and the expected-realistic buffer hold observations and the mean of the
  expected ranks is 0 or 1, \<^verbatim>\<open>finalize\<close> raises \<^verbatim>\<open>ZeroDivisionError\<close> and returns no
  results.
\<close>

lemma for_each_fails:
  assumes "x \<in> set xs" and "\<And>a. body x a = Inl e" and "\<And>y a e'. body y a = Inl e' \<Longrightarrow> e' = e"
  shows "for_each body xs acc = Inl e"
  using assms(1)
proof (induction xs arbitrary: acc)
  case Nil
  then show ?case by simp
next
  case (Cons y ys)
  show ?case
  proof (cases "body y acc")
    case (Inl e')
    with assms(3) show ?thesis by simp
  next
    case (Inr a)
    with assms(2) have "y \<noteq> x" by auto
    with Cons.prems have "x \<in> set ys" by simp
    from Cons.IH [OF this] Inr show ?thesis by simp
  qed
qed

lemma finalize_pair_error:
  assumes "finalize_pair self n p res = Inl e"
  shows "e = ZeroDivisionError"
proof -
  obtain s t where p: "p = (s, t)" by (cases p)
  show ?thesis
  proof (cases "get_ranks self s t = []")
    case True
    with assms show ?thesis by (simp add: p finalize_pair_skip)
  next
    case False
    show ?thesis
    proof (cases "t \<noteq> RANK_REALISTIC \<or> get_ranks self s RANK_EXPECTED_REALISTIC = []")
      case True
      from assms show ?thesis
        unfolding p finalize_pair_plain [OF False True] by simp
    next
      case c: False
      with False have r: "get_ranks self s RANK_REALISTIC \<noteq> []"
        and x: "get_ranks self s RANK_EXPECTED_REALISTIC \<noteq> []" and t: "t = RANK_REALISTIC"
        by auto
      from assms show ?thesis
        unfolding p t finalize_pair_adjusted [OF r x] by (simp add: Let_def split: if_splits)
    qed
  qed
qed

lemma finalize_division_by_zero:
  assumes "self_num_entities self = Some n" and "s \<in> set SIDES"
    and "get_ranks self s RANK_REALISTIC \<noteq> []" and "get_ranks self s RANK_EXPECTED_REALISTIC \<noteq> []"
    and "np_mean (get_ranks self s RANK_EXPECTED_REALISTIC) = 0
         \<or> np_mean (get_ranks self s RANK_EXPECTED_REALISTIC) = 1"
  shows "finalize self = Inl ZeroDivisionError"
proof -
  have "for_each (finalize_pair self n) (List.product SIDES RANK_TYPES) empty_results
      = Inl ZeroDivisionError"
  proof (rule for_each_fails [where x = "(s, RANK_REALISTIC)"])
    from assms(2) show "(s, RANK_REALISTIC) \<in> set (List.product SIDES RANK_TYPES)"
      by (simp add: RANK_TYPES_def)
  next
    fix a
    from assms(5) show "finalize_pair self n (s, RANK_REALISTIC) a = Inl ZeroDivisionError"
      by (simp add: finalize_pair_adjusted [OF assms(3,4)])
  next
    fix y a e'
    assume "finalize_pair self n y a = Inl e'"
    then show "e' = ZeroDivisionError"
      by (rule finalize_pair_error)
  qed
  with assms(1) show ?thesis
    by (simp add: finalize_def)
qed

subsection \<open>Macro weights\<close>

lemma index_of_nth:
  "x \<in> set xs \<Longrightarrow> index_of xs x < length xs \<and> xs ! index_of xs x = x"
  by (induction xs) (auto simp: index_of_def)

lemma set_np_unique: "set (np_unique keys) = set keys"
  by (simp add: np_unique_def)

lemma macro_weights_eq:
  "macro_weights keys = map (\<lambda>key. inverse (real (count_list keys key))) keys"
proof -
  have "map (\<lambda>c. inverse (real c)) (unique_counts keys) ! index_of (np_unique keys) key
          = inverse (real (count_list keys key))" if "key \<in> set keys" for key
  proof -
    from that have "key \<in> set (np_unique keys)"
      by (simp add: set_np_unique)
    from index_of_nth [OF this] show ?thesis
      by (simp add: unique_counts_def)
  qed
  then show ?thesis
    by (simp add: macro_weights_def unique_inverse_def)
qed

lemma group_sum:
  fixes G :: "'z \<Rightarrow> real"
  shows "sum_list (map G zs) = (\<Sum>key\<in>h ` set zs. sum_list (map G (filter (\<lambda>z. h z = key) zs)))"
proof (induction zs)
  case Nil
  then show ?case by simp
next
  case (Cons z zs)
  let ?K = "h ` set zs"
  let ?S = "\<lambda>key. sum_list (map G (filter (\<lambda>z. h z = key) zs))"
  have fin: "finite (insert (h z) ?K)" by simp
  have zero: "?S (h z) = 0" if "h z \<notin> ?K"
  proof -
    from that have "\<forall>y\<in>set zs. h y \<noteq> h z"
      by (metis imageI)
    then have "filter (\<lambda>y. h y = h z) zs = []"
      by (simp add: filter_empty_conv)
    then show ?thesis by simp
  qed
  have "(\<Sum>key\<in>h ` set (z # zs). sum_list (map G (filter (\<lambda>y. h y = key) (z # zs))))
        = (\<Sum>key\<in>insert (h z) ?K. (if key = h z then G z else 0) + ?S key)"
    by (intro sum.cong) auto
  also have "\<dots> = (\<Sum>key\<in>insert (h z) ?K. (if key = h z then G z else 0)) + (\<Sum>key\<in>insert (h z) ?K. ?S key)"
    by (rule sum.distrib)
  also have "(\<Sum>key\<in>insert (h z) ?K. (if key = h z then G z else 0)) = G z"
    using fin by (simp add: sum.delta' del: sum.insert)
  also have "(\<Sum>key\<in>insert (h z) ?K. ?S key) = (\<Sum>key\<in>?K. ?S key)"
  proof (cases "h z \<in> ?K")
    case True
    then show ?thesis by (simp add: insert_absorb)
  next
    case False
    then show ?thesis by (simp add: zero)
  qed
  finally show ?case
    by (simp add: Cons.IH)
qed

lemma sum_list_by_key:
  fixes f :: "'k \<Rightarrow> real"
  shows "sum_list (map f ks) = (\<Sum>key\<in>set ks. real (count_list ks key) * f key)"
proof -
  have "sum_list (map f (filter (\<lambda>z. z = key) ks)) = real (count_list ks key) * f key" for key
    by (induction ks) (auto simp: algebra_simps)
  with group_sum [of f ks "\<lambda>z. z"] show ?thesis
    by simp
qed

lemma map2_weights:
  fixes f :: "'k \<Rightarrow> real"
  shows "length ranks = length keys
    \<Longrightarrow> map2 (*) ranks (map f keys) = map (\<lambda>(key, r). r * f key) (zip keys ranks)"
  by (induction ranks keys rule: list_induct2) simp_all

lemma length_key_ranks:
  "length ranks = length keys
    \<Longrightarrow> length (filter (\<lambda>(k, r). k = key) (zip keys ranks)) = count_list keys key"
  by (induction ranks keys rule: list_induct2) simp_all

lemma sum_key_ranks:
  fixes f :: "'k \<Rightarrow> real"
  shows "sum_list (map (\<lambda>(k, r). r * f k) (filter (\<lambda>z. fst z = key) zs))
    = f key * sum_list (map snd (filter (\<lambda>(k, r). k = key) zs))"
  by (induction zs) (auto simp: algebra_simps)

lemma sum_weights_per_key:
  fixes f :: "'k \<Rightarrow> real"
  shows "sum_list (map snd (filter (\<lambda>(k, w). k = key) (zip ks (map f ks)))) = real (count_list ks key) * f key"
  by (induction ks) (auto simp: algebra_simps)

lemma macro_weights_sum:
  assumes "keys \<noteq> []"
  shows "sum_list (macro_weights keys) = real (length (remdups keys))"
proof -
  have "sum_list (macro_weights keys)
      = (\<Sum>key\<in>set keys. real (count_list keys key) * inverse (real (count_list keys key)))"
    unfolding macro_weights_eq by (rule sum_list_by_key)
  also have "\<dots> = (\<Sum>key\<in>set keys. 1)"
    by (intro sum.cong refl) (simp add: count_list_0_iff)
  also have "\<dots> = real (card (set keys))"
    by simp
  finally show ?thesis
    by (simp add: length_remdups_card_conv)
qed

lemma macro_weighted_sum:
  assumes "length ranks = length keys"
  shows "sum_list (map2 (*) ranks (macro_weights keys))
     = sum_list (map (\<lambda>key. np_mean (map snd (filter (\<lambda>(k, r). k = key) (zip keys ranks)))) (remdups keys))"
proof -
  let ?f = "\<lambda>key. inverse (real (count_list keys key))"
  let ?zs = "zip keys ranks"
  have "sum_list (map2 (*) ranks (macro_weights keys)) = sum_list (map (\<lambda>(key, r). r * ?f key) ?zs)"
    by (simp only: macro_weights_eq map2_weights [OF assms])
  also have "\<dots> = (\<Sum>key\<in>fst ` set ?zs. sum_list (map (\<lambda>(key, r). r * ?f key) (filter (\<lambda>z. fst z = key) ?zs)))"
    by (rule group_sum)
  also have "fst ` set ?zs = set keys"
    using assms by (metis list.set_map map_fst_zip order_refl)
  also have "(\<Sum>key\<in>set keys. sum_list (map (\<lambda>(key, r). r * ?f key) (filter (\<lambda>z. fst z = key) ?zs)))
      = (\<Sum>key\<in>set keys. np_mean (map snd (filter (\<lambda>(k, r). k = key) ?zs)))"
    by (intro sum.cong refl)
       (simp add: sum_key_ranks np_mean_def length_key_ranks [OF assms] divide_inverse mult.commute)
  also have "\<dots> = sum_list (map (\<lambda>key. np_mean (map snd (filter (\<lambda>(k, r). k = key) ?zs))) (remdups keys))"
    by (simp add: sum_list_distinct_conv_sum_set)
  finally show ?thesis .
qed

text \<open>
  Ingestion keeps the keys and the ranks of a target aligned: a batch appends one key for
  every row of the batch to the keys of the target, and the ranks of the batch to the
  buffer of the target for every rank type.
\<close>

lemma foldl_extend_other:
  "rank_type \<notin> fst ` set bs
    \<Longrightarrow> foldl (\<lambda>d (rt, v). extend_at d (target, rt) v) d bs (target, rank_type) = d (target, rank_type)"
  by (induction bs arbitrary: d) (auto simp: extend_at_def)

lemma foldl_extend_at:
  assumes "distinct (map fst bs)" and "(rank_type, v) \<in> set bs"
  shows "foldl (\<lambda>d (rt, v). extend_at d (target, rt) v) d bs (target, rank_type)
     = Some ((case d (target, rank_type) of None \<Rightarrow> [] | Some old \<Rightarrow> old) @ v)"
  using assms
proof (induction bs arbitrary: d)
  case Nil
  then show ?case by simp
next
  case (Cons a bs)
  obtain rt w where a: "a = (rt, w)" by (cases a)
  show ?case
  proof (cases "(rank_type, v) \<in> set bs")
    case True
    then have "rank_type \<in> fst ` set bs"
      by (metis fst_conv imageI)
    with Cons.prems have "rt \<noteq> rank_type"
      by (auto simp: a)
    with Cons.IH [OF _ True, of "extend_at d (target, rt) w"] Cons.prems(1) show ?thesis
      by (simp add: a extend_at_def)
  next
    case False
    with Cons.prems have eq: "rt = rank_type" "w = v" and "rank_type \<notin> fst ` set bs"
      by (auto simp: a)
    then show ?thesis
      by (simp add: a foldl_extend_other) (simp add: extend_at_def)
  qed
qed

lemma macro_process_scores_appends:
  assumes "macro_process_scores hrt_batch target shape1 batch_ranks true_scores self = Inr self'"
    and "target = LABEL_HEAD \<or> target = LABEL_TAIL"
    and "distinct (map fst batch_ranks)" and "(rank_type, v) \<in> set batch_ranks"
  shows "\<exists>keys idx. get_keys self target = Inr keys \<and> TARGET_TO_INDEX target = Some idx
     \<and> get_keys self' target = Inr (keys @ map (key_columns idx) hrt_batch)
     \<and> get_ranks self' target rank_type = get_ranks self target rank_type @ v"
proof -
  from assms(2) obtain idx where idx: "TARGET_TO_INDEX target = Some idx"
    by (auto simp: TARGET_TO_INDEX_def typing_defs)
  from assms(1) idx have s: "self' = self\<lparr>self_num_entities := Some shape1,
      self_ranks := foldl (\<lambda>d (rank_type, v). extend_at d (target, rank_type) v) (self_ranks self) batch_ranks,
      self_keys := extend_at (self_keys self) target (map (key_columns idx) hrt_batch)\<rparr>"
    by (auto simp: macro_process_scores_def process_scores_def bind_err_Inr_iff split: if_splits)
  from assms(2) have nb: "target \<noteq> SIDE_BOTH"
    by (auto simp: typing_defs)
  from assms(2) have k: "get_keys self' target
      = Inr ((case self_keys self target of None \<Rightarrow> [] | Some ks \<Rightarrow> ks) @ map (key_columns idx) hrt_batch)"
    and k0: "get_keys self target = Inr (case self_keys self target of None \<Rightarrow> [] | Some ks \<Rightarrow> ks)"
    unfolding s by (auto simp: get_keys_def keys_of_def extend_at_def typing_defs)
  from nb have "get_ranks self' target rank_type = get_ranks self target rank_type @ v"
    unfolding s by (simp add: get_ranks_def ranks_get_def foldl_extend_at [OF assms(3,4)])
  with k k0 idx show ?thesis
    by simp
qed

lemma macro_weights_np_average:
  assumes "length ranks = length keys" and "keys \<noteq> []"
  shows "np_average ranks (macro_weights keys)
        = Inr (sum_list (map (\<lambda>key. np_mean (map snd (filter (\<lambda>(k, r). k = key) (zip keys ranks))))
                             (remdups keys))
               / real (length (remdups keys)))"
proof -
  from assms(2) have "remdups keys \<noteq> []"
    by simp
  then have "sum_list (macro_weights keys) \<noteq> 0"
    by (simp add: macro_weights_sum [OF assms(2)])
  moreover have "length (macro_weights keys) = length keys"
    by (simp add: macro_weights_eq)
  ultimately show ?thesis
    by (simp add: np_average_def macro_weighted_sum [OF assms(1)] macro_weights_sum [OF assms(2)] assms(1))
qed

lemma macro_weights_per_key:
  "key \<in> set keys
    \<Longrightarrow> sum_list (map snd (filter (\<lambda>(k, w). k = key) (zip keys (macro_weights keys)))) = 1"
  by (simp add: macro_weights_eq sum_weights_per_key count_list_0_iff)

lemma macro_rank_type_frame:
  assumes "macro_finalize_rank_type self n s ws t a = Inr b" and "(side, rank_type) \<noteq> (s, t)"
  shows "data b (m, side, rank_type) = data a (m, side, rank_type)"
proof (cases "length (get_ranks self s t) < 1")
  case True
  with assms(1) show ?thesis
    by (simp add: macro_finalize_rank_type_def Let_def split: if_splits)
next
  case False
  with assms(1) obtain hits ms where
    "b = write_metrics s t ms (a\<lparr>hits_at_k := (hits_at_k a)((s, t) \<mapsto> hits)\<rparr>)"
    by (auto simp: macro_finalize_rank_type_def Let_def bind_err_Inr_iff split: if_splits)
  with assms(2) show ?thesis
    by (simp add: data_write_metrics_other)
qed

lemma macro_metrics_mean:
  assumes "get_macro_ranking_metrics ranks ws = Inr ms"
  shows "\<exists>mean. np_average ranks ws = Inr mean \<and> distinct (map fst ms)
     \<and> (ARITHMETIC_MEAN_RANK, Float mean) \<in> set ms"
  using assms
  by (auto simp: get_macro_ranking_metrics_def bind_err_Inr_iff name_defs)

lemma macro_rank_type_result:
  assumes "macro_finalize_rank_type self n side ws rank_type a = Inr b"
  shows "length (get_ranks self side rank_type) = length ws
    \<and> (get_ranks self side rank_type \<noteq> [] \<longrightarrow>
         (\<exists>mean. np_average (get_ranks self side rank_type) ws = Inr mean
            \<and> data b (ARITHMETIC_MEAN_RANK, side, rank_type) = Some (Float mean)))"
proof (intro conjI impI)
  from assms show l: "length (get_ranks self side rank_type) = length ws"
    by (simp add: macro_finalize_rank_type_def Let_def split: if_splits)
  assume "get_ranks self side rank_type \<noteq> []"
  then have "\<not> length (get_ranks self side rank_type) < 1"
    by (cases "get_ranks self side rank_type") simp_all
  with assms l obtain hits ms where
    ms: "get_macro_ranking_metrics (get_ranks self side rank_type) ws = Inr ms" and
    b: "b = write_metrics side rank_type ms (a\<lparr>hits_at_k := (hits_at_k a)((side, rank_type) \<mapsto> hits)\<rparr>)"
    by (auto simp: macro_finalize_rank_type_def Let_def bind_err_Inr_iff)
  from macro_metrics_mean [OF ms] obtain mean where
    mean: "np_average (get_ranks self side rank_type) ws = Inr mean" and d: "distinct (map fst ms)"
    and i: "(ARITHMETIC_MEAN_RANK, Float mean) \<in> set ms"
    by blast
  from data_write_metrics_first [OF d i] mean
  show "\<exists>mean. np_average (get_ranks self side rank_type) ws = Inr mean
            \<and> data b (ARITHMETIC_MEAN_RANK, side, rank_type) = Some (Float mean)"
    unfolding b by blast
qed

lemma macro_side_frame:
  assumes "macro_finalize_side self n s a = Inr b" and "side \<noteq> s"
  shows "data b (m, side, rank_type) = data a (m, side, rank_type)"
proof -
  from assms(1) obtain keys where
    loop: "for_each (macro_finalize_rank_type self n s (macro_weights keys)) RANK_TYPES a = Inr b"
    by (auto simp: macro_finalize_side_def bind_err_Inr_iff)
  show ?thesis
  proof (rule for_each_invariant [OF loop, of "\<lambda>r. data r (m, side, rank_type) = data a (m, side, rank_type)"])
    show "data a (m, side, rank_type) = data a (m, side, rank_type)" ..
  next
    fix t c d
    assume "macro_finalize_rank_type self n s (macro_weights keys) t c = Inr d"
      and "data c (m, side, rank_type) = data a (m, side, rank_type)"
    with macro_rank_type_frame [of self n s "macro_weights keys" t c d side rank_type m] assms(2)
    show "data d (m, side, rank_type) = data a (m, side, rank_type)"
      by simp
  qed
qed

lemma rank_types_distinct: "distinct RANK_TYPES"
  by (simp add: typing_defs)

lemma sides_distinct: "distinct SIDES"
  by (simp add: typing_defs)

lemma macro_side_result:
  assumes "macro_finalize_side self n side a = Inr b" and "rank_type \<in> set RANK_TYPES"
  shows "\<exists>keys. get_keys self side = Inr keys
    \<and> length (get_ranks self side rank_type) = length keys
    \<and> (get_ranks self side rank_type \<noteq> [] \<longrightarrow>
         (\<exists>mean. np_average (get_ranks self side rank_type) (macro_weights keys) = Inr mean
            \<and> data b (ARITHMETIC_MEAN_RANK, side, rank_type) = Some (Float mean)))"
proof -
  from assms(1) obtain keys where keys: "get_keys self side = Inr keys" and
    loop: "for_each (macro_finalize_rank_type self n side (macro_weights keys)) RANK_TYPES a = Inr b"
    by (auto simp: macro_finalize_side_def bind_err_Inr_iff)
  let ?Q = "\<lambda>r. length (get_ranks self side rank_type) = length (macro_weights keys)
    \<and> (get_ranks self side rank_type \<noteq> [] \<longrightarrow>
         (\<exists>mean. np_average (get_ranks self side rank_type) (macro_weights keys) = Inr mean
            \<and> data r (ARITHMETIC_MEAN_RANK, side, rank_type) = Some (Float mean)))"
  have "?Q b"
  proof (rule for_each_last_write [OF loop assms(2) rank_types_distinct, of ?Q])
    fix c d
    assume "macro_finalize_rank_type self n side (macro_weights keys) rank_type c = Inr d"
    then show "?Q d"
      by (rule macro_rank_type_result)
  next
    fix t c d
    assume "t \<noteq> rank_type" and "macro_finalize_rank_type self n side (macro_weights keys) t c = Inr d"
      and "?Q c"
    with macro_rank_type_frame [of self n side "macro_weights keys" t c d side rank_type ARITHMETIC_MEAN_RANK]
    show "?Q d"
      by simp
  qed
  moreover have "length (macro_weights keys) = length keys"
    by (simp add: macro_weights_eq)
  ultimately show ?thesis
    using keys by simp
qed

lemma macro_finalize_result:
  assumes "macro_finalize self = Inr (res, self')"
    and "side \<in> set SIDES" and "rank_type \<in> set RANK_TYPES"
  shows "\<exists>keys. get_keys self side = Inr keys
    \<and> length (get_ranks self side rank_type) = length keys
    \<and> (get_ranks self side rank_type \<noteq> [] \<longrightarrow>
         (\<exists>mean. np_average (get_ranks self side rank_type) (macro_weights keys) = Inr mean
            \<and> data res (ARITHMETIC_MEAN_RANK, side, rank_type) = Some (Float mean)))"
proof -
  from assms(1) obtain n where
    loop: "for_each (macro_finalize_side self n) SIDES empty_results = Inr res"
    by (auto simp: macro_finalize_def bind_err_Inr_iff split: option.splits)
  let ?Q = "\<lambda>r. \<exists>keys. get_keys self side = Inr keys
    \<and> length (get_ranks self side rank_type) = length keys
    \<and> (get_ranks self side rank_type \<noteq> [] \<longrightarrow>
         (\<exists>mean. np_average (get_ranks self side rank_type) (macro_weights keys) = Inr mean
            \<and> data r (ARITHMETIC_MEAN_RANK, side, rank_type) = Some (Float mean)))"
  show "?Q res"
  proof (rule for_each_last_write [OF loop assms(2) sides_distinct, of ?Q])
    fix c d
    assume "macro_finalize_side self n side c = Inr d"
    then show "?Q d"
      using assms(3) by (rule macro_side_result)
  next
    fix s c d
    assume "s \<noteq> side" and "macro_finalize_side self n s c = Inr d" and "?Q c"
    with macro_side_frame [of self n s c d side ARITHMETIC_MEAN_RANK rank_type]
    show "?Q d"
      by simp
  qed
qed

lemma get_keys_both:
  assumes "get_keys self LABEL_HEAD = Inr hk" and "get_keys self LABEL_TAIL = Inr tk"
  shows "get_keys self SIDE_BOTH = Inr (hk @ tk)"
  using assms by (simp add: get_keys_def typing_defs)

lemma get_ranks_both:
  "get_ranks self SIDE_BOTH rank_type
     = get_ranks self LABEL_HEAD rank_type @ get_ranks self LABEL_TAIL rank_type"
  by (simp add: get_ranks_def typing_defs)

text \<open>
  C5. When \<^verbatim>\<open>MacroRankBasedEvaluator.finalize\<close> returns results, then for every side and
  rank type with observations: the keys of the side are as many as the ranks, key and rank
  of one observation at the same position (on the side \<open>both\<close> the keys and the ranks of
  \<open>head\<close> come first, then those of \<open>tail\<close>); every observation has the weight 1 over
  the number of observations of the side with its key; the weights of the observations of
  one key sum to 1; and the arithmetic mean rank that the results hold for the side and the
  rank type is the plain average, over the distinct keys, of the mean rank of each key.
  Keys are compared as pairs of numbers, as \<^verbatim>\<open>np.unique\<close> does: on the side \<open>both\<close> a
  key of \<open>head\<close> and a key of \<open>tail\<close> with the same two numbers are one key.
  Arithmetic is exact.
\<close>

theorem macro_finalize_weights:
  assumes "macro_finalize self = Inr (res, self')"
    and "side \<in> set SIDES" and "rank_type \<in> set RANK_TYPES"
    and "get_ranks self side rank_type \<noteq> []"
  shows "\<exists>keys hk tk.
      get_keys self side = Inr keys
    \<and> length keys = length (get_ranks self side rank_type)
    \<and> get_keys self LABEL_HEAD = Inr hk
    \<and> length hk = length (get_ranks self LABEL_HEAD rank_type)
    \<and> get_keys self LABEL_TAIL = Inr tk
    \<and> length tk = length (get_ranks self LABEL_TAIL rank_type)
    \<and> get_keys self SIDE_BOTH = Inr (hk @ tk)
    \<and> get_ranks self SIDE_BOTH rank_type
        = get_ranks self LABEL_HEAD rank_type @ get_ranks self LABEL_TAIL rank_type
    \<and> macro_weights keys = map (\<lambda>key. 1 / real (count_list keys key)) keys
    \<and> (\<forall>key\<in>set keys.
          sum_list (map snd (filter (\<lambda>(k, w). k = key) (zip keys (macro_weights keys)))) = 1)
    \<and> data res (ARITHMETIC_MEAN_RANK, side, rank_type)
        = Some (Float (sum_list (map (\<lambda>key. np_mean (map snd (filter (\<lambda>(k, r). k = key)
                                                  (zip keys (get_ranks self side rank_type)))))
                                     (remdups keys))
                       / real (length (remdups keys))))"
proof -
  let ?ranks = "get_ranks self side rank_type"
  from macro_finalize_result [OF assms(1-3)] assms(4) obtain keys mean where
    keys: "get_keys self side = Inr keys" and l: "length ?ranks = length keys"
    and mean: "np_average ?ranks (macro_weights keys) = Inr mean"
    and d: "data res (ARITHMETIC_MEAN_RANK, side, rank_type) = Some (Float mean)"
    by blast
  from l assms(4) have ne: "keys \<noteq> []"
    by auto
  have "LABEL_HEAD \<in> set SIDES" "LABEL_TAIL \<in> set SIDES"
    by (simp_all add: SIDES_def)
  note sides = this
  from macro_finalize_result [OF assms(1) sides(1) assms(3)] obtain hk where
    hk: "get_keys self LABEL_HEAD = Inr hk" "length (get_ranks self LABEL_HEAD rank_type) = length hk"
    by blast
  from macro_finalize_result [OF assms(1) sides(2) assms(3)] obtain tk where
    tk: "get_keys self LABEL_TAIL = Inr tk" "length (get_ranks self LABEL_TAIL rank_type) = length tk"
    by blast
  have w: "macro_weights keys = map (\<lambda>key. 1 / real (count_list keys key)) keys"
    by (simp add: macro_weights_eq inverse_eq_divide)
  have one: "\<forall>key\<in>set keys.
          sum_list (map snd (filter (\<lambda>(k, w). k = key) (zip keys (macro_weights keys)))) = 1"
    by (simp add: macro_weights_per_key)
  from macro_weights_np_average [OF l ne] mean d
  have v: "data res (ARITHMETIC_MEAN_RANK, side, rank_type)
        = Some (Float (sum_list (map (\<lambda>key. np_mean (map snd (filter (\<lambda>(k, r). k = key)
                                                  (zip keys ?ranks))))
                                     (remdups keys))
                       / real (length (remdups keys))))"
    by simp
  from keys l hk tk get_keys_both [OF hk(1) tk(1)] get_ranks_both [of self rank_type] w one v
  show ?thesis
    by (intro exI [of _ keys] exI [of _ hk] exI [of _ tk]) simp
qed

text \<open>
  The example: finalize returns results; on the side \<open>head\<close> the weights are 1/3, 1/3,
  1/3 and 1 and the mean rank is \<open>(2 + 10) / 2 = 6\<close>, where the plain mean of the ranks
  is 4; on the side \<open>both\<close> the key \<open>(5, 2)\<close> has four observations.
\<close>

lemma macro_skewed_example_eq: "macro_skewed_example = Inr macro_skewed_state"
  by (simp add: macro_skewed_example_def macro_skewed_state_def MacroRankBasedEvaluator_init_def
      RankBasedEvaluator_init_def macro_process_scores_def process_scores_def bind_err_def
      RankBasedEvaluator.extend_def skewed_head_batch_def skewed_tail_batch_def extend_at_def
      TARGET_TO_INDEX_def key_columns_def typing_defs)

lemma macro_skewed_keys:
  "get_keys macro_skewed_state ''head'' = Inr [(5, 2), (5, 2), (5, 2), (3, 4)]"
  "get_keys macro_skewed_state ''tail'' = Inr [(5, 2), (8, 9)]"
  "get_keys macro_skewed_state ''both'' = Inr [(5, 2), (5, 2), (5, 2), (3, 4), (5, 2), (8, 9)]"
  by (simp_all add: get_keys_def keys_of_def macro_skewed_state_def typing_defs)

lemma macro_skewed_ranks:
  assumes "t \<in> set RANK_TYPES"
  shows "get_ranks macro_skewed_state ''head'' t = [1, 2, 3, 10]"
    and "get_ranks macro_skewed_state ''tail'' t = [4, 6]"
    and "get_ranks macro_skewed_state ''both'' t = [1, 2, 3, 10, 4, 6]"
  using assms by (auto simp add: macro_skewed_state_def get_ranks_def ranks_get_def typing_defs)

lemma macro_skewed_weights:
  "macro_weights [(5, 2), (5, 2), (5, 2), (3, 4)] = [1 / 3, 1 / 3, 1 / 3, 1]"
  "macro_weights [(5, 2), (8, 9)] = [1, 1]"
  "macro_weights [(5, 2), (5, 2), (5, 2), (3, 4), (5, 2), (8, 9)] = [1 / 4, 1 / 4, 1 / 4, 1, 1 / 4, 1]"
  by (simp_all add: macro_weights_eq inverse_eq_divide)

lemma macro_skewed_medians:
  "weighted_median [1, 2, 3, 10] [1 / 3, 1 / 3, 1 / 3, 1] = Inr 10"
  "weighted_median [4, 6] [1, 1] = Inr 6"
  "weighted_median [1, 2, 3, 10, 4, 6] [1 / 4, 1 / 4, 1 / 4, 1, 1 / 4, 1] = Inr 10"
  by (simp_all add: median_defs upt_rec)

lemma macro_metrics_ok:
  assumes "length ranks = length ws" and "sum_list ws \<noteq> 0" and "weighted_median ranks ws = Inr m"
  shows "\<exists>ms. get_macro_ranking_metrics ranks ws = Inr ms"
  using assms by (simp add: get_macro_ranking_metrics_def np_average_def)

lemma macro_skewed_side:
  assumes "s \<in> set SIDES"
  shows "\<exists>res'. macro_finalize_side macro_skewed_state 12 s res = Inr res'"
proof -
  from assms consider "s = ''head''" | "s = ''tail''" | "s = ''both''"
    by (auto simp: typing_defs)
  then show ?thesis
  proof cases
    case 1
    have "\<exists>res'. for_each (macro_finalize_rank_type macro_skewed_state 12 ''head'' [1 / 3, 1 / 3, 1 / 3, 1])
             RANK_TYPES res = Inr res'"
    proof (rule for_each_ok)
      fix t acc
      assume t: "t \<in> set RANK_TYPES"
      from macro_metrics_ok [OF _ _ macro_skewed_medians(1)] obtain ms where
        "get_macro_ranking_metrics [1, 2, 3, 10] [1 / 3, 1 / 3, 1 / 3, 1] = Inr ms"
        by auto
      then show "\<exists>acc'. macro_finalize_rank_type macro_skewed_state 12 ''head'' [1 / 3, 1 / 3, 1 / 3, 1] t acc = Inr acc'"
        by (intro macro_rank_type_ok [where ms = ms]) (simp_all add: macro_skewed_ranks [OF t])
    qed
    then show ?thesis
      by (simp add: 1 macro_finalize_side_def macro_skewed_keys macro_skewed_weights)
  next
    case 2
    have "\<exists>res'. for_each (macro_finalize_rank_type macro_skewed_state 12 ''tail'' [1, 1])
             RANK_TYPES res = Inr res'"
    proof (rule for_each_ok)
      fix t acc
      assume t: "t \<in> set RANK_TYPES"
      from macro_metrics_ok [OF _ _ macro_skewed_medians(2)] obtain ms where
        "get_macro_ranking_metrics [4, 6] [1, 1] = Inr ms"
        by auto
      then show "\<exists>acc'. macro_finalize_rank_type macro_skewed_state 12 ''tail'' [1, 1] t acc = Inr acc'"
        by (intro macro_rank_type_ok [where ms = ms]) (simp_all add: macro_skewed_ranks [OF t])
    qed
    then show ?thesis
      by (simp add: 2 macro_finalize_side_def macro_skewed_keys macro_skewed_weights)
  next
    case 3
    have "\<exists>res'. for_each (macro_finalize_rank_type macro_skewed_state 12 ''both'' [1 / 4, 1 / 4, 1 / 4, 1, 1 / 4, 1])
             RANK_TYPES res = Inr res'"
    proof (rule for_each_ok)
      fix t acc
      assume t: "t \<in> set RANK_TYPES"
      from macro_metrics_ok [OF _ _ macro_skewed_medians(3)] obtain ms where
        "get_macro_ranking_metrics [1, 2, 3, 10, 4, 6] [1 / 4, 1 / 4, 1 / 4, 1, 1 / 4, 1] = Inr ms"
        by auto
      then show "\<exists>acc'. macro_finalize_rank_type macro_skewed_state 12 ''both'' [1 / 4, 1 / 4, 1 / 4, 1, 1 / 4, 1] t acc = Inr acc'"
        by (intro macro_rank_type_ok [where ms = ms]) (simp_all add: macro_skewed_ranks [OF t])
    qed
    then show ?thesis
      by (simp add: 3 macro_finalize_side_def macro_skewed_keys macro_skewed_weights)
  qed
qed

lemma macro_skewed_finalize: "\<exists>res ev. macro_finalize macro_skewed_state = Inr (res, ev)"
proof -
  have "\<exists>res. for_each (macro_finalize_side macro_skewed_state 12) SIDES empty_results = Inr res"
    by (rule for_each_ok) (rule macro_skewed_side)
  then show ?thesis
    by (auto simp: macro_finalize_def macro_skewed_state_def)
qed

theorem macro_finalize_weights_witness:
  "macro_skewed_example = Inr macro_skewed_state
   \<and> ''head'' \<in> set SIDES \<and> ''both'' \<in> set SIDES \<and> ''realistic'' \<in> set RANK_TYPES
   \<and> get_ranks macro_skewed_state ''head'' ''realistic'' = [1, 2, 3, 10]
   \<and> get_ranks macro_skewed_state ''both'' ''realistic'' = [1, 2, 3, 10, 4, 6]
   \<and> get_keys macro_skewed_state ''head'' = Inr [(5, 2), (5, 2), (5, 2), (3, 4)]
   \<and> get_keys macro_skewed_state ''both'' = Inr [(5, 2), (5, 2), (5, 2), (3, 4), (5, 2), (8, 9)]
   \<and> macro_weights [(5, 2), (5, 2), (5, 2), (3, 4)] = [1 / 3, 1 / 3, 1 / 3, 1]
   \<and> macro_weights [(5, 2), (5, 2), (5, 2), (3, 4), (5, 2), (8, 9)] = [1 / 4, 1 / 4, 1 / 4, 1, 1 / 4, 1]
   \<and> (\<exists>res ev. macro_finalize macro_skewed_state = Inr (res, ev)
        \<and> data res (ARITHMETIC_MEAN_RANK, ''head'', ''realistic'') = Some (Float 6)
        \<and> data res (ARITHMETIC_MEAN_RANK, ''both'', ''realistic'') = Some (Float (37 / 6)))
   \<and> np_mean [1, 2, 3, 10] = 4 \<and> np_mean [1, 2, 3, 10, 4, 6] = 13 / 3"
proof -
  have t: "''realistic'' \<in> set RANK_TYPES" and h: "''head'' \<in> set SIDES" and b: "''both'' \<in> set SIDES"
    by (simp_all add: typing_defs)
  note rh = macro_skewed_ranks(1) [OF t] and rb = macro_skewed_ranks(3) [OF t]
  from macro_skewed_finalize obtain res ev where r: "macro_finalize macro_skewed_state = Inr (res, ev)"
    by blast
  from macro_finalize_weights [OF r h t] rh
  have "data res (ARITHMETIC_MEAN_RANK, ''head'', ''realistic'') = Some (Float 6)"
    by (auto simp add: macro_skewed_keys np_mean_def)
  moreover from macro_finalize_weights [OF r b t] rb
  have "data res (ARITHMETIC_MEAN_RANK, ''both'', ''realistic'') = Some (Float (37 / 6))"
    by (auto simp add: macro_skewed_keys np_mean_def)
  moreover have "np_mean [1, 2, 3, 10] = 4" "np_mean [1, 2, 3, 10, 4, 6] = 13 / 3"
    by (simp_all add: np_mean_def)
  ultimately show ?thesis
    using t h b rh rb r macro_skewed_example_eq macro_skewed_keys(1,3) macro_skewed_weights(1,3)
    by (intro conjI exI [of _ res] exI [of _ ev]) simp_all
qed

subsection \<open>The grammar of metric specifications\<close>

lemma find_SomeD:
  "find P xs = Some x \<Longrightarrow> P x \<and> x \<in> set xs"
  by (induction xs) (auto split: if_splits)

lemma opt_group_in:
  "opt_group alts s = (g, r) \<Longrightarrow> g = None \<or> (\<exists>x\<in>set alts. g = Some x)"
proof (cases g)
  case None
  then show ?thesis by simp
next
  case (Some a)
  assume "opt_group alts s = (g, r)"
  with Some obtain t where "find (startswith t) alts = Some a"
    by (auto simp: opt_group_def split: list.splits if_splits option.splits)
  from find_SomeD [OF this] Some show ?thesis
    by simp
qed

lemma all_digits_takeWhile: "list_all is_digit (takeWhile is_digit t)"
  by (auto simp: list_all_iff dest: set_takeWhileD)

lemma opt_digits_digits:
  "opt_digits s = (g, r) \<Longrightarrow> g = None \<or> (\<exists>d. g = Some d \<and> d \<noteq> [] \<and> list_all is_digit d)"
  by (auto simp: opt_digits_def all_digits_takeWhile split: list.splits if_splits)

lemma hits_pattern_digits:
  assumes "HITS_PATTERN_match name1 = Some d"
  shows "d \<noteq> [] \<and> list_all is_digit d"
proof -
  from assms obtain p where
    f: "find (\<lambda>p. startswith name1 p \<and> takeWhile is_digit (drop (length p) name1) \<noteq> [])
            [''hits_at_'', ''hits@'', ''h@''] = Some p"
    and d: "d = takeWhile is_digit (drop (length p) name1)"
    unfolding HITS_PATTERN_match_def by (auto split: option.splits)
  from find_SomeD [OF f] d show ?thesis
    by (simp add: all_digits_takeWhile)
qed

lemma py_int_acc:
  "list_all is_digit d \<Longrightarrow> 0 \<le> acc \<Longrightarrow> 0 \<le> foldl (\<lambda>acc c. 10 * acc + digit_val c) acc d"
  by (induction d arbitrary: acc) (auto simp: is_digit_def digit_val_def)

lemma py_int_digits:
  assumes "d \<noteq> []" and "list_all is_digit d"
  shows "\<exists>n. py_int d = Some n \<and> 0 \<le> n"
  using assms py_int_acc [of d 0] by (simp add: py_int_def)

lemma hits_k_ok:
  assumes "kv = None \<or> (\<exists>d. kv = Some (KStr d) \<and> d \<noteq> [] \<and> list_all is_digit d)"
  shows "\<exists>n. hits_k kv = Inr n"
  using assms
proof
  assume "kv = None"
  then show ?thesis by (simp add: hits_k_def)
next
  assume "\<exists>d. kv = Some (KStr d) \<and> d \<noteq> [] \<and> list_all is_digit d"
  then obtain d where kv: "kv = Some (KStr d)" and d: "d \<noteq> []" "list_all is_digit d"
    by blast
  from py_int_digits [OF d] obtain n where "py_int d = Some n" "0 \<le> n"
    by blast
  then show ?thesis
    by (simp add: hits_k_def kv)
qed

lemma normalize_name_grammar:
  assumes "k0 = None \<or> (\<exists>d. k0 = Some d \<and> d \<noteq> [] \<and> list_all is_digit d)"
  shows "normalize_name name0 k0 =
     (if k0 \<noteq> None \<and> \<not> is_hits_name (replace_space (lower name0)) then Inl AssertionError
      else if is_hits_name (replace_space (lower name0))
        then Inr (canonical_name name0, Some (projr (hits_k (case HITS_PATTERN_match (replace_space (lower name0)) of
                           None \<Rightarrow> map_option KStr k0 | Some d \<Rightarrow> Some (KStr d)))))
      else Inr (canonical_name name0, None))"
proof -
  let ?name1 = "replace_space (lower name0)"
  let ?k1 = "case HITS_PATTERN_match ?name1 of None \<Rightarrow> map_option KStr k0 | Some d \<Rightarrow> Some (KStr d)"
  have "?k1 = None \<or> (\<exists>d. ?k1 = Some (KStr d) \<and> d \<noteq> [] \<and> list_all is_digit d)"
    using assms by (auto split: option.splits dest: hits_pattern_digits)
  from hits_k_ok [OF this] obtain n where n: "hits_k ?k1 = Inr n"
    by blast
  show ?thesis
  proof (cases "is_hits_name ?name1")
    case True
    then show ?thesis
      by (auto simp: normalize_name_def Let_def n canonical_name_def is_hits_name_def)
  next
    case False
    then have h: "HITS_PATTERN_match ?name1 = None" "?name1 \<noteq> ''hits_at_k''"
      by (auto simp: is_hits_name_def)
    then show ?thesis
      using False by (auto simp: normalize_name_def Let_def canonical_name_def)
  qed
qed

lemma lower_sides: "x \<in> set SIDES \<Longrightarrow> lower x = x"
  by (auto simp: typing_defs lower_def char_defs)

lemma lower_rank_types: "x \<in> set RANK_TYPES \<Longrightarrow> lower x = x"
  by (auto simp: typing_defs lower_def char_defs)

lemma normalize_side_grammar:
  assumes "side0 = None \<or> (\<exists>x \<in> set SIDES. side0 = Some x)"
  shows "normalize_side side0 = Inr (case side0 of None \<Rightarrow> SIDE_BOTH | Some x \<Rightarrow> x)"
proof -
  have "(case side0 of None \<Rightarrow> SIDE_BOTH | Some x \<Rightarrow> x) \<in> set SIDES"
    using assms by (auto simp: SIDES_def)
  then show ?thesis
    by (simp add: normalize_side_def lower_sides)
qed

lemma wf_synonyms_value:
  "wf_synonyms syn \<Longrightarrow> map_of syn a = Some b \<Longrightarrow> b \<in> set RANK_TYPES"
  by (auto simp: wf_synonyms_def list_all_iff dest!: map_of_SomeD)

lemma resolved_rank_type_in:
  assumes "wf_synonyms syn" and "type0 = None \<or> (\<exists>x \<in> set (RANK_TYPES @ map fst syn). type0 = Some x)"
  shows "resolved_rank_type syn type0 \<in> set RANK_TYPES"
proof -
  let ?t = "case type0 of None \<Rightarrow> RANK_REALISTIC | Some x \<Rightarrow> x"
  have "?t \<in> set RANK_TYPES \<or> ?t \<in> fst ` set syn"
  proof (cases type0)
    case None
    then show ?thesis by (simp add: RANK_TYPES_def)
  next
    case (Some x)
    with assms(2) have "x \<in> set RANK_TYPES \<union> fst ` set syn"
      by simp
    with Some show ?thesis by simp
  qed
  then show ?thesis
  proof
    assume t: "?t \<in> set RANK_TYPES"
    show ?thesis
      using wf_synonyms_value [OF assms(1)] t
      by (auto simp: resolved_rank_type_def lower_rank_types [OF t] get_or_self_def split: option.splits)
  next
    assume "?t \<in> fst ` set syn"
    then obtain b where b: "(?t, b) \<in> set syn"
      by auto
    with assms(1) have l: "lower ?t = ?t"
      by (auto simp: wf_synonyms_def list_all_iff)
    from b obtain b' where "map_of syn ?t = Some b'"
      by (metis weak_map_of_SomeI)
    with wf_synonyms_value [OF assms(1)] show ?thesis
      by (auto simp: resolved_rank_type_def l get_or_self_def)
  qed
qed

lemma normalize_rank_type_grammar:
  assumes "wf_synonyms syn" and "type0 = None \<or> (\<exists>x \<in> set (RANK_TYPES @ map fst syn). type0 = Some x)"
  shows "normalize_rank_type syn name3 type0 =
     (if resolved_rank_type syn type0 \<noteq> RANK_REALISTIC \<and> name3 \<in> set TYPES_REALISTIC_ONLY then
        Inl (ValueError (''Invalid rank type for '' @ name3 @ '': '' @ resolved_rank_type syn type0
                          @ ''. Allowed type: '' @ RANK_REALISTIC))
      else Inr (resolved_rank_type syn type0))"
  using resolved_rank_type_in [OF assms]
  by (simp add: normalize_rank_type_def resolved_rank_type_def Let_def)

lemma match_groups:
  assumes "METRIC_PATTERN_match syn s = Some (name0, side0, type0, k0, rest)"
  shows "name0 \<noteq> []"
    and "side0 = None \<or> (\<exists>x \<in> set SIDES. side0 = Some x)"
    and "type0 = None \<or> (\<exists>x \<in> set (RANK_TYPES @ map fst syn). type0 = Some x)"
    and "k0 = None \<or> (\<exists>d. k0 = Some d \<and> d \<noteq> [] \<and> list_all is_digit d)"
proof -
  from assms obtain r1 r2 where
    n: "name0 = takeWhile is_name_char s" "name0 \<noteq> []" and
    a: "opt_group SIDES (dropWhile is_name_char s) = (side0, r1)" and
    b: "opt_group (RANK_TYPES @ map fst syn) r1 = (type0, r2)" and
    c: "opt_digits r2 = (k0, rest)"
    by (auto simp: METRIC_PATTERN_match_def Let_def split: if_splits prod.splits)
  from n show "name0 \<noteq> []" by simp
  from opt_group_in [OF a] show "side0 = None \<or> (\<exists>x \<in> set SIDES. side0 = Some x)" .
  from opt_group_in [OF b] show "type0 = None \<or> (\<exists>x \<in> set (RANK_TYPES @ map fst syn). type0 = Some x)" .
  from opt_digits_digits [OF c] show "k0 = None \<or> (\<exists>d. k0 = Some d \<and> d \<noteq> [] \<and> list_all is_digit d)" .
qed

lemma match_None:
  "METRIC_PATTERN_match syn s = None \<longleftrightarrow> takeWhile is_name_char s = []"
  by (auto simp: METRIC_PATTERN_match_def Let_def split: prod.splits)

lemma opt_group_text:
  assumes "opt_group alts s = (g, r)"
  shows "s = (case g of None \<Rightarrow> [] | Some x \<Rightarrow> CHR ''.'' # x) @ r"
proof (cases g)
  case None
  with assms show ?thesis
    by (auto simp: opt_group_def split: list.splits if_splits option.splits)
next
  case (Some a)
  with assms obtain t where s: "s = CHR ''.'' # t" and f: "find (startswith t) alts = Some a"
    and r: "r = drop (length a) t"
    by (auto simp: opt_group_def split: list.splits if_splits option.splits)
  from find_SomeD [OF f] have "take (length a) t = a"
    by (simp add: startswith_def)
  then have "t = a @ drop (length a) t"
    by (metis append_take_drop_id)
  with s r Some show ?thesis
    by simp
qed

lemma opt_digits_text:
  "opt_digits s = (g, r) \<Longrightarrow> s = (case g of None \<Rightarrow> [] | Some x \<Rightarrow> CHR ''.'' # x) @ r"
  by (auto simp: opt_digits_def split: list.splits if_splits)

text \<open>The text matched is the name followed by the groups that are present, each after a dot.\<close>

lemma match_text:
  assumes "METRIC_PATTERN_match syn s = Some (name0, side0, type0, k0, rest)"
  shows "s = name0 @ (case side0 of None \<Rightarrow> [] | Some x \<Rightarrow> CHR ''.'' # x)
               @ (case type0 of None \<Rightarrow> [] | Some x \<Rightarrow> CHR ''.'' # x)
               @ (case k0 of None \<Rightarrow> [] | Some x \<Rightarrow> CHR ''.'' # x) @ rest"
proof -
  from assms obtain r1 r2 where
    n: "name0 = takeWhile is_name_char s" and
    a: "opt_group SIDES (dropWhile is_name_char s) = (side0, r1)" and
    b: "opt_group (RANK_TYPES @ map fst syn) r1 = (type0, r2)" and
    c: "opt_digits r2 = (k0, rest)"
    by (auto simp: METRIC_PATTERN_match_def Let_def split: if_splits prod.splits)
  have "s = takeWhile is_name_char s @ dropWhile is_name_char s"
    by simp
  also note opt_group_text [OF a]
  also note opt_group_text [OF b]
  also note opt_digits_text [OF c]
  finally show ?thesis
    by (simp add: n)
qed

lemma lookup_grammar_eq:
  assumes wf: "wf_synonyms syn"
    and m: "METRIC_PATTERN_match syn s = Some (name0, side0, type0, k0, rest)"
  shows "lookup syn s =
     (if k0 \<noteq> None \<and> \<not> is_hits_name (replace_space (lower name0)) then Inl AssertionError
      else if resolved_rank_type syn type0 \<noteq> RANK_REALISTIC \<and> canonical_name name0 \<in> set TYPES_REALISTIC_ONLY
        then Inl (ValueError (''Invalid rank type for '' @ canonical_name name0 @ '': ''
                               @ resolved_rank_type syn type0 @ ''. Allowed type: '' @ RANK_REALISTIC))
      else Inr \<lparr>key_name = canonical_name name0,
                key_side = (case side0 of None \<Rightarrow> SIDE_BOTH | Some x \<Rightarrow> x),
                key_rank_type = resolved_rank_type syn type0,
                key_k = (if is_hits_name (replace_space (lower name0))
                         then Some (projr (hits_k (case HITS_PATTERN_match (replace_space (lower name0)) of
                                      None \<Rightarrow> map_option KStr k0 | Some d \<Rightarrow> Some (KStr d))))
                         else None)\<rparr>)"
  using match_groups(1) [OF m]
  by (simp add: lookup_def m normalize_name_grammar [OF match_groups(4) [OF m]]
      normalize_side_grammar [OF match_groups(2) [OF m]]
      normalize_rank_type_grammar [OF wf match_groups(3) [OF m]])

text \<open>
  C4, as stated: \<^verbatim>\<open>lookup\<close> returns a key on every string of the grammar. The string
  \<open>amri.optimistic\<close> is in the grammar and is refused: the two adjusted metrics are
  restricted to the realistic rank type, which \<^verbatim>\<open>lookup\<close> checks last.
\<close>

theorem lookup_refuses_adjusted_optimistic:
  "matches_grammar RANK_TYPE_SYNONYMS ''amri.optimistic''
   \<and> lookup RANK_TYPE_SYNONYMS ''amri.optimistic''
       = Inl (ValueError ''Invalid rank type for adjusted_arithmetic_mean_rank_index: optimistic. Allowed type: realistic'')"
  by code_simp

text \<open>
  C4, amended. A string without a leading name character is refused with the error that
  names it. For a string that the pattern matches in full and that gives a \<open>k\<close> only to
  a name of hits at k, with a well-formed table of synonyms, \<^verbatim>\<open>lookup\<close> fails exactly
  when a rank type other than realistic is asked for an adjusted metric, with a
  \<^verbatim>\<open>ValueError\<close>; otherwise it returns the key of the name, the side and the rank type
  that the string gives. The statement leaves aside the strings with text after the match
  and the strings that give a \<open>k\<close> to another name.
\<close>

theorem lookup_on_grammar:
  "(takeWhile is_name_char s = [] \<longrightarrow> lookup syn s = Inl (ValueError (''Invalid metric name: '' @ s)))
   \<and> (wf_synonyms syn \<and> matches_grammar syn s
        \<and> METRIC_PATTERN_match syn s = Some (name0, side0, type0, k0, rest)
        \<and> (k0 = None \<or> is_hits_name (replace_space (lower name0))) \<longrightarrow>
       (is_ValueError (lookup syn s)
          \<longleftrightarrow> resolved_rank_type syn type0 \<noteq> RANK_REALISTIC
              \<and> canonical_name name0 \<in> set TYPES_REALISTIC_ONLY)
     \<and> (isl (lookup syn s) \<longleftrightarrow> is_ValueError (lookup syn s))
     \<and> (\<forall>key. lookup syn s = Inr key \<longrightarrow>
           key_name key = canonical_name name0
           \<and> key_side key = (case side0 of None \<Rightarrow> SIDE_BOTH | Some x \<Rightarrow> x)
           \<and> key_rank_type key = resolved_rank_type syn type0))"
proof (intro conjI impI)
  assume "takeWhile is_name_char s = []"
  then have "METRIC_PATTERN_match syn s = None"
    by (simp add: match_None)
  then show "lookup syn s = Inl (ValueError (''Invalid metric name: '' @ s))"
    by (simp add: lookup_def)
next
  assume a: "wf_synonyms syn \<and> matches_grammar syn s
        \<and> METRIC_PATTERN_match syn s = Some (name0, side0, type0, k0, rest)
        \<and> (k0 = None \<or> is_hits_name (replace_space (lower name0)))"
  then have k: "\<not> (k0 \<noteq> None \<and> \<not> is_hits_name (replace_space (lower name0)))"
    by blast
  from a have "lookup syn s =
     (if k0 \<noteq> None \<and> \<not> is_hits_name (replace_space (lower name0)) then Inl AssertionError
      else if resolved_rank_type syn type0 \<noteq> RANK_REALISTIC \<and> canonical_name name0 \<in> set TYPES_REALISTIC_ONLY
        then Inl (ValueError (''Invalid rank type for '' @ canonical_name name0 @ '': ''
                               @ resolved_rank_type syn type0 @ ''. Allowed type: '' @ RANK_REALISTIC))
      else Inr \<lparr>key_name = canonical_name name0,
                key_side = (case side0 of None \<Rightarrow> SIDE_BOTH | Some x \<Rightarrow> x),
                key_rank_type = resolved_rank_type syn type0,
                key_k = (if is_hits_name (replace_space (lower name0))
                         then Some (projr (hits_k (case HITS_PATTERN_match (replace_space (lower name0)) of
                                      None \<Rightarrow> map_option KStr k0 | Some d \<Rightarrow> Some (KStr d))))
                         else None)\<rparr>)"
    by (intro lookup_grammar_eq) simp_all
  with k have eq: "lookup syn s =
     (if resolved_rank_type syn type0 \<noteq> RANK_REALISTIC \<and> canonical_name name0 \<in> set TYPES_REALISTIC_ONLY
        then Inl (ValueError (''Invalid rank type for '' @ canonical_name name0 @ '': ''
                               @ resolved_rank_type syn type0 @ ''. Allowed type: '' @ RANK_REALISTIC))
      else Inr \<lparr>key_name = canonical_name name0,
                key_side = (case side0 of None \<Rightarrow> SIDE_BOTH | Some x \<Rightarrow> x),
                key_rank_type = resolved_rank_type syn type0,
                key_k = (if is_hits_name (replace_space (lower name0))
                         then Some (projr (hits_k (case HITS_PATTERN_match (replace_space (lower name0)) of
                                      None \<Rightarrow> map_option KStr k0 | Some d \<Rightarrow> Some (KStr d))))
                         else None)\<rparr>)"
    by (simp only: if_False)
  show "is_ValueError (lookup syn s)
          \<longleftrightarrow> resolved_rank_type syn type0 \<noteq> RANK_REALISTIC
              \<and> canonical_name name0 \<in> set TYPES_REALISTIC_ONLY"
    unfolding eq by (simp add: is_ValueError_def)
  show "isl (lookup syn s) \<longleftrightarrow> is_ValueError (lookup syn s)"
    unfolding eq by (simp add: is_ValueError_def)
  show "\<forall>key. lookup syn s = Inr key \<longrightarrow>
           key_name key = canonical_name name0
           \<and> key_side key = (case side0 of None \<Rightarrow> SIDE_BOTH | Some x \<Rightarrow> x)
           \<and> key_rank_type key = resolved_rank_type syn type0"
    unfolding eq by auto
qed

lemma wf_RANK_TYPE_SYNONYMS: "wf_synonyms RANK_TYPE_SYNONYMS"
  by code_simp

lemma match_hits_at_5:
  "METRIC_PATTERN_match RANK_TYPE_SYNONYMS ''hits@5.tail.worst''
     = Some (''hits@5'', Some ''tail'', Some ''worst'', None, [])"
  by code_simp

lemma grammar_hits_at_5: "matches_grammar RANK_TYPE_SYNONYMS ''hits@5.tail.worst''"
  by code_simp

lemma hits_at_5_facts:
  "is_hits_name (replace_space (lower ''hits@5''))"
  "resolved_rank_type RANK_TYPE_SYNONYMS (Some ''worst'') = ''pessimistic''"
  "canonical_name ''hits@5'' = ''hits_at_k''"
  by code_simp+

theorem lookup_on_grammar_witness:
  "takeWhile is_name_char ''.mr'' = []
   \<and> lookup RANK_TYPE_SYNONYMS ''.mr'' = Inl (ValueError ''Invalid metric name: .mr'')
   \<and> wf_synonyms RANK_TYPE_SYNONYMS \<and> matches_grammar RANK_TYPE_SYNONYMS ''hits@5.tail.worst''
   \<and> METRIC_PATTERN_match RANK_TYPE_SYNONYMS ''hits@5.tail.worst''
       = Some (''hits@5'', Some ''tail'', Some ''worst'', None, [])
   \<and> is_hits_name (replace_space (lower ''hits@5''))
   \<and> \<not> is_ValueError (lookup RANK_TYPE_SYNONYMS ''hits@5.tail.worst'')
   \<and> \<not> isl (lookup RANK_TYPE_SYNONYMS ''hits@5.tail.worst'')"
proof -
  have e: "takeWhile is_name_char ''.mr'' = []"
    by (simp add: char_defs)
  from lookup_on_grammar [of "''.mr''" RANK_TYPE_SYNONYMS] e
  have 1: "lookup RANK_TYPE_SYNONYMS ''.mr'' = Inl (ValueError ''Invalid metric name: .mr'')"
    by simp
  from lookup_on_grammar [of "''hits@5.tail.worst''" RANK_TYPE_SYNONYMS "''hits@5''" "Some ''tail''"
      "Some ''worst''" None "[]"] wf_RANK_TYPE_SYNONYMS grammar_hits_at_5 match_hits_at_5
  have 2: "\<not> is_ValueError (lookup RANK_TYPE_SYNONYMS ''hits@5.tail.worst'')
   \<and> \<not> isl (lookup RANK_TYPE_SYNONYMS ''hits@5.tail.worst'')"
    by (simp add: hits_at_5_facts TYPES_REALISTIC_ONLY_def name_defs typing_defs)
  from e 1 2 wf_RANK_TYPE_SYNONYMS grammar_hits_at_5 match_hits_at_5 hits_at_5_facts(1) show ?thesis
    by blast
qed

text \<open>
  Two inputs outside the amended statement. The pattern is applied with \<^verbatim>\<open>match\<close>, which
  reads a prefix: on \<open>mr.foo\<close> the text \<open>.foo\<close> is left unread and a key is returned.
  On \<open>mr.5\<close> the \<open>k\<close> stays a string and the assertion of \<^verbatim>\<open>lookup\<close> on \<open>k\<close> fails.
\<close>

lemma lookup_outside_amended:
  "\<not> matches_grammar RANK_TYPE_SYNONYMS ''mr.foo''
   \<and> lookup RANK_TYPE_SYNONYMS ''mr.foo''
       = Inr \<lparr>key_name = ''arithmetic_mean_rank'', key_side = ''both'', key_rank_type = ''realistic'',
              key_k = None\<rparr>
   \<and> matches_grammar RANK_TYPE_SYNONYMS ''mr.5''
   \<and> lookup RANK_TYPE_SYNONYMS ''mr.5'' = Inl AssertionError"
  by code_simp

subsection \<open>Sampled negatives avoid the true answers\<close>

lemma for_each_Inl:
  "for_each body xs acc = Inl e \<Longrightarrow> \<exists>x\<in>set xs. \<exists>a. body x a = Inl e"
proof (induction xs arbitrary: acc)
  case Nil
  then show ?case by simp
next
  case (Cons x xs)
  show ?case
  proof (cases "body x acc")
    case (Inl e')
    with Cons.prems show ?thesis by auto
  next
    case (Inr a)
    with Cons.prems have "for_each body xs a = Inl e" by simp
    from Cons.IH [OF this] show ?thesis by auto
  qed
qed

lemma tile_pool_result:
  assumes "tile_pool pool k = Inr pool1"
  shows "k \<le> length pool1 \<and> set pool1 \<subseteq> set pool"
proof (cases "length pool < k")
  case False
  with assms show ?thesis by (simp add: tile_pool_def)
next
  case True
  with assms have n: "length pool \<noteq> 0"
    and p: "pool1 = concat (replicate (nat \<lceil>real k / real (length pool)\<rceil>) pool)"
    by (auto simp: tile_pool_def split: if_splits)
  let ?m = "nat \<lceil>real k / real (length pool)\<rceil>"
  have "real k / real (length pool) \<le> real ?m"
    by (rule of_nat_ceiling)
  with n have "real k \<le> real ?m * real (length pool)"
    by (simp only: pos_divide_le_eq of_nat_0_less_iff length_greater_0_conv [symmetric] neq0_conv)
  then have "k \<le> ?m * length pool"
    by (metis of_nat_le_iff of_nat_mult)
  moreover have "length pool1 = ?m * length pool"
    unfolding p by (induction ?m) (simp_all add: length_concat sum_list_replicate)
  moreover have "set pool1 \<subseteq> set pool"
    unfolding p by auto
  ultimately show ?thesis by simp
qed

lemma tile_pool_error:
  "tile_pool pool k = Inl e \<Longrightarrow> e = ZeroDivisionError"
  by (auto simp: tile_pool_def split: if_splits)

lemma write_rows:
  assumes "k \<le> length pool1"
  shows "\<exists>tbl'. for_each (\<lambda>i tbl. bind_err (random_sample pool1 k (rng side i (length pool1)))
                            (\<lambda>row. Inr (tbl[i := Some row]))) idxs tbl = Inr tbl'
           \<and> length tbl' = length tbl
           \<and> (\<forall>j<length tbl. tbl' ! j = (if j \<in> set idxs
                 then Some (map (\<lambda>p. pool1 ! p) (rng side j (length pool1))) else tbl ! j))"
proof (induction idxs arbitrary: tbl)
  case Nil
  then show ?case by simp
next
  case (Cons i idxs)
  let ?t = "tbl[i := Some (map (\<lambda>p. pool1 ! p) (rng side i (length pool1)))]"
  from Cons.IH [of ?t] obtain tbl' where
    r: "for_each (\<lambda>i tbl. bind_err (random_sample pool1 k (rng side i (length pool1)))
                            (\<lambda>row. Inr (tbl[i := Some row]))) idxs ?t = Inr tbl'"
    and l: "length tbl' = length ?t"
    and c: "\<forall>j<length ?t. tbl' ! j = (if j \<in> set idxs
                 then Some (map (\<lambda>p. pool1 ! p) (rng side j (length pool1))) else ?t ! j)"
    by blast
  from assms r have "for_each (\<lambda>i tbl. bind_err (random_sample pool1 k (rng side i (length pool1)))
                            (\<lambda>row. Inr (tbl[i := Some row]))) (i # idxs) tbl = Inr tbl'"
    by (simp add: random_sample_def)
  moreover from l have "length tbl' = length tbl" by simp
  moreover from c have "\<forall>j<length tbl. tbl' ! j = (if j \<in> set (i # idxs)
                 then Some (map (\<lambda>p. pool1 ! p) (rng side j (length pool1))) else tbl ! j)"
    by (auto simp: nth_list_update)
  ultimately show ?case by blast
qed

lemma sample_group_result:
  "sample_group rng side k N merged g tbl = Inl ZeroDivisionError
   \<or> (\<exists>tbl' pool1. sample_group rng side k N merged g tbl = Inr tbl'
        \<and> k \<le> length pool1
        \<and> set pool1 \<subseteq> {x. x < N \<and> x \<notin> (\<lambda>row. column side (snd (snd row)))
                                       ` {row \<in> set merged. other_key side (fst (snd row)) = g}}
        \<and> length tbl' = length tbl
        \<and> (\<forall>j<length tbl. tbl' ! j =
             (if j \<in> fst ` {row \<in> set merged. other_key side (fst (snd row)) = g}
              then Some (map (\<lambda>p. pool1 ! p) (rng side j (length pool1))) else tbl ! j)))"
proof -
  let ?group = "filter (\<lambda>row. other_key side (fst (snd row)) = g) merged"
  let ?pool = "filter (\<lambda>x. x \<notin> set (map (\<lambda>row. column side (snd (snd row))) ?group)) [0..<N]"
  show ?thesis
  proof (cases "tile_pool ?pool k")
    case (Inl e)
    with tile_pool_error [OF Inl] show ?thesis
      by (simp add: sample_group_def)
  next
    case (Inr pool1)
    from tile_pool_result [OF Inr] have k: "k \<le> length pool1" and sub: "set pool1 \<subseteq> set ?pool"
      by simp_all
    from write_rows [OF k, of rng side "remdups (map fst ?group)" tbl]
    obtain tbl' where
      "for_each (\<lambda>i tbl. bind_err (random_sample pool1 k (rng side i (length pool1)))
                            (\<lambda>row. Inr (tbl[i := Some row]))) (remdups (map fst ?group)) tbl = Inr tbl'"
      "length tbl' = length tbl"
      "\<forall>j<length tbl. tbl' ! j = (if j \<in> set (remdups (map fst ?group))
                 then Some (map (\<lambda>p. pool1 ! p) (rng side j (length pool1))) else tbl ! j)"
      by blast
    moreover have "set (remdups (map fst ?group)) = fst ` {row \<in> set merged. other_key side (fst (snd row)) = g}"
      by auto
    moreover from sub have "set pool1 \<subseteq> {x. x < N \<and> x \<notin> (\<lambda>row. column side (snd (snd row)))
                                       ` {row \<in> set merged. other_key side (fst (snd row)) = g}}"
      by auto
    moreover have "sample_group rng side k N merged g tbl
        = for_each (\<lambda>i tbl. bind_err (random_sample pool1 k (rng side i (length pool1)))
                            (\<lambda>row. Inr (tbl[i := Some row]))) (remdups (map fst ?group)) tbl"
      by (simp only: sample_group_def Let_def Inr bind_err_simps)
    ultimately have "\<exists>tbl' pool1. sample_group rng side k N merged g tbl = Inr tbl'
        \<and> k \<le> length pool1
        \<and> set pool1 \<subseteq> {x. x < N \<and> x \<notin> (\<lambda>row. column side (snd (snd row)))
                                       ` {row \<in> set merged. other_key side (fst (snd row)) = g}}
        \<and> length tbl' = length tbl
        \<and> (\<forall>j<length tbl. tbl' ! j =
             (if j \<in> fst ` {row \<in> set merged. other_key side (fst (snd row)) = g}
              then Some (map (\<lambda>p. pool1 ! p) (rng side j (length pool1))) else tbl ! j))"
      using k by (intro exI [of _ tbl'] exI [of _ pool1]) simp
    then show ?thesis ..
  qed
qed

lemma groups_loop:
  assumes "for_each (sample_group rng side k N merged) gs tbl = Inr tbl'"
  shows "length tbl' = length tbl
    \<and> (\<forall>j<length tbl.
          (tbl' ! j = tbl ! j
             \<and> (\<forall>g\<in>set gs. j \<notin> fst ` {row \<in> set merged. other_key side (fst (snd row)) = g}))
          \<or> (\<exists>g\<in>set gs. \<exists>pool1.
                j \<in> fst ` {row \<in> set merged. other_key side (fst (snd row)) = g}
                \<and> k \<le> length pool1
                \<and> set pool1 \<subseteq> {x. x < N \<and> x \<notin> (\<lambda>row. column side (snd (snd row)))
                                       ` {row \<in> set merged. other_key side (fst (snd row)) = g}}
                \<and> tbl' ! j = Some (map (\<lambda>p. pool1 ! p) (rng side j (length pool1)))))"
  using assms
proof (induction gs arbitrary: tbl)
  case Nil
  then show ?case by simp
next
  case (Cons g gs)
  let ?G = "\<lambda>g. {row \<in> set merged. other_key side (fst (snd row)) = g}"
  from Cons.prems obtain tbl1 where
    s1: "sample_group rng side k N merged g tbl = Inr tbl1" and
    r: "for_each (sample_group rng side k N merged) gs tbl1 = Inr tbl'"
    by (auto simp: bind_err_Inr_iff)
  from sample_group_result [of rng side k N merged g tbl] s1 obtain pool1 where
    k: "k \<le> length pool1" and
    sub: "set pool1 \<subseteq> {x. x < N \<and> x \<notin> (\<lambda>row. column side (snd (snd row))) ` ?G g}" and
    l1: "length tbl1 = length tbl" and
    c1: "\<forall>j<length tbl. tbl1 ! j =
             (if j \<in> fst ` ?G g
              then Some (map (\<lambda>p. pool1 ! p) (rng side j (length pool1))) else tbl ! j)"
    by auto
  from Cons.IH [OF r] have l: "length tbl' = length tbl1" and
    c: "\<forall>j<length tbl1.
          (tbl' ! j = tbl1 ! j \<and> (\<forall>g\<in>set gs. j \<notin> fst ` ?G g))
          \<or> (\<exists>g\<in>set gs. \<exists>pool1.
                j \<in> fst ` ?G g \<and> k \<le> length pool1
                \<and> set pool1 \<subseteq> {x. x < N \<and> x \<notin> (\<lambda>row. column side (snd (snd row))) ` ?G g}
                \<and> tbl' ! j = Some (map (\<lambda>p. pool1 ! p) (rng side j (length pool1))))"
    by blast+
  have "\<forall>j<length tbl.
          (tbl' ! j = tbl ! j \<and> (\<forall>g\<in>set (g # gs). j \<notin> fst ` ?G g))
          \<or> (\<exists>g\<in>set (g # gs). \<exists>pool1.
                j \<in> fst ` ?G g \<and> k \<le> length pool1
                \<and> set pool1 \<subseteq> {x. x < N \<and> x \<notin> (\<lambda>row. column side (snd (snd row))) ` ?G g}
                \<and> tbl' ! j = Some (map (\<lambda>p. pool1 ! p) (rng side j (length pool1))))"
  proof (intro allI impI)
    fix j
    assume j: "j < length tbl"
    with c l1 consider
      (same) "tbl' ! j = tbl1 ! j" "\<forall>g\<in>set gs. j \<notin> fst ` ?G g"
      | (later) g' pool' where "g' \<in> set gs" "j \<in> fst ` ?G g'" "k \<le> length pool'"
          "set pool' \<subseteq> {x. x < N \<and> x \<notin> (\<lambda>row. column side (snd (snd row))) ` ?G g'}"
          "tbl' ! j = Some (map (\<lambda>p. pool' ! p) (rng side j (length pool')))"
      by auto blast
    then show "(tbl' ! j = tbl ! j \<and> (\<forall>g\<in>set (g # gs). j \<notin> fst ` ?G g))
          \<or> (\<exists>g\<in>set (g # gs). \<exists>pool1.
                j \<in> fst ` ?G g \<and> k \<le> length pool1
                \<and> set pool1 \<subseteq> {x. x < N \<and> x \<notin> (\<lambda>row. column side (snd (snd row))) ` ?G g}
                \<and> tbl' ! j = Some (map (\<lambda>p. pool1 ! p) (rng side j (length pool1))))"
    proof cases
      case same
      show ?thesis
      proof (cases "j \<in> fst ` ?G g")
        case True
        with c1 j same(1) have "tbl' ! j = Some (map (\<lambda>p. pool1 ! p) (rng side j (length pool1)))"
          by simp
        with True k sub show ?thesis
          by (intro disjI2 bexI [of _ g] exI [of _ pool1]) simp_all
      next
        case False
        with c1 j same show ?thesis
          by simp
      qed
    next
      case later
      then show ?thesis
        by (intro disjI2 bexI [of _ g'] exI [of _ pool']) simp_all
    qed
  qed
  with l l1 show ?case by simp
qed

lemma in_merge_on_other:
  "(i, e, a) \<in> set (merge_on_other side evaluation_triples all_triples) \<longleftrightarrow>
     i < length evaluation_triples \<and> e = evaluation_triples ! i
     \<and> a \<in> set all_triples \<and> other_key side a = other_key side e"
proof -
  have "(i, e, a) \<in> set (merge_on_other side evaluation_triples all_triples) \<longleftrightarrow>
     (\<exists>p\<in>set (enumerate 0 evaluation_triples).
        i = fst p \<and> e = snd p \<and> a \<in> set all_triples \<and> other_key side a = other_key side (snd p))"
    by (auto simp: merge_on_other_def split_def)
  also have "\<dots> \<longleftrightarrow> i < length evaluation_triples \<and> e = evaluation_triples ! i
     \<and> a \<in> set all_triples \<and> other_key side a = other_key side e"
  proof
    assume "\<exists>p\<in>set (enumerate 0 evaluation_triples).
        i = fst p \<and> e = snd p \<and> a \<in> set all_triples \<and> other_key side a = other_key side (snd p)"
    then show "i < length evaluation_triples \<and> e = evaluation_triples ! i
     \<and> a \<in> set all_triples \<and> other_key side a = other_key side e"
      by (auto simp: in_set_enumerate_eq)
  next
    assume r: "i < length evaluation_triples \<and> e = evaluation_triples ! i
     \<and> a \<in> set all_triples \<and> other_key side a = other_key side e"
    then have "(i, e) \<in> set (enumerate 0 evaluation_triples)"
      by (simp add: in_set_enumerate_eq)
    with r show "\<exists>p\<in>set (enumerate 0 evaluation_triples).
        i = fst p \<and> e = snd p \<and> a \<in> set all_triples \<and> other_key side a = other_key side (snd p)"
      by (intro bexI [of _ "(i, e)"]) simp_all
  qed
  finally show ?thesis .
qed

lemma set_prepare_filter_triples:
  "set (prepare_filter_triples evaluation_triples additional)
    = set evaluation_triples \<union> (case additional of None \<Rightarrow> {} | Some ts \<Rightarrow> set (concat ts))"
  by (auto simp: prepare_filter_triples_def split: option.splits)

lemma side_table:
  assumes rng: "valid_rng k rng"
    and sub: "set evaluation_triples \<subseteq> set all_triples"
    and run: "for_each (sample_group rng side k N (merge_on_other side evaluation_triples all_triples))
                (sort (remdups (map (\<lambda>row. other_key side (fst (snd row)))
                                    (merge_on_other side evaluation_triples all_triples))))
                (replicate (length evaluation_triples) None) = Inr tbl"
    and i: "i < length evaluation_triples"
  shows "length tbl = length evaluation_triples
    \<and> (\<exists>row. tbl ! i = Some row \<and> length row = k
          \<and> (\<forall>e\<in>set row. e < N \<and> (\<forall>x\<in>set all_triples.
                other_key side x = other_key side (evaluation_triples ! i) \<longrightarrow> e \<noteq> column side x)))"
proof -
  let ?merged = "merge_on_other side evaluation_triples all_triples"
  let ?gs = "sort (remdups (map (\<lambda>row. other_key side (fst (snd row))) ?merged))"
  let ?G = "\<lambda>g. {row \<in> set ?merged. other_key side (fst (snd row)) = g}"
  let ?e = "evaluation_triples ! i"
  from groups_loop [OF run] have len: "length tbl = length evaluation_triples" and
    c: "\<forall>j<length evaluation_triples.
          (tbl ! j = replicate (length evaluation_triples) None ! j
             \<and> (\<forall>g\<in>set ?gs. j \<notin> fst ` ?G g))
          \<or> (\<exists>g\<in>set ?gs. \<exists>pool1.
                j \<in> fst ` ?G g \<and> k \<le> length pool1
                \<and> set pool1 \<subseteq> {x. x < N \<and> x \<notin> (\<lambda>row. column side (snd (snd row))) ` ?G g}
                \<and> tbl ! j = Some (map (\<lambda>p. pool1 ! p) (rng side j (length pool1))))"
    by simp_all
  from i sub have own: "(i, ?e, ?e) \<in> set ?merged"
    by (auto simp: in_merge_on_other)
  then have "other_key side ?e \<in> set ?gs"
    by force
  moreover from own have "i \<in> fst ` ?G (other_key side ?e)"
    by force
  ultimately have "\<not> (\<forall>g\<in>set ?gs. i \<notin> fst ` ?G g)"
    by blast
  with c i obtain g pool1 where
    g: "i \<in> fst ` ?G g" and k: "k \<le> length pool1" and
    pool: "set pool1 \<subseteq> {x. x < N \<and> x \<notin> (\<lambda>row. column side (snd (snd row))) ` ?G g}" and
    row: "tbl ! i = Some (map (\<lambda>p. pool1 ! p) (rng side i (length pool1)))"
    by blast
  from g have key: "other_key side ?e = g"
    by (auto simp: in_merge_on_other)
  from rng k have v: "length (rng side i (length pool1)) = k"
    "\<forall>p\<in>set (rng side i (length pool1)). p < length pool1"
    by (auto simp: valid_rng_def)
  have "e < N \<and> (\<forall>x\<in>set all_triples. other_key side x = other_key side ?e \<longrightarrow> e \<noteq> column side x)"
    if "e \<in> set (map (\<lambda>p. pool1 ! p) (rng side i (length pool1)))" for e
  proof -
    from that v(2) have "e \<in> set pool1"
      by auto
    with pool have e: "e < N" "e \<notin> (\<lambda>row. column side (snd (snd row))) ` ?G g"
      by auto
    have "e \<noteq> column side x" if x: "x \<in> set all_triples" "other_key side x = other_key side ?e" for x
    proof -
      from x i key have "(i, ?e, x) \<in> ?G g"
        by (simp add: in_merge_on_other)
      then have "column side x \<in> (\<lambda>row. column side (snd (snd row))) ` ?G g"
        by force
      with e(2) show ?thesis by auto
    qed
    with e(1) show ?thesis by simp
  qed
  with row v(1) len show ?thesis
    by simp
qed

lemma sample_negatives_tables:
  assumes "sample_negatives rng evaluation_triples additional k num_entities = Inr negatives"
  shows "\<exists>N head_table tail_table.
      negatives = [(LABEL_HEAD, head_table), (LABEL_TAIL, tail_table)]
      \<and> (\<forall>side tbl. (side, tbl) \<in> set negatives \<longrightarrow>
           for_each (sample_group rng side k N
                      (merge_on_other side evaluation_triples
                         (prepare_filter_triples evaluation_triples additional)))
                (sort (remdups (map (\<lambda>row. other_key side (fst (snd row)))
                                    (merge_on_other side evaluation_triples
                                       (prepare_filter_triples evaluation_triples additional)))))
                (replicate (length evaluation_triples) None) = Inr tbl)"
proof -
  from assms obtain N where
    "for_each (\<lambda>side negatives.
             (let merged = merge_on_other side evaluation_triples
                             (prepare_filter_triples evaluation_triples additional) in
              bind_err (for_each (sample_group rng side k N merged)
                                 (sort (remdups (map (\<lambda>row. other_key side (fst (snd row))) merged)))
                                 (replicate (length evaluation_triples) None))
                (\<lambda>this_negatives. Inr (negatives @ [(side, this_negatives)]))))
           [LABEL_HEAD, LABEL_TAIL] [] = Inr negatives"
    unfolding sample_negatives_def Let_def bind_err_Inr_iff by blast
  then show ?thesis
    by (auto simp: Let_def bind_err_Inr_iff)
qed

text \<open>
  C10. For every outcome of the random draws, when \<^verbatim>\<open>sample_negatives\<close> returns, it
  returns the tables of the sides \<open>head\<close> and \<open>tail\<close>; each has one written row of
  \<open>num_samples\<close> entries per evaluation triple, and no entry of the row of a triple is
  the entity, in the column of that side, of a triple with the same other two columns
  among the evaluation triples and the supplied filter triples; in particular it is not
  the true entity of the triple itself, also when no filter triples are supplied.
\<close>

theorem sample_negatives_exclude_true_answers:
  assumes "valid_rng num_samples rng"
    and "sample_negatives rng evaluation_triples additional num_samples num_entities = Inr negatives"
    and "i < length evaluation_triples"
  shows "map fst negatives = [LABEL_HEAD, LABEL_TAIL]
    \<and> (\<forall>(side, tbl)\<in>set negatives.
          length tbl = length evaluation_triples
          \<and> (\<exists>row. tbl ! i = Some row \<and> length row = num_samples
                \<and> (\<forall>e\<in>set row.
                      e \<noteq> column side (evaluation_triples ! i)
                      \<and> (\<forall>x\<in>set evaluation_triples
                               \<union> (case additional of None \<Rightarrow> {} | Some ts \<Rightarrow> set (concat ts)).
                            other_key side x = other_key side (evaluation_triples ! i)
                            \<longrightarrow> e \<noteq> column side x))))"
proof -
  let ?all = "prepare_filter_triples evaluation_triples additional"
  from sample_negatives_tables [OF assms(2)] obtain N head_table tail_table where
    n: "negatives = [(LABEL_HEAD, head_table), (LABEL_TAIL, tail_table)]" and
    run: "\<And>side tbl. (side, tbl) \<in> set negatives \<Longrightarrow>
           for_each (sample_group rng side num_samples N (merge_on_other side evaluation_triples ?all))
                (sort (remdups (map (\<lambda>row. other_key side (fst (snd row)))
                                    (merge_on_other side evaluation_triples ?all))))
                (replicate (length evaluation_triples) None) = Inr tbl"
    by blast
  have sub: "set evaluation_triples \<subseteq> set ?all"
    by (simp add: set_prepare_filter_triples)
  have all: "set ?all = set evaluation_triples
                 \<union> (case additional of None \<Rightarrow> {} | Some ts \<Rightarrow> set (concat ts))"
    by (rule set_prepare_filter_triples)
  have own: "evaluation_triples ! i \<in> set ?all"
    using sub assms(3) by auto
  have "length tbl = length evaluation_triples
          \<and> (\<exists>row. tbl ! i = Some row \<and> length row = num_samples
                \<and> (\<forall>e\<in>set row.
                      e \<noteq> column side (evaluation_triples ! i)
                      \<and> (\<forall>x\<in>set evaluation_triples
                               \<union> (case additional of None \<Rightarrow> {} | Some ts \<Rightarrow> set (concat ts)).
                            other_key side x = other_key side (evaluation_triples ! i)
                            \<longrightarrow> e \<noteq> column side x)))"
    if "(side, tbl) \<in> set negatives" for side tbl
  proof -
    from side_table [OF assms(1) sub run [OF that] assms(3)] obtain row where
      "length tbl = length evaluation_triples" "tbl ! i = Some row" "length row = num_samples"
      and r: "\<forall>e\<in>set row. e < N \<and> (\<forall>x\<in>set ?all.
                other_key side x = other_key side (evaluation_triples ! i) \<longrightarrow> e \<noteq> column side x)"
      by blast
    moreover from r own have "\<forall>e\<in>set row. e \<noteq> column side (evaluation_triples ! i)"
      by blast
    moreover from r have "\<forall>e\<in>set row. \<forall>x\<in>set evaluation_triples
                               \<union> (case additional of None \<Rightarrow> {} | Some ts \<Rightarrow> set (concat ts)).
                            other_key side x = other_key side (evaluation_triples ! i)
                            \<longrightarrow> e \<noteq> column side x"
      unfolding all [symmetric] by blast
    ultimately show ?thesis
      by blast
  qed
  then show ?thesis
    by (auto simp: n)
qed

lemma valid_first_positions: "valid_rng k (first_positions k)"
  by (simp add: valid_rng_def first_positions_def)

lemma sample_three_triples:
  "sample_negatives (first_positions 2) three_triples (Some [[(3, 0, 1)]]) 2 (Some 5)
     = Inr [(''head'', [Some [1, 4], Some [1, 4], Some [1, 2]]),
            (''tail'', [Some [0, 2], Some [0, 2], Some [0, 1]])]"
  by code_simp

theorem sample_negatives_exclude_true_answers_witness:
  "valid_rng 2 (first_positions 2)
   \<and> sample_negatives (first_positions 2) three_triples (Some [[(3, 0, 1)]]) 2 (Some 5)
     = Inr [(''head'', [Some [1, 4], Some [1, 4], Some [1, 2]]),
            (''tail'', [Some [0, 2], Some [0, 2], Some [0, 1]])]
   \<and> 0 < length three_triples
   \<and> column ''head'' (three_triples ! 0) \<notin> set [1, 4]
   \<and> column ''head'' (three_triples ! 1) \<notin> set [1, 4]
   \<and> column ''head'' (3, 0, 1) \<notin> set [1, 4]"
proof -
  have l: "0 < length three_triples"
    by (simp add: three_triples_def)
  from sample_negatives_exclude_true_answers [OF valid_first_positions sample_three_triples l]
  have r: "\<forall>e\<in>set [1, 4]. e \<noteq> column ''head'' (three_triples ! 0)
         \<and> (\<forall>x\<in>set three_triples \<union> set (concat [[(3, 0, 1)]]).
               other_key ''head'' x = other_key ''head'' (three_triples ! 0) \<longrightarrow> e \<noteq> column ''head'' x)"
    by (simp add: LABEL_HEAD_def LABEL_TAIL_def)
  have k: "other_key ''head'' (three_triples ! 1) = other_key ''head'' (three_triples ! 0)"
    "other_key ''head'' (3, 0, 1) = other_key ''head'' (three_triples ! 0)"
    by (simp_all add: three_triples_def other_key_def columns_def column_def typing_defs)
  have m: "three_triples ! 1 \<in> set three_triples \<union> set (concat [[(3, 0, 1)]])"
    "(3, 0, 1) \<in> set three_triples \<union> set (concat [[(3, 0, 1)]])"
    by (simp_all add: three_triples_def)
  from r have "column ''head'' (three_triples ! 0) \<notin> set [1, 4]"
    by blast
  moreover from r k(1) m(1) have "column ''head'' (three_triples ! 1) \<notin> set [1, 4]"
    by blast
  moreover from r k(2) m(2) have "column ''head'' (3, 0, 1) \<notin> set [1, 4]"
    by blast
  ultimately show ?thesis
    using valid_first_positions sample_three_triples l by blast
qed

subsection \<open>Validation in the constructor of the sampled evaluator\<close>

lemma sample_negatives_error:
  assumes "sample_negatives rng evaluation_triples additional k num_entities = Inl e"
  shows "e = RuntimeError \<or> e = ZeroDivisionError"
proof -
  let ?all = "prepare_filter_triples evaluation_triples additional"
  let ?body = "\<lambda>N side negatives.
             (let merged = merge_on_other side evaluation_triples ?all in
              bind_err (for_each (sample_group rng side k N merged)
                                 (sort (remdups (map (\<lambda>row. other_key side (fst (snd row))) merged)))
                                 (replicate (length evaluation_triples) None))
                (\<lambda>this_negatives. Inr (negatives @ [(side, this_negatives)])))"
  show ?thesis
  proof (cases "e = RuntimeError")
    case True
    then show ?thesis by simp
  next
    case False
    with assms obtain N where "for_each (?body N) [LABEL_HEAD, LABEL_TAIL] [] = Inl e"
      unfolding sample_negatives_def Let_def
      by (auto simp: bind_err_def split: if_splits sum.splits)
    from for_each_Inl [OF this] obtain side acc where "?body N side acc = Inl e"
      by blast
    then have "for_each (sample_group rng side k N (merge_on_other side evaluation_triples ?all))
                 (sort (remdups (map (\<lambda>row. other_key side (fst (snd row)))
                                     (merge_on_other side evaluation_triples ?all))))
                 (replicate (length evaluation_triples) None) = Inl e"
      by (auto simp: Let_def bind_err_def split: sum.splits)
    from for_each_Inl [OF this] obtain g tbl where
      "sample_group rng side k N (merge_on_other side evaluation_triples ?all) g tbl = Inl e"
      by blast
    with sample_group_result [of rng side k N "merge_on_other side evaluation_triples ?all" g tbl]
    show ?thesis by auto
  qed
qed

lemma sample_negatives_lengths:
  assumes "sample_negatives rng evaluation_triples additional k num_entities = Inr negatives"
    and "item \<in> set negatives"
  shows "length (snd item) = length evaluation_triples"
proof -
  obtain side tbl where item: "item = (side, tbl)" by (cases item)
  from sample_negatives_tables [OF assms(1)] assms(2) item obtain N where
    "for_each (sample_group rng side k N
                      (merge_on_other side evaluation_triples
                         (prepare_filter_triples evaluation_triples additional)))
                (sort (remdups (map (\<lambda>row. other_key side (fst (snd row)))
                                    (merge_on_other side evaluation_triples
                                       (prepare_filter_triples evaluation_triples additional)))))
                (replicate (length evaluation_triples) None) = Inr tbl"
    by blast
  from groups_loop [OF this] show ?thesis
    by (simp add: item)
qed

lemma micro_init_error:
  "RankBasedEvaluator_init ks = Inl e \<Longrightarrow> (\<exists>msg. e = ValueError msg) \<and> invalid_float_k ks"
  "RankBasedEvaluator_init ks = Inr base \<Longrightarrow> \<not> invalid_float_k ks"
  by (auto simp: RankBasedEvaluator_init_def invalid_float_k_def Let_def list_ex_iff not_less
      split: if_splits option.splits knum.splits)

lemma is_ValueError_simps [simp]:
  "is_ValueError (Inl (ValueError msg))"
  "\<not> is_ValueError (Inr x)"
  "\<not> is_ValueError (Inl ZeroDivisionError)"
  "\<not> is_ValueError (Inl RuntimeError)"
  by (simp_all add: is_ValueError_def)

lemma shape_check:
  "for_each (\<lambda>item u. if length (snd item) \<noteq> n
                           then Inl (ValueError (''Negatives for '' @ fst item @ '' are in wrong shape''))
                           else Inr u) negatives () = Inr ()
   \<longleftrightarrow> (\<forall>item\<in>set negatives. length (snd item) = n)"
  "is_ValueError (for_each (\<lambda>item u. if length (snd item) \<noteq> n
                           then Inl (ValueError (''Negatives for '' @ fst item @ '' are in wrong shape''))
                           else Inr u) negatives ())
   \<longleftrightarrow> \<not> (\<forall>item\<in>set negatives. length (snd item) = n)"
  by (induction negatives) auto

lemma is_ValueError_bind:
  "is_ValueError (bind_err m f) \<longleftrightarrow> is_ValueError m \<or> (\<exists>x. m = Inr x \<and> is_ValueError (f x))"
  by (cases m) (auto simp: is_ValueError_def)

lemma sample_negatives_not_ValueError:
  "\<not> is_ValueError (sample_negatives rng evaluation_triples additional k num_entities)"
proof (cases "sample_negatives rng evaluation_triples additional k num_entities")
  case (Inl e)
  from sample_negatives_error [OF Inl] show ?thesis
    by (auto simp: Inl)
next
  case (Inr negatives)
  then show ?thesis by simp
qed

text \<open>
  C8, amended. The constructor of the sampled evaluator fails with a \<^verbatim>\<open>ValueError\<close> in
  exactly four cases: an entry of \<^verbatim>\<open>ks\<close> is a float outside the open interval from 0
  to 1 (the check of the constructor it inherits); exactly one of the two tables is
  supplied; both are supplied and one has a number of rows other than the number of
  evaluation triples; none is supplied and the number of negatives asked for exceeds the
  number of entities. Negatives that are generated always have the right number of rows,
  and their generation raises no \<^verbatim>\<open>ValueError\<close>.
\<close>

theorem sampled_init_validation:
  "is_ValueError (SampledRankBasedEvaluator_init rng ks f add nn hn tn) \<longleftrightarrow>
     invalid_float_k ks
     \<or> (hn = None) \<noteq> (tn = None)
     \<or> (\<exists>h t. hn = Some h \<and> tn = Some t \<and> (length h \<noteq> num_triples f \<or> length t \<noteq> num_triples f))
     \<or> (hn = None \<and> tn = None \<and> tf_num_entities f < requested_negatives nn)"
proof (cases "RankBasedEvaluator_init ks")
  case (Inl e)
  from micro_init_error(1) [OF Inl] show ?thesis
    by (auto simp: SampledRankBasedEvaluator_init_def Inl)
next
  case (Inr base)
  from micro_init_error(2) [OF Inr] have ks: "\<not> invalid_float_k ks" .
  have nn: "(if nn = None \<or> nn = Some 0 then 50 else the nn) = requested_negatives nn"
    by (auto simp: requested_negatives_def split: option.splits)
  consider (generated) "hn = None" "tn = None" | (one) "(hn = None) \<noteq> (tn = None)"
    | (supplied) h t where "hn = Some h" "tn = Some t"
    by (cases hn; cases tn) auto
  then show ?thesis
  proof cases
    case generated
    show ?thesis
    proof (cases "tf_num_entities f < requested_negatives nn")
      case True
      then show ?thesis
        using ks generated by (simp add: SampledRankBasedEvaluator_init_def Inr nn)
    next
      case False
      have "\<forall>item\<in>set negatives. length (snd item) = num_triples f"
        if "sample_negatives rng (tf_mapped_triples f) add (requested_negatives nn)
              (Some (tf_num_entities f)) = Inr negatives" for negatives
        using sample_negatives_lengths [OF that] by (simp add: num_triples_def)
      then show ?thesis
        using ks generated False
        by (auto simp: SampledRankBasedEvaluator_init_def Inr nn Let_def is_ValueError_bind
            shape_check(2) sample_negatives_not_ValueError)
    qed
  next
    case one
    then show ?thesis
      using ks by (auto simp: SampledRankBasedEvaluator_init_def Inr)
  next
    case supplied
    then show ?thesis
      using ks by (auto simp: SampledRankBasedEvaluator_init_def Inr is_ValueError_bind shape_check(2))
  qed
qed

text \<open>
  C8, as stated: the constructor fails with a validation error in exactly the three cases
  on the tables and the number of negatives. It also fails when \<^verbatim>\<open>ks\<close> holds the float
  2, with both tables supplied and one row each for the one evaluation triple.
\<close>

theorem sampled_init_rejects_float_k:
  "SampledRankBasedEvaluator_init (first_positions 1) (Some [FloatK 2]) one_triple_factory None None
       (Some [[2]]) (Some [[0]])
     = Inl (ValueError ''If k is a float, it should represent a relative rank, i.e. a value between 0 and 1 (excl.)'')
   \<and> num_triples one_triple_factory = length [[2 :: nat]]
   \<and> num_triples one_triple_factory = length [[0 :: nat]]"
  by (simp add: SampledRankBasedEvaluator_init_def RankBasedEvaluator_init_def one_triple_factory_def
      num_triples_def)

theorem sampled_init_validation_witness:
  "is_ValueError (SampledRankBasedEvaluator_init (first_positions 1) None one_triple_factory None None
       (Some [[2], [1]]) (Some [[0]]))
   \<and> is_ValueError (SampledRankBasedEvaluator_init (first_positions 1) None one_triple_factory None None
       (Some [[2]]) None)
   \<and> is_ValueError (SampledRankBasedEvaluator_init (first_positions 1) None one_triple_factory None (Some 4)
       None None)
   \<and> \<not> is_ValueError (SampledRankBasedEvaluator_init (first_positions 1) None one_triple_factory None (Some 2)
       None None)"
  using sampled_init_validation [of "first_positions 1" None one_triple_factory None None "Some [[2], [1]]" "Some [[0]]"]
    sampled_init_validation [of "first_positions 1" None one_triple_factory None None "Some [[2]]" None]
    sampled_init_validation [of "first_positions 1" None one_triple_factory None "Some 4" None None]
    sampled_init_validation [of "first_positions 1" None one_triple_factory None "Some 2" None None]
  by (simp add: invalid_float_k_def requested_negatives_def one_triple_factory_def num_triples_def)

end
